(* ===== verification/Tg_Prelude.thy ===== *)
theory Tg_Prelude
  imports "HOL-Library.Word" "HOL-Library.Multiset" "HOL-Library.AList" "HOL-Library.Monad_Syntax"
begin

text \<open>
  What every component of the model shares: the machine integers, the reading of a
  Rust panic, vectors accessed by index and hash maps that are iterated.

  A computation that may panic has type \<open>'a run\<close>: \<^term>\<open>None\<close> is the panic
  (a failed \<open>assert!\<close>, an \<open>unwrap\<close> of \<open>None\<close>, an index out of range, a
  division by zero, \<open>unimplemented!\<close>) or a receive that never returns,
  \<^term>\<open>Some x\<close> is the value. The do-notation of the option monad sequences such
  computations. A value of the program's own type \<open>Option\<close> is an \<open>option\<close> as well,
  so unwrapping it in a computation needs no operation. A \<open>Result\<close> is a sum:
  \<^term>\<open>Inl e\<close> is \<open>Err(e)\<close>, \<^term>\<open>Inr x\<close> is \<open>Ok(x)\<close>.

  The release profile of the crates turns overflow checks off, so \<open>+\<close>, \<open>-\<close> and
  \<open>*\<close> on machine integers wrap, as they do on words.
\<close>

type_synonym u8 = "8 word"
type_synonym u32 = "32 word"
type_synonym u64 = "64 word"
type_synonym usize = "64 word"
type_synonym isize = "64 word"  \<comment> \<open>read with \<^term>\<open>sint\<close>\<close>
type_synonym uuid = "128 word"

type_synonym 'a run = "'a option"

abbreviation panic :: "'a run" where "panic \<equiv> None"
abbreviation ret :: "'a \<Rightarrow> 'a run" where "ret \<equiv> Some"

text \<open>Facts that hold of a returning computation, used to take \<open>do\<close>-blocks apart.\<close>

named_theorems run_elims "how a computation that returned must have gone"
named_theorems wf_intros "introduction rules for well-formedness predicates"

definition require :: "bool \<Rightarrow> unit run" where
  "require b = (if b then ret () else panic)"

lemma require_eq_Some [simp, run_elims]: "require b = Some u \<longleftrightarrow> b"
  by (simp add: require_def)

lemma require_True [simp]: "require True = Some ()"
  by (simp add: require_def)

lemma require_False [simp]: "require False = None"
  by (simp add: require_def)

lemmas bind_Some_iff [run_elims] = Option.bind_eq_Some_conv

lemma case_option_bind:
  "(case x of None \<Rightarrow> None | Some y \<Rightarrow> f y) = Option.bind x f"
  by (cases x) simp_all

text \<open>
  \<open>run_post P m\<close>: whatever \<open>m\<close> returns satisfies \<open>P\<close>. The rules follow the shape of a
  computation and leave one goal for each way it can return.
\<close>

definition run_post :: "('a \<Rightarrow> bool) \<Rightarrow> 'a run \<Rightarrow> bool" where
  "run_post P m \<longleftrightarrow> (\<forall>x. m = Some x \<longrightarrow> P x)"

named_theorems run_rules "rules for the postcondition of a computation"

lemma run_postD: "run_post P m \<Longrightarrow> m = Some x \<Longrightarrow> P x"
  by (simp add: run_post_def)

lemma run_postI: "(\<And>x. m = Some x \<Longrightarrow> P x) \<Longrightarrow> run_post P m"
  by (simp add: run_post_def)

lemma run_post_None [run_rules]: "run_post P None"
  by (simp add: run_post_def)

lemma run_post_Some [run_rules]: "P x \<Longrightarrow> run_post P (Some x)"
  by (simp add: run_post_def)

lemma run_post_bind [run_rules]:
  "(\<And>x. m = Some x \<Longrightarrow> run_post P (f x)) \<Longrightarrow> run_post P (Option.bind m f)"
  by (cases m) (simp_all add: run_post_def)

lemma run_post_option [run_rules]:
  "(opt = None \<Longrightarrow> run_post P m) \<Longrightarrow> (\<And>x. opt = Some x \<Longrightarrow> run_post P (f x)) \<Longrightarrow>
     run_post P (case opt of None \<Rightarrow> m | Some x \<Rightarrow> f x)"
  by (cases opt) simp_all

lemma run_post_sum [run_rules]:
  "(\<And>e. s = Inl e \<Longrightarrow> run_post P (f e)) \<Longrightarrow> (\<And>x. s = Inr x \<Longrightarrow> run_post P (g x)) \<Longrightarrow>
     run_post P (case s of Inl e \<Rightarrow> f e | Inr x \<Rightarrow> g x)"
  by (cases s) simp_all

lemma run_post_prod [run_rules]:
  "(\<And>x y. p = (x, y) \<Longrightarrow> run_post P (f x y)) \<Longrightarrow> run_post P (case p of (x, y) \<Rightarrow> f x y)"
  by (cases p) simp

lemma run_post_if [run_rules]:
  "(b \<Longrightarrow> run_post P m) \<Longrightarrow> (\<not> b \<Longrightarrow> run_post P n) \<Longrightarrow> run_post P (if b then m else n)"
  by simp

section \<open>Vectors\<close>

definition vec_get :: "'a list \<Rightarrow> nat \<Rightarrow> 'a run" where
  "vec_get xs i = (if i < length xs then ret (xs ! i) else panic)"

definition vec_set :: "'a list \<Rightarrow> nat \<Rightarrow> 'a \<Rightarrow> 'a list run" where
  "vec_set xs i x = (if i < length xs then ret (xs[i := x]) else panic)"

definition remove_nth :: "nat \<Rightarrow> 'a list \<Rightarrow> 'a list" where
  "remove_nth i xs = take i xs @ drop (Suc i) xs"

definition vec_remove :: "'a list \<Rightarrow> nat \<Rightarrow> ('a \<times> 'a list) run" where
  "vec_remove xs i = (if i < length xs then ret (xs ! i, remove_nth i xs) else panic)"

lemma vec_get_eq_Some [simp, run_elims]: "vec_get xs i = Some x \<longleftrightarrow> i < length xs \<and> xs ! i = x"
  by (auto simp: vec_get_def)

lemma vec_get_in [simp]: "i < length xs \<Longrightarrow> vec_get xs i = Some (xs ! i)"
  by (simp add: vec_get_def)

lemma vec_get_out [simp]: "length xs \<le> i \<Longrightarrow> vec_get xs i = None"
  by (simp add: vec_get_def)

lemma vec_set_eq_Some [simp, run_elims]:
  "vec_set xs i x = Some ys \<longleftrightarrow> i < length xs \<and> ys = xs[i := x]"
  by (auto simp: vec_set_def)

lemma vec_set_in [simp]: "i < length xs \<Longrightarrow> vec_set xs i x = Some (xs[i := x])"
  by (simp add: vec_set_def)

lemma vec_set_out [simp]: "length xs \<le> i \<Longrightarrow> vec_set xs i x = None"
  by (simp add: vec_set_def)

lemma vec_remove_eq_Some [simp, run_elims]:
  "vec_remove xs i = Some (x, ys) \<longleftrightarrow> i < length xs \<and> x = xs ! i \<and> ys = remove_nth i xs"
  by (auto simp: vec_remove_def)

lemma length_remove_nth [simp]:
  "i < length xs \<Longrightarrow> length (remove_nth i xs) = length xs - 1"
  by (simp add: remove_nth_def)

lemma map_remove_nth: "map f (remove_nth i xs) = remove_nth i (map f xs)"
  by (simp add: remove_nth_def take_map drop_map)

lemma list_split_nth: "i < length xs \<Longrightarrow> xs = take i xs @ xs ! i # drop (Suc i) xs"
  by (rule id_take_nth_drop)

lemma mset_remove_nth:
  "i < length xs \<Longrightarrow> mset (remove_nth i xs) = mset xs - {#xs ! i#}"
proof -
  assume i: "i < length xs"
  have "mset xs = mset (take i xs @ xs ! i # drop (Suc i) xs)"
    using i by (simp flip: list_split_nth)
  then show ?thesis by (simp add: remove_nth_def)
qed

lemma set_remove_nth_subset: "set (remove_nth i xs) \<subseteq> set xs"
  by (auto simp: remove_nth_def dest: in_set_takeD in_set_dropD)

lemma distinct_remove_nth: "distinct xs \<Longrightarrow> distinct (remove_nth i xs)"
  unfolding remove_nth_def
  by (auto dest: set_take_disj_set_drop_if_distinct [of _ i "Suc i"])

lemma set_remove_nth:
  assumes "distinct xs" and i: "i < length xs"
  shows "set (remove_nth i xs) = set xs - {xs ! i}"
proof -
  have *: "distinct (take i xs @ xs ! i # drop (Suc i) xs)"
    using assms by (simp flip: list_split_nth)
  have "set xs = set (take i xs @ xs ! i # drop (Suc i) xs)"
    using i by (simp flip: list_split_nth)
  with * show ?thesis by (auto simp: remove_nth_def)
qed

lemma nth_list_update_cases:
  "j < length xs \<Longrightarrow> xs[i := x] ! j = (if i = j then x else xs ! j)"
  by (simp add: nth_list_update)

section \<open>Hash maps that are iterated\<close>

text \<open>
  A \<open>HashMap\<close> whose entries are enumerated is an association list with distinct keys;
  the list's order stands for the order of enumeration, which Rust leaves open. A
  \<open>HashMap\<close> that is only looked up and compared is a map \<open>'k \<rightharpoonup> 'v\<close>.
\<close>

type_synonym ('k, 'v) hash_map = "('k \<times> 'v) list"

definition hm_new :: "('k, 'v) hash_map" where
  "hm_new = []"

definition hm_get :: "('k, 'v) hash_map \<Rightarrow> 'k \<Rightarrow> 'v option" where
  "hm_get m k = map_of m k"

definition hm_insert :: "'k \<Rightarrow> 'v \<Rightarrow> ('k, 'v) hash_map \<Rightarrow> ('k, 'v) hash_map" where
  "hm_insert k v m = AList.update k v m"

definition hm_remove :: "'k \<Rightarrow> ('k, 'v) hash_map \<Rightarrow> ('k, 'v) hash_map" where
  "hm_remove k m = AList.delete k m"

definition hm_ok :: "('k, 'v) hash_map \<Rightarrow> bool" where
  "hm_ok m \<longleftrightarrow> distinct (map fst m)"

text \<open>What a client of a hash map relies on.\<close>

locale hash_map_laws =
  fixes empty :: 'm
    and get :: "'m \<Rightarrow> 'k \<Rightarrow> 'v option"
    and ins :: "'k \<Rightarrow> 'v \<Rightarrow> 'm \<Rightarrow> 'm"
    and del :: "'k \<Rightarrow> 'm \<Rightarrow> 'm"
    and entries :: "'m \<Rightarrow> ('k \<times> 'v) list"
    and ok :: "'m \<Rightarrow> bool"
  assumes get_empty: "get empty k = None"
    and get_ins: "get (ins k v m) k' = (if k' = k then Some v else get m k')"
    and get_del: "get (del k m) k' = (if k' = k then None else get m k')"
    and get_entries: "ok m \<Longrightarrow> get m k = Some v \<longleftrightarrow> (k, v) \<in> set (entries m)"
    and ok_empty: "ok empty"
    and ok_ins: "ok m \<Longrightarrow> ok (ins k v m)"
    and ok_del: "ok m \<Longrightarrow> ok (del k m)"
    and ok_distinct: "ok m \<Longrightarrow> distinct (map fst (entries m))"
begin

lemma get_ins_same [simp]: "get (ins k v m) k = Some v"
  by (simp add: get_ins)

lemma get_ins_other [simp]: "k' \<noteq> k \<Longrightarrow> get (ins k v m) k' = get m k'"
  by (simp add: get_ins)

lemma get_del_same [simp]: "get (del k m) k = None"
  by (simp add: get_del)

lemma entries_ins:
  "ok m \<Longrightarrow> set (entries (ins k v m)) = insert (k, v) {e \<in> set (entries m). fst e \<noteq> k}"
proof -
  assume ok: "ok m"
  show ?thesis
  proof (rule set_eqI)
    fix e :: "'k \<times> 'v"
    obtain a b where e: "e = (a, b)" by force
    show "e \<in> set (entries (ins k v m)) \<longleftrightarrow>
        e \<in> insert (k, v) {e \<in> set (entries m). fst e \<noteq> k}"
      unfolding e using get_entries [OF ok_ins [OF ok, of k v], of a b] get_entries [OF ok, of a b]
      by (auto simp: get_ins split: if_splits)
  qed
qed

lemma entries_del:
  "ok m \<Longrightarrow> set (entries (del k m)) = {e \<in> set (entries m). fst e \<noteq> k}"
proof -
  assume ok: "ok m"
  show ?thesis
  proof (rule set_eqI)
    fix e :: "'k \<times> 'v"
    obtain a b where e: "e = (a, b)" by force
    show "e \<in> set (entries (del k m)) \<longleftrightarrow> e \<in> {e \<in> set (entries m). fst e \<noteq> k}"
      unfolding e using get_entries [OF ok_del [OF ok, of k], of a b] get_entries [OF ok, of a b]
      by (auto simp: get_del split: if_splits)
  qed
qed

end

interpretation hm: hash_map_laws hm_new hm_get hm_insert hm_remove "\<lambda>m. m" hm_ok
proof unfold_locales
  show "hm_get m k = Some v \<longleftrightarrow> (k, v) \<in> set m" if "hm_ok m"
    for m :: "('k \<times> 'v) list" and k v
    using that by (simp add: hm_get_def hm_ok_def)
qed (auto simp: hm_get_def hm_new_def hm_insert_def hm_remove_def hm_ok_def
      update_conv' delete_conv' AList.distinct_update distinct_delete)

lemmas hm_simps [simp] = hm.get_empty hm.get_ins hm.get_del

lemma hm_ok_new [simp, wf_intros]: "hm_ok hm_new"
  by (rule hm.ok_empty)

lemma hm_ok_insert [simp, wf_intros]: "hm_ok m \<Longrightarrow> hm_ok (hm_insert k v m)"
  by (rule hm.ok_ins)

lemma hm_ok_remove [simp, wf_intros]: "hm_ok m \<Longrightarrow> hm_ok (hm_remove k m)"
  by (rule hm.ok_del)

lemma length_hm_insert_fresh:
  "hm_get m k = None \<Longrightarrow> hm_insert k v m = m @ [(k, v)]"
  by (induction m) (auto simp: hm_get_def hm_insert_def split: if_splits)

lemma keys_hm_insert_present:
  "hm_get m k = Some w \<Longrightarrow> map fst (hm_insert k v m) = map fst m"
  by (induction m) (auto simp: hm_get_def hm_insert_def split: if_splits)

lemma hm_insert_same: "hm_get m k = Some v \<Longrightarrow> hm_insert k v m = m"
  by (induction m) (auto simp: hm_get_def hm_insert_def split: if_splits)

section \<open>Step relations\<close>

text \<open>An invariant of a step relation holds along every run.\<close>

locale step_invariant =
  fixes step :: "'s \<Rightarrow> 's \<Rightarrow> bool" and inv :: "'s \<Rightarrow> bool"
  assumes inv_step: "inv s \<Longrightarrow> step s s' \<Longrightarrow> inv s'"
begin

lemma run_inv: "step\<^sup>*\<^sup>* s s' \<Longrightarrow> inv s \<Longrightarrow> inv s'"
  by (induction rule: rtranclp_induct) (auto intro: inv_step)

end

text \<open>A step relation with a clock that no step turns back.\<close>

locale clocked = step_invariant step inv
  for step :: "'s \<Rightarrow> 's \<Rightarrow> bool" and inv :: "'s \<Rightarrow> bool" +
  fixes clock :: "'s \<Rightarrow> 't::preorder"
  assumes clock_step: "inv s \<Longrightarrow> step s s' \<Longrightarrow> clock s \<le> clock s'"
begin

lemma run_clock: "step\<^sup>*\<^sup>* s s' \<Longrightarrow> inv s \<Longrightarrow> clock s \<le> clock s'"
proof (induction rule: rtranclp_induct)
  case (step y z)
  then have "inv y" using run_inv by blast
  with step show ?case by (blast intro: clock_step order_trans)
qed simp

end

end
