(* ===== verification/Tg_Heap.thy ===== *)
theory Tg_Heap
  imports Tg_Prelude
begin

text \<open>
  The priority queue under the simulation loop. Rust's \<open>BinaryHeap\<close> is the array of a
  complete binary tree: \<open>push\<close> appends and sifts up, \<open>pop\<close> moves the last element to
  the root, sifts it down to the bottom and up again. The program orders its items by the
  opposite of their timestamps, so the maximum of the heap is the smallest key; the
  comparisons below are on keys, already reversed. The order among equal keys is that of
  the array algorithm.

  The interface \<open>event_queue\<close> says what the simulation relies on; it is interpreted
  on the array algorithm at the end.
\<close>

definition swap_nth :: "'a list \<Rightarrow> nat \<Rightarrow> nat \<Rightarrow> 'a list" where
  "swap_nth xs i j = xs[i := xs ! j, j := xs ! i]"

definition parent :: "nat \<Rightarrow> nat" where
  "parent i = (i - 1) div 2"

lemma parent_less: "0 < i \<Longrightarrow> parent i < i"
  unfolding parent_def by linarith

lemma parent_eq_iff: "0 < i \<Longrightarrow> parent i = p \<longleftrightarrow> i = 2 * p + 1 \<or> i = 2 * p + 2"
  unfolding parent_def by linarith

lemma length_swap_nth [simp]: "length (swap_nth xs i j) = length xs"
  by (simp add: swap_nth_def)

lemma mset_swap_nth [simp]:
  "i < length xs \<Longrightarrow> j < length xs \<Longrightarrow> mset (swap_nth xs i j) = mset xs"
  by (simp add: swap_nth_def mset_swap)

lemma nth_swap_nth:
  "i < length xs \<Longrightarrow> j < length xs \<Longrightarrow>
    swap_nth xs i j ! k = (if k = i then xs ! j else if k = j then xs ! i else xs ! k)"
  by (auto simp: swap_nth_def nth_list_update)

function sift_up :: "('a \<Rightarrow> 'k::linorder) \<Rightarrow> 'a list \<Rightarrow> nat \<Rightarrow> 'a list" where
  "sift_up key xs pos =
     (if 0 < pos \<and> \<not> key (xs ! parent pos) \<le> key (xs ! pos)
      then sift_up key (swap_nth xs pos (parent pos)) (parent pos)
      else xs)"
  by pat_completeness auto
termination
  by (relation "measure (\<lambda>(key, xs, pos). pos)") (auto simp: parent_less)

function sift_down_to_bottom ::
  "('a \<Rightarrow> 'k::linorder) \<Rightarrow> 'a list \<Rightarrow> nat \<Rightarrow> 'a list \<times> nat" where
  "sift_down_to_bottom key xs pos =
     (let child = 2 * pos + 1; right = child + 1;
          c = (if right < length xs \<and> \<not> key (xs ! child) < key (xs ! right) then right else child)
      in if child < length xs then sift_down_to_bottom key (swap_nth xs pos c) c
         else (xs, pos))"
  by pat_completeness auto
termination
  by (relation "measure (\<lambda>(key, xs, pos). length xs - pos)") (auto simp: Let_def)

declare sift_up.simps [simp del] sift_down_to_bottom.simps [simp del]

definition heap_push :: "('a \<Rightarrow> 'k::linorder) \<Rightarrow> 'a \<Rightarrow> 'a list \<Rightarrow> 'a list" where
  "heap_push key x xs = sift_up key (xs @ [x]) (length xs)"

definition heap_pop :: "('a \<Rightarrow> 'k::linorder) \<Rightarrow> 'a list \<Rightarrow> ('a \<times> 'a list) option" where
  "heap_pop key xs =
     (if xs = [] then None
      else let item = last xs; rest = butlast xs
           in if rest = [] then Some (item, [])
              else let (ys, pos) = sift_down_to_bottom key (rest[0 := item]) 0
                   in Some (rest ! 0, sift_up key ys pos))"

section \<open>The heap order and its two weakenings\<close>

definition ordered_at :: "('a \<Rightarrow> 'k::linorder) \<Rightarrow> 'a list \<Rightarrow> nat \<Rightarrow> bool" where
  "ordered_at key xs i \<longleftrightarrow> key (xs ! parent i) \<le> key (xs ! i)"

definition is_heap :: "('a \<Rightarrow> 'k::linorder) \<Rightarrow> 'a list \<Rightarrow> bool" where
  "is_heap key xs \<longleftrightarrow> (\<forall>i. 0 < i \<longrightarrow> i < length xs \<longrightarrow> ordered_at key xs i)"

text \<open>The children of \<open>p\<close> are above the parent of \<open>p\<close>.\<close>

definition bridged :: "('a \<Rightarrow> 'k::linorder) \<Rightarrow> 'a list \<Rightarrow> nat \<Rightarrow> bool" where
  "bridged key xs p \<longleftrightarrow>
     (\<forall>i. 0 < i \<longrightarrow> i < length xs \<longrightarrow> parent i = p \<longrightarrow> 0 < p \<longrightarrow>
        key (xs ! parent p) \<le> key (xs ! i))"

text \<open>Ordered everywhere but between \<open>p\<close> and its parent; or but around \<open>p\<close>.\<close>

definition heap_below :: "('a \<Rightarrow> 'k::linorder) \<Rightarrow> 'a list \<Rightarrow> nat \<Rightarrow> bool" where
  "heap_below key xs p \<longleftrightarrow>
     (\<forall>i. 0 < i \<longrightarrow> i < length xs \<longrightarrow> i \<noteq> p \<longrightarrow> ordered_at key xs i) \<and> bridged key xs p"

definition heap_around :: "('a \<Rightarrow> 'k::linorder) \<Rightarrow> 'a list \<Rightarrow> nat \<Rightarrow> bool" where
  "heap_around key xs p \<longleftrightarrow>
     (\<forall>i. 0 < i \<longrightarrow> i < length xs \<longrightarrow> i \<noteq> p \<longrightarrow> parent i \<noteq> p \<longrightarrow> ordered_at key xs i) \<and>
     bridged key xs p"

lemma heap_below_swap:
  assumes h: "heap_below key xs p" and p: "0 < p" "p < length xs"
    and lt: "\<not> key (xs ! parent p) \<le> key (xs ! p)"
  shows "heap_below key (swap_nth xs p (parent p)) (parent p)"
proof -
  let ?q = "parent p" and ?ys = "swap_nth xs p (parent p)"
  have q: "?q < p" "?q < length xs" using p parent_less [of p] by auto
  note nth = nth_swap_nth [OF p(2) q(2)]
  have ord: "key (xs ! parent i) \<le> key (xs ! i)" if "0 < i" "i < length xs" "i \<noteq> p" for i
    using h that by (auto simp: heap_below_def ordered_at_def)
  have br: "key (xs ! ?q) \<le> key (xs ! i)" if "0 < i" "i < length xs" "parent i = p" for i
    using h that p by (auto simp: heap_below_def bridged_def)
  have "ordered_at key ?ys i" if i: "0 < i" "i < length xs" "i \<noteq> ?q" for i
  proof (cases "i = p")
    case True
    then show ?thesis using lt q by (auto simp: ordered_at_def nth)
  next
    case False
    with i ord [of i] br [of i] lt q show ?thesis
      by (auto simp: ordered_at_def nth)
  qed
  moreover have "key (?ys ! parent ?q) \<le> key (?ys ! i)"
    if i: "0 < i" "i < length xs" "parent i = ?q" "0 < ?q" for i
  proof -
    have "parent ?q < ?q" using i(4) by (rule parent_less)
    with i q ord [of ?q] ord [of i] show ?thesis
      by (auto simp: nth intro: order_trans)
  qed
  ultimately show ?thesis by (simp add: heap_below_def bridged_def)
qed

lemma sift_up_heap:
  "heap_below key xs p \<Longrightarrow> p < length xs \<Longrightarrow> is_heap key (sift_up key xs p)"
proof (induction key xs p rule: sift_up.induct)
  case (1 key xs p)
  show ?case
  proof (cases "0 < p \<and> \<not> key (xs ! parent p) \<le> key (xs ! p)")
    case True
    with "1.prems" have "heap_below key (swap_nth xs p (parent p)) (parent p)"
      by (intro heap_below_swap) auto
    moreover from True "1.prems" have "parent p < length xs"
      using parent_less [of p] by simp
    ultimately show ?thesis
      using True "1.IH" by (simp add: sift_up.simps [of key xs p])
  next
    case False
    with "1.prems" show ?thesis
      by (auto simp: sift_up.simps [of key xs p] is_heap_def heap_below_def ordered_at_def)
  qed
qed

lemma sift_up_mset: "p < length xs \<Longrightarrow> mset (sift_up key xs p) = mset xs"
proof (induction key xs p rule: sift_up.induct)
  case (1 key xs p)
  have "0 < p \<Longrightarrow> parent p < length xs" using parent_less [of p] "1.prems" by simp
  with "1" show ?case by (subst sift_up.simps) auto
qed

lemma heap_around_swap:
  assumes h: "heap_around key xs p" and c: "p = parent c" "0 < c" "c < length xs"
    and least: "\<And>i. 0 < i \<Longrightarrow> i < length xs \<Longrightarrow> parent i = p \<Longrightarrow> key (xs ! c) \<le> key (xs ! i)"
  shows "heap_around key (swap_nth xs p c) c"
proof -
  let ?ys = "swap_nth xs p c"
  have p: "p < c" "p < length xs" using c parent_less [of c] by auto
  note nth = nth_swap_nth [OF p(2) c(3)]
  have ord: "key (xs ! parent i) \<le> key (xs ! i)"
    if "0 < i" "i < length xs" "i \<noteq> p" "parent i \<noteq> p" for i
    using h that by (auto simp: heap_around_def ordered_at_def)
  have "ordered_at key ?ys i" if i: "0 < i" "i < length xs" "i \<noteq> c" "parent i \<noteq> c" for i
  proof (cases "i = p")
    case True
    have "key (xs ! parent p) \<le> key (xs ! c)"
      using h c i True by (auto simp: heap_around_def bridged_def)
    moreover have "parent p \<noteq> p" "parent p \<noteq> c"
      using parent_less [of p] p i True by auto
    ultimately show ?thesis using True p by (simp add: ordered_at_def nth)
  next
    case False
    with i ord [of i] least [of i] show ?thesis by (auto simp: ordered_at_def nth)
  qed
  moreover have "key (?ys ! parent c) \<le> key (?ys ! i)"
    if i: "0 < i" "i < length xs" "parent i = c" for i
  proof -
    have "i \<noteq> p" "i \<noteq> c" using i parent_less [of i] p by auto
    moreover have "key (xs ! parent i) \<le> key (xs ! i)" using i p c calculation by (intro ord) auto
    ultimately show ?thesis using i(3) nth [of i] nth [of p] c(1) by simp
  qed
  ultimately show ?thesis by (simp add: heap_around_def bridged_def)
qed

lemma sift_down_heap_below:
  "heap_around key xs p \<Longrightarrow> p < length xs \<Longrightarrow> sift_down_to_bottom key xs p = (ys, q) \<Longrightarrow>
     heap_below key ys q \<and> q < length ys \<and> mset ys = mset xs"
proof (induction key xs p rule: sift_down_to_bottom.induct)
  case (1 key xs p)
  define c where "c = (if 2 * p + 1 + 1 < length xs \<and>
    \<not> key (xs ! (2 * p + 1)) < key (xs ! (2 * p + 1 + 1)) then 2 * p + 1 + 1 else 2 * p + 1)"
  have c: "parent c = p" "0 < c" by (auto simp: c_def parent_def)
  have unfold: "sift_down_to_bottom key xs p =
      (if 2 * p + 1 < length xs then sift_down_to_bottom key (swap_nth xs p c) c else (xs, p))"
    by (simp add: sift_down_to_bottom.simps [of key xs p] Let_def c_def)
  show ?case
  proof (cases "2 * p + 1 < length xs")
    case True
    then have cl: "c < length xs" by (simp add: c_def)
    have "heap_around key (swap_nth xs p c) c"
    proof (rule heap_around_swap [OF "1.prems"(1)])
      show "key (xs ! c) \<le> key (xs ! i)" if "0 < i" "i < length xs" "parent i = p" for i
        using that by (auto simp: c_def parent_eq_iff)
    qed (use c cl in auto)
    with "1.IH" [OF refl refl c_def True] True cl "1.prems" unfold show ?thesis
      by simp
  next
    case False
    then have "parent i \<noteq> p" if "0 < i" "i < length xs" for i
      using that by (auto simp: parent_eq_iff)
    with False "1.prems" unfold show ?thesis
      by (auto simp: heap_around_def heap_below_def)
  qed
qed

lemma is_heap_root_least:
  assumes "is_heap key xs"
  shows "i < length xs \<Longrightarrow> key (xs ! 0) \<le> key (xs ! i)"
proof (induction i rule: less_induct)
  case (less i)
  show ?case
  proof (cases "i = 0")
    case False
    then have "parent i < i" by (simp add: parent_less)
    with less have "key (xs ! 0) \<le> key (xs ! parent i)" by simp
    also have "\<dots> \<le> key (xs ! i)"
      using assms less.prems False by (simp add: is_heap_def ordered_at_def)
    finally show ?thesis .
  qed simp
qed

lemma is_heap_Nil [simp]: "is_heap key []"
  by (simp add: is_heap_def)

lemma heap_push_heap:
  assumes "is_heap key xs"
  shows "is_heap key (heap_push key x xs)"
proof -
  have par: "parent i < length xs" if "0 < i" "i < Suc (length xs)" for i
    using that parent_less [of i] by simp
  have "parent i \<noteq> length xs" if "0 < i" "i < Suc (length xs)" for i
    using par [OF that] by simp
  with par have "heap_below key (xs @ [x]) (length xs)"
    using assms
    by (auto simp: heap_below_def bridged_def is_heap_def ordered_at_def nth_append)
  then show ?thesis by (simp add: heap_push_def sift_up_heap)
qed

lemma heap_push_mset: "mset (heap_push key x xs) = add_mset x (mset xs)"
  by (simp add: heap_push_def sift_up_mset)

text \<open>Writing the last element over the root leaves a heap but for the children of the root.\<close>

lemma heap_around_root_replaced:
  assumes h: "is_heap key xs" and "rest = butlast xs"
  shows "heap_around key (rest[0 := y]) 0"
proof -
  have "ordered_at key (rest[0 := y]) i" if i: "0 < i" "i < length rest" "parent i \<noteq> 0" for i
  proof -
    have "parent i < length rest" using i parent_less [of i] by simp
    then show ?thesis
      using h i assms(2) by (simp add: ordered_at_def is_heap_def nth_list_update nth_butlast)
  qed
  then show ?thesis by (simp add: heap_around_def bridged_def)
qed

lemma mset_root_replaced:
  assumes "0 < length rest"
  shows "add_mset (rest ! 0) (mset (rest[0 := y])) = add_mset y (mset rest)"
  using assms by (cases rest) auto

lemma heap_pop_split:
  assumes h: "is_heap key xs" and pop: "heap_pop key xs = Some (x, ys)"
  shows "is_heap key ys \<and> mset xs = add_mset x (mset ys) \<and> x = xs ! 0"
proof -
  from pop have ne: "xs \<noteq> []" by (auto simp: heap_pop_def)
  then have xs: "xs = butlast xs @ [last xs]" by simp
  show ?thesis
  proof (cases "butlast xs = []")
    case True
    with pop ne have "x = last xs" "ys = []" by (auto simp: heap_pop_def)
    moreover from True xs have "xs = [last xs]" by simp
    ultimately show ?thesis by (metis is_heap_Nil mset.simps nth_Cons_0)
  next
    case False
    define rest where "rest = butlast xs"
    from False have len: "0 < length rest" unfolding rest_def by (rule length_greater_0_conv [THEN iffD2])
    obtain zs p where z: "sift_down_to_bottom key (rest[0 := last xs]) 0 = (zs, p)"
      by fastforce
    with pop ne False have x: "x = rest ! 0" and y: "ys = sift_up key zs p"
      by (auto simp: heap_pop_def Let_def rest_def)
    have zs: "heap_below key zs p" "p < length zs" "mset zs = mset (rest[0 := last xs])"
      using sift_down_heap_below [OF heap_around_root_replaced [OF h rest_def] _ z] len by auto
    have "mset xs = add_mset (last xs) (mset rest)"
      unfolding rest_def by (subst xs) simp
    then have "mset xs = add_mset x (mset zs)"
      using mset_root_replaced [OF len, of "last xs"] x zs(3) by simp
    moreover have "x = xs ! 0" using len x by (simp add: rest_def nth_butlast)
    ultimately show ?thesis using zs(1,2) y by (simp add: sift_up_heap sift_up_mset)
  qed
qed

lemma heap_pop_Some:
  assumes h: "is_heap key xs" and pop: "heap_pop key xs = Some (x, ys)"
  shows "is_heap key ys" and "mset xs = add_mset x (mset ys)"
    and "\<And>y. y \<in># mset xs \<Longrightarrow> key x \<le> key y"
proof -
  note split = heap_pop_split [OF h pop]
  then show "is_heap key ys" and "mset xs = add_mset x (mset ys)" by blast+
  show "key x \<le> key y" if "y \<in># mset xs" for y
  proof -
    from that obtain i where "i < length xs" "y = xs ! i"
      unfolding set_mset_mset in_set_conv_nth by blast
    with split show ?thesis by (simp add: is_heap_root_least [OF h])
  qed
qed

lemma heap_pop_None: "heap_pop key xs = None \<longleftrightarrow> xs = []"
  by (auto simp: heap_pop_def Let_def split: prod.splits)

section \<open>The interface\<close>

locale event_queue =
  fixes push :: "'a \<Rightarrow> 'q \<Rightarrow> 'q"
    and pop :: "'q \<Rightarrow> ('a \<times> 'q) option"
    and items :: "'q \<Rightarrow> 'a multiset"
    and time :: "'a \<Rightarrow> 'k::linorder"
    and ok :: "'q \<Rightarrow> bool"
  assumes items_push: "items (push x q) = add_mset x (items q)"
    and ok_push: "ok q \<Longrightarrow> ok (push x q)"
    and pop_None: "pop q = None \<longleftrightarrow> items q = {#}"
    and ok_pop: "ok q \<Longrightarrow> pop q = Some (x, q') \<Longrightarrow> ok q'"
    and items_pop: "ok q \<Longrightarrow> pop q = Some (x, q') \<Longrightarrow> items q = add_mset x (items q')"
    and pop_least: "ok q \<Longrightarrow> pop q = Some (x, q') \<Longrightarrow> y \<in># items q \<Longrightarrow> time x \<le> time y"
begin

text \<open>No event is lost or invented, and none is delivered before an earlier one.\<close>

lemma pop_in: "ok q \<Longrightarrow> pop q = Some (x, q') \<Longrightarrow> x \<in># items q"
  by (simp add: items_pop)

lemma pop_keeps: "ok q \<Longrightarrow> pop q = Some (x, q') \<Longrightarrow> y \<in># items q' \<Longrightarrow> y \<in># items q"
  by (simp add: items_pop)

lemma pop_later:
  "ok q \<Longrightarrow> pop q = Some (x, q') \<Longrightarrow> y \<in># items q' \<Longrightarrow> time x \<le> time y"
  by (blast intro: pop_least pop_keeps)

lemma pop_pop_sorted:
  "ok q \<Longrightarrow> pop q = Some (x, q') \<Longrightarrow> pop q' = Some (y, q'') \<Longrightarrow> time x \<le> time y"
  by (blast intro: pop_later pop_in ok_pop)

lemma push_not_earlier:
  "\<forall>y\<in>#items q. t \<le> time y \<Longrightarrow> t \<le> time x \<Longrightarrow> \<forall>y\<in>#items (push x q). t \<le> time y"
  by (simp add: items_push)

lemma pop_push:
  assumes "ok q" and "\<forall>y\<in>#items q. t \<le> time y" and "t \<le> time x"
    and "pop (push x q) = Some (y, q')"
  shows "t \<le> time y" and "\<forall>z\<in>#items q'. time y \<le> time z"
proof -
  have "ok (push x q)" using assms(1) by (rule ok_push)
  note y = pop_in [OF this assms(4)] and later = pop_later [OF this assms(4)]
  from y show "t \<le> time y" using assms(2,3) by (auto simp: items_push)
  from later show "\<forall>z\<in>#items q'. time y \<le> time z" by blast
qed

end

interpretation heap: event_queue "heap_push key" "heap_pop key" mset key "is_heap key"
  for key :: "'a \<Rightarrow> 'k::linorder"
  by unfold_locales
    (auto simp: heap_push_mset heap_push_heap heap_pop_None heap_pop_Some
      dest: heap_pop_Some(3))

section \<open>Emptying the queue\<close>

fun heap_drain :: "('a \<Rightarrow> 'k::linorder) \<Rightarrow> nat \<Rightarrow> 'a list \<Rightarrow> 'a list" where
  "heap_drain key 0 xs = []"
| "heap_drain key (Suc n) xs =
     (case heap_pop key xs of None \<Rightarrow> [] | Some (x, ys) \<Rightarrow> x # heap_drain key n ys)"

lemma heap_drain_sorted:
  "is_heap key xs \<Longrightarrow> n = length xs \<Longrightarrow>
     sorted (map key (heap_drain key n xs)) \<and> mset (heap_drain key n xs) = mset xs"
proof (induction key n xs rule: heap_drain.induct)
  case (2 key n xs)
  then have "heap_pop key xs \<noteq> None" by (auto simp: heap_pop_None)
  then obtain x ys where pop: "heap_pop key xs = Some (x, ys)" by auto
  note heap = "2.prems"(1)
  have ms: "mset xs = add_mset x (mset ys)" by (rule heap.items_pop [OF heap pop])
  have ok: "is_heap key ys" by (rule heap.ok_pop [OF heap pop])
  have "length xs = Suc (length ys)" using arg_cong [OF ms, of size] by simp
  with "2.prems" have "n = length ys" by simp
  note ih = "2.IH" [OF pop refl ok this]
  have "key x \<le> key y" if "y \<in> set (heap_drain key n ys)" for y
    using heap.pop_later [OF heap pop, of y] that ih by (metis set_mset_mset)
  with ih pop ms show ?case by simp
qed simp

end
