(* ===== verification/Tg_Objects.thy ===== *)
theory Tg_Objects
  imports Tg_Prelude
begin

text \<open>
  The trading objects of \<open>util/src/trading/objects.rs\<close> and the actions of
  \<open>trading_condition.rs\<close>: positions with their opening and closing conditions and the
  sanity check, and the ledger of an account with its six operations. A \<open>Position\<close>
  names its symbol by an index into a vector, so the index is a \<open>nat\<close>; prices, sizes,
  values and times are 64-bit words.
\<close>

type_synonym symbol_ix = nat

datatype trading_action =
    MarketOrder string bool usize "usize option" "usize option" "usize option"
      \<comment> \<open>symbol, long, size, stop, take profit, max range\<close>
  | LimitOrder string bool usize "usize option" "usize option" usize
      \<comment> \<open>symbol, long, size, stop, take profit, entry price\<close>
  | MarketClose uuid usize
  | LimitClose uuid usize usize
  | ModifyOrder uuid usize usize "usize option" "usize option"
  | ModifyPosition uuid "usize option" "usize option"
  | CancelOrder uuid

datatype position_closure_reason =
    StopLoss | TakeProfit | MarginCall | Expired | FillOrKill | MarketClose_reason

record position =
  p_creation_time :: u64
  p_symbol_id :: symbol_ix
  p_size :: usize
  p_price :: "usize option"
  p_long :: bool
  p_stop :: "usize option"
  p_take_profit :: "usize option"
  p_execution_time :: "u64 option"
  p_execution_price :: "usize option"
  p_exit_price :: "usize option"
  p_exit_time :: "u64 option"

record ledger =
  buying_power :: usize
  pending_positions :: "uuid \<rightharpoonup> position"
  open_positions :: "uuid \<rightharpoonup> position"
  closed_positions :: "uuid \<rightharpoonup> position"

record account =
  acct_uuid :: uuid
  acct_ledger :: ledger
  acct_live :: bool

datatype broker_action =
    TradingAction uuid trading_action
  | Ping
  | GetLedger uuid
  | ListAccounts
  | Disconnect

datatype broker_message =
    Success | Failure | Notice
  | LedgerBalanceChange uuid usize
  | OrderPlaced uuid position u64
  | OrderModified uuid position u64
  | OrderCancelled uuid position u64
  | PositionOpened uuid position u64
  | PositionClosed uuid position position_closure_reason u64
  | PositionModified uuid position u64
  | Pong u64
  | AccountListing "account list"
  | Ledger_msg ledger

datatype broker_error =
    Message string
  | Unimplemented string
  | InsufficientBuyingPower
  | NoSuchPosition
  | NoSuchAccount
  | NoSuchSymbol
  | InvalidModificationAmount
  | InvalidStopValue
  | InvalidTakeProfitValue
  | ExitWithoutEntry
  | MissingExecutionData
  | MissingExitData
  | InvalidExecutionTime
  | InvalidExitTime
  | NoDataAvailable

type_synonym broker_result = "broker_error + broker_message"

section \<open>Positions\<close>

definition is_open_satisfied :: "position \<Rightarrow> usize \<Rightarrow> usize \<Rightarrow> usize option run" where
  "is_open_satisfied pos b a = do {
     require (p_execution_price pos = None);
     require (p_price pos \<noteq> None);
     price \<leftarrow> p_price pos;
     ret (if p_long pos \<and> a \<le> price then Some a
          else if b \<ge> price then Some b
          else None)
   }"

definition is_close_satisfied ::
  "position \<Rightarrow> usize \<Rightarrow> usize \<Rightarrow> (usize \<times> position_closure_reason) option run" where
  "is_close_satisfied pos b a = do {
     require (p_execution_price pos \<noteq> None);
     require (p_exit_price pos = None);
     ret (if p_long pos then
            if (case p_stop pos of Some st \<Rightarrow> st \<ge> b | None \<Rightarrow> False) then Some (b, StopLoss)
            else if (case p_take_profit pos of Some tp \<Rightarrow> tp \<le> a | None \<Rightarrow> False)
              then Some (a, StopLoss)
            else None
          else
            if (case p_stop pos of Some st \<Rightarrow> st \<le> a | None \<Rightarrow> False) then Some (a, TakeProfit)
            else if (case p_take_profit pos of Some tp \<Rightarrow> tp \<ge> b | None \<Rightarrow> False)
              then Some (b, TakeProfit)
            else None)
   }"

text \<open>The two checks made against the price, when the position has one.\<close>

definition stop_invalid :: "position \<Rightarrow> usize \<Rightarrow> bool" where
  "stop_invalid pos price =
     (case p_stop pos of
        Some st \<Rightarrow> (p_long pos \<and> price \<le> st) \<or> (\<not> p_long pos \<and> price \<ge> st)
      | None \<Rightarrow> False)"

definition take_profit_invalid :: "position \<Rightarrow> usize \<Rightarrow> bool" where
  "take_profit_invalid pos price =
     (case p_take_profit pos of
        Some tp \<Rightarrow> (p_long pos \<and> price \<ge> tp) \<or> (\<not> p_long pos \<and> price \<le> tp)
      | None \<Rightarrow> False)"

definition check_sanity :: "position \<Rightarrow> (broker_error + unit) run" where
  "check_sanity pos =
     (if (case p_price pos of Some price \<Rightarrow> stop_invalid pos price | None \<Rightarrow> False)
        then ret (Inl InvalidStopValue)
      else if (case p_price pos of Some price \<Rightarrow> take_profit_invalid pos price | None \<Rightarrow> False)
        then ret (Inl InvalidTakeProfitValue)
      else if p_execution_price pos = None \<and> p_exit_price pos \<noteq> None
        then ret (Inl ExitWithoutEntry)
      else if (p_execution_price pos \<noteq> None \<and> p_execution_time pos = None) \<or>
              (p_execution_price pos = None \<and> p_execution_time pos \<noteq> None)
        then ret (Inl MissingExecutionData)
      else if (p_exit_price pos \<noteq> None \<and> p_exit_time pos = None) \<or>
              (p_exit_price pos = None \<and> p_exit_time pos \<noteq> None)
        then ret (Inl MissingExitData)
      else if (case p_execution_time pos of Some t \<Rightarrow> t < p_creation_time pos | None \<Rightarrow> False)
        then ret (Inl InvalidExecutionTime)
      else case p_exit_time pos of
             None \<Rightarrow> ret (Inr ())
           | Some t \<Rightarrow> do {
               et \<leftarrow> p_execution_time pos;
               ret (if t < et then Inl InvalidExitTime else Inr ())
             })"

section \<open>The ledger\<close>

definition ledger_new :: "usize \<Rightarrow> ledger" where
  "ledger_new starting_balance =
     \<lparr>buying_power = starting_balance, pending_positions = Map.empty,
      open_positions = Map.empty, closed_positions = Map.empty\<rparr>"

definition ledger_place_order ::
  "ledger \<Rightarrow> position \<Rightarrow> usize \<Rightarrow> uuid \<Rightarrow> broker_result \<times> ledger" where
  "ledger_place_order l pos position_value u =
     (if position_value > buying_power l then (Inl InsufficientBuyingPower, l)
      else (Inr (OrderPlaced u pos (p_creation_time pos)),
            l\<lparr>buying_power := buying_power l - position_value,
              pending_positions := (pending_positions l)(u \<mapsto> pos)\<rparr>))"

definition ledger_modify_order ::
  "ledger \<Rightarrow> uuid \<Rightarrow> usize \<Rightarrow> usize \<Rightarrow> usize option \<Rightarrow> usize option \<Rightarrow> u64 \<Rightarrow>
     broker_result \<times> ledger" where
  "ledger_modify_order l u sz entry_price sl tp ts =
     (case pending_positions l u of
        None \<Rightarrow> (Inl NoSuchPosition, l)
      | Some order \<Rightarrow>
          let order' = order\<lparr>p_size := sz, p_price := Some entry_price, p_stop := sl,
                             p_take_profit := tp\<rparr>
          in (Inr (OrderModified u order' ts),
              l\<lparr>pending_positions := (pending_positions l)(u \<mapsto> order')\<rparr>))"

definition ledger_cancel_order :: "ledger \<Rightarrow> uuid \<Rightarrow> u64 \<Rightarrow> broker_result \<times> ledger" where
  "ledger_cancel_order l u ts =
     (case pending_positions l u of
        Some order \<Rightarrow> (Inr (OrderCancelled u order ts),
                       l\<lparr>pending_positions := (pending_positions l)(u := None)\<rparr>)
      | None \<Rightarrow> (Inl NoSuchPosition, l))"

definition ledger_open_position :: "ledger \<Rightarrow> uuid \<Rightarrow> position \<Rightarrow> (broker_result \<times> ledger) run" where
  "ledger_open_position l u pos = do {
     execution_time \<leftarrow> p_execution_time pos;
     ret (if p_execution_price pos = None
          then (Inl (Message ''The supplied position does not have an entry price.''), l)
          else (Inr (PositionOpened u pos execution_time),
                l\<lparr>open_positions := (open_positions l)(u \<mapsto> pos)\<rparr>))
   }"

definition ledger_close_position ::
  "ledger \<Rightarrow> uuid \<Rightarrow> usize \<Rightarrow> u64 \<Rightarrow> position_closure_reason \<Rightarrow> broker_result \<times> ledger" where
  "ledger_close_position l u position_value ts reason =
     (case open_positions l u of
        None \<Rightarrow> (Inl NoSuchPosition, l)
      | Some pos \<Rightarrow>
          (Inr (PositionClosed u pos reason ts),
           l\<lparr>open_positions := (open_positions l)(u := None),
             closed_positions := (closed_positions l)(u \<mapsto> pos),
             buying_power := buying_power l + position_value\<rparr>))"

definition ledger_resize_position ::
  "ledger \<Rightarrow> uuid \<Rightarrow> isize \<Rightarrow> usize \<Rightarrow> u64 \<Rightarrow> (broker_result \<times> ledger) run" where
  "ledger_resize_position l u units modification_cost ts = do {
     pos \<leftarrow> open_positions l u;
     let l1 = l\<lparr>open_positions := (open_positions l)(u := None)\<rparr>;
     let unit_diff = units + p_size pos;
     if sint unit_diff < 0 then ret (Inl InvalidModificationAmount, l1)
     else if unit_diff = 0 then
       ret (ledger_close_position l1 u modification_cost ts MarketClose_reason)
     else if buying_power l1 < modification_cost then ret (Inl InsufficientBuyingPower, l1)
     else
       let pos' = pos\<lparr>p_size := p_size pos + units\<rparr>
       in ret (Inr (PositionModified u pos' ts),
               l1\<lparr>buying_power := buying_power l1 - modification_cost,
                  open_positions := (open_positions l1)(u \<mapsto> pos')\<rparr>)
   }"

definition ledger_modify_position ::
  "ledger \<Rightarrow> uuid \<Rightarrow> usize option option \<Rightarrow> usize option option \<Rightarrow> u64 \<Rightarrow> broker_result \<times> ledger" where
  "ledger_modify_position l u sl tp ts =
     (case open_positions l u of
        None \<Rightarrow> (Inl NoSuchPosition, l)
      | Some pos \<Rightarrow>
          let pos1 = (case sl of Some v \<Rightarrow> pos\<lparr>p_stop := v\<rparr> | None \<Rightarrow> pos);
              pos2 = (case tp of Some v \<Rightarrow> pos1\<lparr>p_take_profit := v\<rparr> | None \<Rightarrow> pos1)
          in (Inr (PositionModified u pos2 ts),
              l\<lparr>open_positions := (open_positions l)(u \<mapsto> pos2)\<rparr>))"

section \<open>What a sane position is\<close>

definition opt_le :: "'a::linorder option \<Rightarrow> 'a option \<Rightarrow> bool" where
  "opt_le x y = (case (x, y) of (Some v, Some w) \<Rightarrow> v \<le> w | _ \<Rightarrow> True)"

definition opt_less :: "'a::linorder option \<Rightarrow> 'a option \<Rightarrow> bool" where
  "opt_less x y = (case (x, y) of (Some v, Some w) \<Rightarrow> v < w | _ \<Rightarrow> True)"

text \<open>
  Stop below and take-profit above the price of a long position, the other way round for a
  short one; times come with their prices and are in order.
\<close>

definition sane_position :: "position \<Rightarrow> bool" where
  "sane_position pos \<longleftrightarrow>
     (if p_long pos
      then opt_less (p_stop pos) (p_price pos) \<and> opt_less (p_price pos) (p_take_profit pos)
      else opt_less (p_price pos) (p_stop pos) \<and> opt_less (p_take_profit pos) (p_price pos)) \<and>
     (p_execution_price pos = None \<longleftrightarrow> p_execution_time pos = None) \<and>
     (p_exit_price pos = None \<longleftrightarrow> p_exit_time pos = None) \<and>
     (p_exit_price pos \<noteq> None \<longrightarrow> p_execution_price pos \<noteq> None) \<and>
     opt_le (Some (p_creation_time pos)) (p_execution_time pos) \<and>
     opt_le (p_execution_time pos) (p_exit_time pos)"

lemma check_sanity_total: "\<exists>r. check_sanity pos = Some r"
  by (auto simp: check_sanity_def split: option.splits)

lemma check_sanity_iff: "check_sanity pos = Some (Inr ()) \<longleftrightarrow> sane_position pos"
  by (auto simp: check_sanity_def sane_position_def opt_le_def opt_less_def stop_invalid_def
      take_profit_invalid_def split: option.splits if_splits)

lemma check_sanity_Some:
  "check_sanity pos = Some r \<longleftrightarrow>
     (if sane_position pos then r = Inr () else \<exists>e. r = Inl e \<and> check_sanity pos = Some (Inl e))"
  using check_sanity_total [of pos] check_sanity_iff [of pos]
  by (cases r) auto

section \<open>Opening and closing conditions\<close>

definition pending_wf :: "position \<Rightarrow> bool" where
  "pending_wf pos \<longleftrightarrow> p_price pos \<noteq> None \<and> p_execution_price pos = None \<and>
     p_execution_time pos = None \<and> p_exit_price pos = None \<and> p_exit_time pos = None"

definition open_wf :: "position \<Rightarrow> bool" where
  "open_wf pos \<longleftrightarrow> p_execution_price pos \<noteq> None \<and> p_execution_time pos \<noteq> None \<and>
     p_exit_price pos = None \<and> p_exit_time pos = None"

lemma is_open_satisfied_panic:
  "is_open_satisfied pos b a = None \<longleftrightarrow> p_execution_price pos \<noteq> None \<or> p_price pos = None"
  by (cases "p_price pos"; cases "p_execution_price pos") (auto simp: is_open_satisfied_def)

lemma is_open_satisfied_pending:
  "pending_wf pos \<Longrightarrow> is_open_satisfied pos b a =
     Some (if p_long pos \<and> a \<le> the (p_price pos) then Some a
           else if the (p_price pos) \<le> b then Some b else None)"
  by (auto simp: is_open_satisfied_def pending_wf_def)

lemma is_close_satisfied_panic:
  "is_close_satisfied pos b a = None \<longleftrightarrow> p_execution_price pos = None \<or> p_exit_price pos \<noteq> None"
  by (cases "p_execution_price pos"; cases "p_exit_price pos") (auto simp: is_close_satisfied_def)

text \<open>The levels at which an open position is closed, whatever the reason reported.\<close>

definition stop_hit :: "position \<Rightarrow> usize \<Rightarrow> usize \<Rightarrow> bool" where
  "stop_hit pos b a \<longleftrightarrow>
     (\<exists>st. p_stop pos = Some st \<and> (if p_long pos then b \<le> st else st \<le> a))"

definition take_profit_hit :: "position \<Rightarrow> usize \<Rightarrow> usize \<Rightarrow> bool" where
  "take_profit_hit pos b a \<longleftrightarrow>
     (\<exists>tp. p_take_profit pos = Some tp \<and> (if p_long pos then tp \<le> a else b \<le> tp))"

lemma is_close_satisfied_open:
  "open_wf pos \<Longrightarrow> is_close_satisfied pos b a =
     Some (if stop_hit pos b a
           then Some (if p_long pos then (b, StopLoss) else (a, TakeProfit))
           else if take_profit_hit pos b a
           then Some (if p_long pos then (a, StopLoss) else (b, TakeProfit))
           else None)"
  by (auto simp: is_close_satisfied_def open_wf_def stop_hit_def take_profit_hit_def
      split: option.splits)

section \<open>The ledger's invariant\<close>

text \<open>
  Pending, open and closed positions are kept apart, and each has the data its stage
  needs.
\<close>

definition ledger_wf :: "ledger \<Rightarrow> bool" where
  "ledger_wf l \<longleftrightarrow>
     (\<forall>u p. pending_positions l u = Some p \<longrightarrow>
        pending_wf p \<and> open_positions l u = None \<and> closed_positions l u = None) \<and>
     (\<forall>u p. open_positions l u = Some p \<longrightarrow>
        open_wf p \<and> pending_positions l u = None \<and> closed_positions l u = None)"

definition unused_in :: "uuid \<Rightarrow> ledger \<Rightarrow> bool" where
  "unused_in u l \<longleftrightarrow> pending_positions l u = None \<and> open_positions l u = None \<and>
     closed_positions l u = None"

lemma ledger_wf_pending: "ledger_wf l \<Longrightarrow> pending_positions l u = Some p \<Longrightarrow> pending_wf p"
  unfolding ledger_wf_def by blast

lemma ledger_wf_open: "ledger_wf l \<Longrightarrow> open_positions l u = Some p \<Longrightarrow> open_wf p"
  unfolding ledger_wf_def by blast

lemma ledger_wf_apart:
  "ledger_wf l \<Longrightarrow> pending_positions l u = Some p \<Longrightarrow>
     open_positions l u = None \<and> closed_positions l u = None"
  unfolding ledger_wf_def by blast

lemma ledger_wf_new [wf_intros]: "ledger_wf (ledger_new v)"
  by (simp add: ledger_wf_def ledger_new_def)

lemma ledger_wf_place_order [wf_intros]:
  "ledger_wf l \<Longrightarrow> unused_in u l \<Longrightarrow> pending_wf pos \<Longrightarrow>
     ledger_wf (snd (ledger_place_order l pos v u))"
  by (auto simp: ledger_wf_def ledger_place_order_def unused_in_def)

lemma ledger_wf_modify_order [wf_intros]:
  "ledger_wf l \<Longrightarrow> ledger_wf (snd (ledger_modify_order l u sz p sl tp ts))"
  by (auto simp: ledger_wf_def ledger_modify_order_def Let_def pending_wf_def
      split: option.splits)

lemma ledger_wf_cancel_order [wf_intros]:
  "ledger_wf l \<Longrightarrow> ledger_wf (snd (ledger_cancel_order l u ts))"
  by (auto simp: ledger_wf_def ledger_cancel_order_def split: option.splits)

lemma ledger_wf_open_position [wf_intros]:
  "ledger_wf l \<Longrightarrow> pending_positions l u = None \<Longrightarrow> closed_positions l u = None \<Longrightarrow> open_wf pos \<Longrightarrow>
     ledger_open_position l u pos = Some (r, l') \<Longrightarrow> ledger_wf l'"
  by (auto simp: ledger_wf_def ledger_open_position_def open_wf_def split: if_splits)

lemma ledger_wf_close_position [wf_intros]:
  "ledger_wf l \<Longrightarrow> ledger_wf (snd (ledger_close_position l u v ts r))"
  by (auto simp: ledger_wf_def ledger_close_position_def split: option.splits)

lemma ledger_wf_modify_position [wf_intros]:
  "ledger_wf l \<Longrightarrow> ledger_wf (snd (ledger_modify_position l u sl tp ts))"
  by (auto simp: ledger_wf_def ledger_modify_position_def Let_def open_wf_def
      split: option.splits)

lemma ledger_wf_remove_open:
  "ledger_wf l \<Longrightarrow> ledger_wf (l\<lparr>open_positions := (open_positions l)(u := None)\<rparr>)"
  by (auto simp: ledger_wf_def)

lemma ledger_wf_resize_position [wf_intros]:
  assumes l: "ledger_wf l" and r: "ledger_resize_position l u n c ts = Some (r, l')"
  shows "ledger_wf l'"
proof -
  from r obtain pos where pos: "open_positions l u = Some pos"
    by (auto simp: ledger_resize_position_def bind_Some_iff)
  note l1 = ledger_wf_remove_open [OF l, of u]
  note l2 = ledger_wf_close_position [OF l1, of u c ts MarketClose_reason]
  have l3: "ledger_wf (l\<lparr>buying_power := b,
      open_positions := (open_positions l)(u \<mapsto> pos\<lparr>p_size := sz\<rparr>)\<rparr>)" for sz b
    using l pos by (auto simp: ledger_wf_def open_wf_def)
  from r pos l1 l2 l3 show ?thesis
    by (auto simp: ledger_resize_position_def Let_def split: if_splits)
qed

section \<open>Resizing to zero\<close>

text \<open>
  \<open>resize_position\<close> takes the position out before it looks at the result, so the
  closing branch never finds it: whatever the outcome, only a success puts the position
  back.
\<close>

lemma ledger_resize_to_zero:
  "open_positions l u = Some pos \<Longrightarrow>
     ledger_resize_position l u (- p_size pos) c ts =
       Some (Inl NoSuchPosition, l\<lparr>open_positions := (open_positions l)(u := None)\<rparr>)"
  by (simp add: ledger_resize_position_def ledger_close_position_def Let_def)

lemma ledger_resize_result:
  assumes "ledger_resize_position l u n c ts = Some (r, l')"
  obtains (error) e where "r = Inl e" "l' = l\<lparr>open_positions := (open_positions l)(u := None)\<rparr>"
  | (resized) pos where "open_positions l u = Some pos" "n + p_size pos \<noteq> 0"
      "c \<le> buying_power l" "r = Inr (PositionModified u (pos\<lparr>p_size := p_size pos + n\<rparr>) ts)"
      "l' = l\<lparr>buying_power := buying_power l - c,
              open_positions := (open_positions l)(u \<mapsto> pos\<lparr>p_size := p_size pos + n\<rparr>)\<rparr>"
  using assms
  by (auto simp: ledger_resize_position_def ledger_close_position_def Let_def bind_Some_iff
      not_less split: if_splits)

end
