(* ===== verification/Tg_Text.thy ===== *)
theory Tg_Text
  imports Tg_Prelude
begin

text \<open>
  The parts of Rust's string library the program's text formats rest on: printing an
  unsigned integer in decimal (\<open>Display\<close>), reading one back (\<open>from_str_radix\<close> with
  radix 10 and \<open>str::parse\<close>, which take an optional plus sign and refuse an empty
  string, a foreign character and a value that does not fit), and splitting at a
  separator. A string is a \<open>string\<close>, a list of characters.
\<close>

definition digit_char :: "nat \<Rightarrow> char" where
  "digit_char d = char_of (48 + d)"

definition char_digit :: "char \<Rightarrow> nat option" where
  "char_digit c = (let v = of_char c :: nat in if 48 \<le> v \<and> v < 58 then Some (v - 48) else None)"

fun show_nat :: "nat \<Rightarrow> string" where
  "show_nat n = (if n < 10 then [digit_char n] else show_nat (n div 10) @ [digit_char (n mod 10)])"

declare show_nat.simps [simp del]

definition show_word :: "'a::len word \<Rightarrow> string" where
  "show_word w = show_nat (unat w)"

text \<open>\<open>parse_digits m acc s\<close> reads on from the value \<open>acc\<close>, giving up above \<open>m\<close>.\<close>

fun parse_digits :: "nat \<Rightarrow> nat \<Rightarrow> string \<Rightarrow> nat option" where
  "parse_digits m acc [] = Some acc"
| "parse_digits m acc (c # cs) =
     (case char_digit c of
        None \<Rightarrow> None
      | Some d \<Rightarrow> if acc * 10 + d \<le> m then parse_digits m (acc * 10 + d) cs else None)"

definition parse_nat :: "nat \<Rightarrow> string \<Rightarrow> nat option" where
  "parse_nat m s =
     (let digits = (case s of c # cs \<Rightarrow> if c = CHR ''+'' then cs else s | [] \<Rightarrow> [])
      in if digits = [] then None else parse_digits m 0 digits)"

definition parse_u64 :: "string \<Rightarrow> u64 option" where
  "parse_u64 s = map_option word_of_nat (parse_nat (2 ^ 64 - 1) s)"

definition parse_bool :: "string \<Rightarrow> bool option" where
  "parse_bool s = (if s = ''true'' then Some True else if s = ''false'' then Some False else None)"

definition show_bool :: "bool \<Rightarrow> string" where
  "show_bool b = (if b then ''true'' else ''false'')"

text \<open>\<open>str::split\<close> with a string pattern: matches are found from the left, without overlap.\<close>

fun split_from :: "string \<Rightarrow> string \<Rightarrow> string \<Rightarrow> string list" where
  "split_from sep cur [] = [cur]"
| "split_from sep cur (c # cs) =
     (if take (length sep) (c # cs) = sep
      then cur # split_from sep [] (drop (length sep - 1) cs)
      else split_from sep (cur @ [c]) cs)"

definition split_str :: "string \<Rightarrow> string \<Rightarrow> string list" where
  "split_str sep s = split_from sep [] s"

text \<open>\<open>join\<close> puts a separator between strings.\<close>

fun join_str :: "string \<Rightarrow> string list \<Rightarrow> string" where
  "join_str sep [] = []"
| "join_str sep [x] = x"
| "join_str sep (x # y # xs) = x @ sep @ join_str sep (y # xs)"

section \<open>Printing and reading back\<close>

lemma char_digit_digit_char [simp]: "d < 10 \<Longrightarrow> char_digit (digit_char d) = Some d"
  by (simp add: char_digit_def digit_char_def)

lemma show_nat_ne [simp]: "show_nat n \<noteq> []"
  by (simp add: show_nat.simps)

lemma show_nat_chars: "c \<in> set (show_nat n) \<Longrightarrow> \<exists>d<10. c = digit_char d"
proof (induction n rule: show_nat.induct)
  case (1 n)
  then show ?case
    by (cases "n < 10") (auto simp: show_nat.simps [of n] intro: exI [of _ "n mod 10"])
qed

lemma digit_char_other:
  "d < 10 \<Longrightarrow> c \<in> {CHR ''+'', CHR '','', CHR '' '', CHR 0x0A} \<Longrightarrow> digit_char d \<noteq> c"
  using char_digit_digit_char [of d] by (auto simp: char_digit_def simp del: char_digit_digit_char)

lemma parse_digits_append:
  "parse_digits m a (xs @ ys) = Option.bind (parse_digits m a xs) (\<lambda>b. parse_digits m b ys)"
  by (induction xs arbitrary: a) (auto split: option.splits)

lemma parse_digits_show: "n \<le> m \<Longrightarrow> parse_digits m 0 (show_nat n) = Some n"
proof (induction n rule: show_nat.induct)
  case (1 n)
  show ?case
  proof (cases "n < 10")
    case True
    with 1 show ?thesis by (simp add: show_nat.simps [of n])
  next
    case False
    with 1 have "parse_digits m 0 (show_nat (n div 10)) = Some (n div 10)" by simp
    moreover have "n div 10 * 10 + n mod 10 = n" by simp
    ultimately show ?thesis
      using False 1 by (simp add: show_nat.simps [of n] parse_digits_append)
  qed
qed

lemma parse_nat_show:
  assumes "n \<le> m"
  shows "parse_nat m (show_nat n) = Some n"
proof -
  obtain c cs where s: "show_nat n = c # cs" by (cases "show_nat n") auto
  then obtain d where "d < 10" "c = digit_char d" using show_nat_chars [of c n] by auto
  then have "c \<noteq> CHR ''+''" using digit_char_other [of d "CHR ''+''"] by simp
  with s assms parse_digits_show [of n m] show ?thesis by (simp add: parse_nat_def)
qed

lemma parse_u64_show [simp]: "parse_u64 (show_word (w :: u64)) = Some w"
proof -
  have "unat w \<le> 2 ^ 64 - 1" using unsigned_less [of w, where ?'a = nat] by simp
  then show ?thesis by (simp add: parse_u64_def show_word_def parse_nat_show)
qed

lemma show_nat_inj: "show_nat m = show_nat n \<longleftrightarrow> m = n"
  by (metis max.cobounded1 max.cobounded2 option.inject parse_nat_show)

lemma inj_show_word: "inj (show_word :: 'a::len word \<Rightarrow> string)"
  by (rule injI) (simp add: show_word_def show_nat_inj word_unat_eq_iff)

lemma parse_bool_show [simp]: "parse_bool (show_bool b) = Some b"
  by (simp add: parse_bool_def show_bool_def)

lemma parse_nat_bound: "parse_digits m a s = Some n \<Longrightarrow> a \<le> m \<Longrightarrow> n \<le> m"
  by (induction m a s rule: parse_digits.induct) (auto split: option.splits if_splits)

text \<open>A separator whose first character does not occur in a field ends that field.\<close>

lemma split_from_field:
  "s \<notin> set xs \<Longrightarrow>
    split_from (s # sep) cur (xs @ (s # sep) @ ys) = (cur @ xs) # split_from (s # sep) [] ys"
  by (induction xs arbitrary: cur) auto

lemma split_from_last:
  "s \<notin> set xs \<Longrightarrow> split_from (s # sep) cur xs = [cur @ xs]"
  by (induction xs arbitrary: cur) auto

lemma digit_not_in_show:
  "c \<in> {CHR ''+'', CHR '','', CHR '' '', CHR 0x0A} \<Longrightarrow> c \<notin> set (show_word w)"
proof
  assume c: "c \<in> {CHR ''+'', CHR '','', CHR '' '', CHR 0x0A}" and "c \<in> set (show_word w)"
  then obtain d where "d < 10" "c = digit_char d"
    using show_nat_chars [of c "unat w"] by (auto simp: show_word_def)
  with digit_char_other [OF this(1) c] show False by simp
qed

end
