(* ===== verification/Tg_Ticks.thy ===== *)
theory Tg_Ticks
  imports Tg_Text
begin

text \<open>
  The ticks of \<open>util/src/trading/tick.rs\<close>: the tick itself, the tick with its symbol's
  name, the derived prices, the database statements and the CSV row with its parser.
  The JSON form is serde's and a parameter; printing and reading it are unwrapped.
\<close>

record tick =
  t_bid :: usize
  t_ask :: usize
  t_timestamp :: u64

record symbol_tick =
  st_bid :: usize
  st_ask :: usize
  st_timestamp :: u64
  st_symbol :: string

text \<open>
  A row of the database holds the time, the bid and the ask as signed integers, which are
  read as unsigned ones.
\<close>

type_synonym db_row = "64 word \<times> 64 word \<times> 64 word"

definition tick_null :: tick where
  "tick_null = \<lparr>t_bid = 0, t_ask = 0, t_timestamp = 0\<rparr>"

definition to_csv_row :: "tick \<Rightarrow> string" where
  "to_csv_row t = show_word (t_timestamp t) @ '', '' @ show_word (t_bid t) @ '', '' @
     show_word (t_ask t) @ [CHR 0x0A]"

definition spread :: "tick \<Rightarrow> usize" where
  "spread t = t_bid t - t_ask t"

definition mid :: "tick \<Rightarrow> usize" where
  "mid t = (t_bid t + t_ask t) div 2"

definition store_query :: "tick \<Rightarrow> string \<Rightarrow> string" where
  "store_query t symbol = ''INSERT INTO ticks_'' @ symbol @ '' (tick_time, bid, ask) VALUES ('' @
     show_word (t_timestamp t) @ '', '' @ show_word (t_bid t) @ '', '' @ show_word (t_ask t) @ '');''"

definition store_table_query :: "tick \<Rightarrow> string \<Rightarrow> string" where
  "store_table_query t table = ''INSERT INTO '' @ table @ '' (tick_time, bid, ask) VALUES ('' @
     show_word (t_timestamp t) @ '', '' @ show_word (t_bid t) @ '', '' @ show_word (t_ask t) @ '');''"

definition from_symboltick :: "symbol_tick \<Rightarrow> tick" where
  "from_symboltick st = \<lparr>t_bid = st_bid st, t_ask = st_ask st, t_timestamp = st_timestamp st\<rparr>"

definition symboltick_from_tick :: "tick \<Rightarrow> string \<Rightarrow> symbol_tick" where
  "symboltick_from_tick t symbol =
     \<lparr>st_bid = t_bid t, st_ask = t_ask t, st_timestamp = t_timestamp t, st_symbol = symbol\<rparr>"

definition tick_from_json_string :: "(string \<Rightarrow> 'e + tick) \<Rightarrow> string \<Rightarrow> tick run" where
  "tick_from_json_string from_json s = (case from_json s of Inl err \<Rightarrow> panic | Inr t \<Rightarrow> ret t)"

definition tick_to_json_string :: "(symbol_tick \<Rightarrow> 'e + string) \<Rightarrow> tick \<Rightarrow> string \<Rightarrow> string run" where
  "tick_to_json_string to_json t symbol =
     (case to_json (symboltick_from_tick t symbol) of Inl err \<Rightarrow> panic | Inr s \<Rightarrow> ret s)"

definition symboltick_from_json_string :: "(string \<Rightarrow> 'e + symbol_tick) \<Rightarrow> string \<Rightarrow> symbol_tick run" where
  "symboltick_from_json_string from_json s = (case from_json s of Inl err \<Rightarrow> panic | Inr t \<Rightarrow> ret t)"

definition from_csv_string :: "string \<Rightarrow> tick run" where
  "from_csv_string s = do {
     let spl = split_str '', '' s;
     f0 \<leftarrow> vec_get spl 0;
     timestamp \<leftarrow> parse_u64 f0;
     f1 \<leftarrow> vec_get spl 1;
     bid \<leftarrow> parse_u64 f1;
     f2 \<leftarrow> vec_get spl 2;
     line \<leftarrow> vec_get (split_str [CHR 0x0A] f2) 0;
     ask \<leftarrow> parse_u64 line;
     ret \<lparr>t_bid = bid, t_ask = ask, t_timestamp = timestamp\<rparr>
   }"

lemma split_row:
  "split_str '', '' (to_csv_row t) =
     [show_word (t_timestamp t), show_word (t_bid t), show_word (t_ask t) @ [CHR 0x0A]]"
proof -
  note f = split_from_field [of "CHR '',''" _ "'' ''", simplified]
  note g = split_from_last [of "CHR '',''" _ "'' ''"]
  show ?thesis
    unfolding split_str_def to_csv_row_def
    by (simp add: f g digit_not_in_show)
qed

text \<open>
  The mean of bid and ask lies between them as long as their sum fits a machine word; the
  spread is the usual difference only for an inverted market.
\<close>

lemma mid_between:
  assumes "unat (t_bid t) + unat (t_ask t) < 2 ^ 64"
  shows "unat (mid t) = (unat (t_bid t) + unat (t_ask t)) div 2"
proof -
  have "unat (t_bid t + t_ask t) = unat (t_bid t) + unat (t_ask t)"
    using assms by (subst unat_add_lem [symmetric]) simp
  then show ?thesis by (simp add: mid_def unat_div)
qed

lemma spread_wraps:
  assumes "t_bid t < t_ask t"
  shows "unat (spread t) = 2 ^ 64 - (unat (t_ask t) - unat (t_bid t))"
proof -
  have lt: "unat (t_bid t) < unat (t_ask t)" using assms by (simp add: word_less_nat_alt)
  have "unat (spread t) = (unat (t_bid t) + 2 ^ 64 - unat (t_ask t)) mod 2 ^ 64"
    using lt unfolding spread_def by (simp add: unat_sub_if' word_le_nat_alt)
  also have "\<dots> = 2 ^ 64 - (unat (t_ask t) - unat (t_bid t))"
    using lt unsigned_less [of "t_ask t", where ?'a = nat] by simp
  finally show ?thesis .
qed

lemma symboltick_roundtrip: "from_symboltick (symboltick_from_tick t s) = t"
  by (simp add: from_symboltick_def symboltick_from_tick_def)

section \<open>Lines of a file\<close>

text \<open>
  \<open>BufRead::lines\<close>: the lines without their newline and a carriage return before it; a
  last line without a newline counts when it is not empty.
\<close>

definition strip_cr :: "string \<Rightarrow> string" where
  "strip_cr l = (if l \<noteq> [] \<and> last l = CHR 0x0D then butlast l else l)"

fun lines_from :: "string \<Rightarrow> string \<Rightarrow> string list" where
  "lines_from cur [] = (if cur = [] then [] else [cur])"
| "lines_from cur (c # cs) =
     (if c = CHR 0x0A then strip_cr cur # lines_from [] cs else lines_from (cur @ [c]) cs)"

definition file_lines :: "string \<Rightarrow> string list" where
  "file_lines s = lines_from [] s"

lemma lines_from_line:
  "CHR 0x0A \<notin> set l \<Longrightarrow> lines_from cur (l @ CHR 0x0A # s) = strip_cr (cur @ l) # lines_from [] s"
  by (induction l arbitrary: cur) auto

definition csv_line :: "tick \<Rightarrow> string" where
  "csv_line t = show_word (t_timestamp t) @ '', '' @ show_word (t_bid t) @ '', '' @ show_word (t_ask t)"

lemma to_csv_row_line: "to_csv_row t = csv_line t @ [CHR 0x0A]"
  by (simp add: to_csv_row_def csv_line_def)

lemma no_cr_in_show: "CHR 0x0D \<notin> set (show_word w)"
proof
  assume "CHR 0x0D \<in> set (show_word w)"
  then obtain d where "d < 10" and d: "digit_char d = CHR 0x0D"
    using show_nat_chars [of "CHR 0x0D" "unat w"] by (force simp: show_word_def)
  then show False
    using char_digit_digit_char [of d] unfolding d by (simp add: char_digit_def)
qed

lemma strip_csv_line [simp]: "strip_cr (csv_line t) = csv_line t"
proof -
  have "last (csv_line t) = last (show_word (t_ask t))"
    by (simp add: csv_line_def show_word_def)
  moreover have "last (show_word (t_ask t)) \<in> set (show_word (t_ask t))"
    by (simp add: show_word_def)
  ultimately have "last (csv_line t) \<noteq> CHR 0x0D" using no_cr_in_show [of "t_ask t"] by metis
  then show ?thesis by (simp add: strip_cr_def)
qed

lemma csv_line_newline: "CHR 0x0A \<notin> set (csv_line t)"
  by (simp add: csv_line_def digit_not_in_show)

lemma file_lines_rows: "file_lines (concat (map to_csv_row ts)) = map csv_line ts"
proof (induction ts)
  case (Cons t ts)
  then show ?case
    using lines_from_line [OF csv_line_newline, of "[]" t]
    by (simp add: file_lines_def to_csv_row_line)
qed (simp add: file_lines_def)

lemma split_csv_line:
  "split_str '', '' (csv_line t) =
     [show_word (t_timestamp t), show_word (t_bid t), show_word (t_ask t)]"
proof -
  note f = split_from_field [of "CHR '',''" _ "'' ''", simplified]
  note g = split_from_last [of "CHR '',''" _ "'' ''"]
  show ?thesis
    unfolding split_str_def csv_line_def by (simp add: f g digit_not_in_show)
qed

lemma split_no_newline:
  "CHR 0x0A \<notin> set xs \<Longrightarrow> split_str [CHR 0x0A] xs = [xs]"
  by (simp add: split_str_def split_from_last)

lemma split_newline_end:
  "CHR 0x0A \<notin> set xs \<Longrightarrow> split_str [CHR 0x0A] (xs @ [CHR 0x0A]) = [xs, []]"
  using split_from_field [of "CHR 0x0A" xs "[]" "[]" "[]"] by (simp add: split_str_def)

lemma from_csv_line: "from_csv_string (csv_line t) = Some t"
  by (simp add: from_csv_string_def split_csv_line split_no_newline digit_not_in_show)

lemma from_csv_row: "from_csv_string (to_csv_row t) = Some t"
  by (simp add: from_csv_string_def split_row split_newline_end digit_not_in_show)

end
