(* ===== verification/Tg_SimHelpers.thy ===== *)
theory Tg_SimHelpers
  imports Tg_Heap Tg_Objects Tg_Ticks
begin

text \<open>
  The helper objects of the simulated broker (\<open>broker_shims/simbroker/src/helpers.rs\<close>):
  its settings and how they are read from a map of strings (with the code the
  \<open>FromHashmap\<close> derivation of \<open>util/from_hashmap\<close> generates), the units of work and
  the queue that orders them, the symbols with their streams of ticks, the cache of
  positions, and the arithmetic helpers.

  A stream of ticks turned into a blocking iterator may be endless, so it is a
  codatatype; an item is a tick or the error of the stream. The one-shot handle through
  which a response is delivered is a number, two handles being equal only if they are the
  same. Logging has no effect on the state and is left out.
\<close>

section \<open>Settings\<close>

record sim_settings =
  starting_balance :: usize
  ping_ns :: u64
  execution_delay_ns :: u64
  leverage :: usize
  tickstreams :: string
  fx :: bool
  fx_base_currency :: string
  fx_lot_size :: usize
  fx_accurate_pricing :: bool

text \<open>The default list of tick streams is printed by serde and is a parameter.\<close>

definition settings_default :: "string \<Rightarrow> sim_settings" where
  "settings_default streams =
     \<lparr>starting_balance = 50 * 1000 * 100, ping_ns = 0, execution_delay_ns = 0, leverage = 50,
      tickstreams = streams, fx = True, fx_base_currency = ''USD'', fx_lot_size = 1000,
      fx_accurate_pricing = False\<rparr>"

definition set_field ::
  "(string \<rightharpoonup> string) \<Rightarrow> string \<Rightarrow> (string \<Rightarrow> 'a option) \<Rightarrow> ('a \<Rightarrow> 's \<Rightarrow> 's) \<Rightarrow> 's \<Rightarrow> 's run" where
  "set_field hm key parse put s =
     (case hm key of None \<Rightarrow> ret s | Some v \<Rightarrow> do { x \<leftarrow> parse v; ret (put x s) })"

definition settings_from_hashmap :: "string \<Rightarrow> (string \<rightharpoonup> string) \<Rightarrow> sim_settings run" where
  "settings_from_hashmap streams hm = do {
     s \<leftarrow> set_field hm ''starting_balance'' parse_u64 (\<lambda>v s. s\<lparr>starting_balance := v\<rparr>)
            (settings_default streams);
     s \<leftarrow> set_field hm ''ping_ns'' parse_u64 (\<lambda>v s. s\<lparr>ping_ns := v\<rparr>) s;
     s \<leftarrow> set_field hm ''execution_delay_ns'' parse_u64 (\<lambda>v s. s\<lparr>execution_delay_ns := v\<rparr>) s;
     s \<leftarrow> set_field hm ''leverage'' parse_u64 (\<lambda>v s. s\<lparr>leverage := v\<rparr>) s;
     s \<leftarrow> set_field hm ''tickstreams'' Some (\<lambda>v s. s\<lparr>tickstreams := v\<rparr>) s;
     s \<leftarrow> set_field hm ''fx'' parse_bool (\<lambda>v s. s\<lparr>fx := v\<rparr>) s;
     s \<leftarrow> set_field hm ''fx_base_currency'' Some (\<lambda>v s. s\<lparr>fx_base_currency := v\<rparr>) s;
     s \<leftarrow> set_field hm ''fx_lot_size'' parse_u64 (\<lambda>v s. s\<lparr>fx_lot_size := v\<rparr>) s;
     set_field hm ''fx_accurate_pricing'' parse_bool (\<lambda>v s. s\<lparr>fx_accurate_pricing := v\<rparr>) s
   }"

definition get_delay :: "sim_settings \<Rightarrow> broker_action \<Rightarrow> u64" where
  "get_delay s action = execution_delay_ns s"

section \<open>Work units\<close>

type_synonym completion = nat

datatype tick_output =
    TickOut nat tick
  | Pushstream u64 broker_result

record pending_action =
  pa_future :: completion
  pa_action :: broker_action

definition pending_action_eq :: "pending_action \<Rightarrow> pending_action \<Rightarrow> bool" where
  "pending_action_eq a b \<longleftrightarrow> pa_action a = pa_action b"

datatype work_unit =
    NewTick nat tick
  | ClientTick nat tick
  | ActionComplete completion broker_action
  | Response completion broker_result
  | Notification broker_result

fun work_unit_eq :: "work_unit \<Rightarrow> work_unit \<Rightarrow> bool" where
  "work_unit_eq (NewTick i s) (NewTick j t) = (i = j \<and> s = t)"
| "work_unit_eq (ClientTick i s) (ClientTick j t) = (i = j \<and> s = t)"
| "work_unit_eq (ActionComplete _ a) (ActionComplete _ b) = (a = b)"
| "work_unit_eq (Response _ a) (Response _ b) = (a = b)"
| "work_unit_eq (Notification a) (Notification b) = (a = b)"
| "work_unit_eq _ _ = False"

record queue_item =
  qi_timestamp :: u64
  qi_unit :: work_unit

type_synonym sim_queue = "queue_item list"

text \<open>The order of the heap is the opposite of the order of the timestamps.\<close>

datatype ordering = Less | Equal | Greater

definition u64_cmp :: "u64 \<Rightarrow> u64 \<Rightarrow> ordering" where
  "u64_cmp a b = (if a < b then Less else if a = b then Equal else Greater)"

definition queue_item_cmp :: "queue_item \<Rightarrow> queue_item \<Rightarrow> ordering" where
  "queue_item_cmp a b = u64_cmp (qi_timestamp b) (qi_timestamp a)"

section \<open>Symbols\<close>

codatatype (iter_items: 'a) iter = Done | Yield 'a "'a iter"

fun iter_of_list :: "'a list \<Rightarrow> 'a iter" where
  "iter_of_list [] = Done"
| "iter_of_list (x # xs) = Yield x (iter_of_list xs)"

record symbol =
  sy_name :: string
  sy_input_iter :: "(unit + tick) iter option"
  sy_client_sender :: "tick list option"  \<comment> \<open>the ticks sent so far\<close>
  sy_client_receiver :: bool
  sy_is_fx :: bool
  sy_decimal_precision :: nat
  sy_price :: "usize \<times> usize"
  sy_next_tick :: "tick option"

definition new_oneshot :: "usize \<times> usize \<Rightarrow> bool \<Rightarrow> nat \<Rightarrow> string \<Rightarrow> symbol" where
  "new_oneshot price is_fx decimals name =
     \<lparr>sy_name = name, sy_input_iter = None, sy_client_sender = None, sy_client_receiver = False,
      sy_is_fx = is_fx, sy_decimal_precision = decimals, sy_price = price, sy_next_tick = None\<rparr>"

definition iter_next :: "'a iter \<Rightarrow> 'a option \<times> 'a iter" where
  "iter_next it = (case it of Done \<Rightarrow> (None, Done) | Yield x r \<Rightarrow> (Some x, r))"

text \<open>Unwrapping the \<open>Result\<close> an iterator yields.\<close>

definition unwrap_ok :: "'e + 'a \<Rightarrow> 'a run" where
  "unwrap_ok r = (case r of Inl e \<Rightarrow> panic | Inr x \<Rightarrow> ret x)"

definition new_from_stream :: "(unit + tick) iter \<Rightarrow> bool \<Rightarrow> nat \<Rightarrow> string \<Rightarrow> symbol run" where
  "new_from_stream stream is_fx decimals name = do {
     let (item, it) = iter_next stream;
     r \<leftarrow> item;
     future_tick \<leftarrow> unwrap_ok r;
     ret \<lparr>sy_name = name, sy_input_iter = Some it, sy_client_sender = Some [],
          sy_client_receiver = True, sy_is_fx = is_fx, sy_decimal_precision = decimals,
          sy_price = (0, 0), sy_next_tick = Some future_tick\<rparr>
   }"

definition send_client :: "tick \<Rightarrow> symbol \<Rightarrow> symbol run" where
  "send_client t s = do {
     sent \<leftarrow> sy_client_sender s;
     ret (s\<lparr>sy_client_sender := Some (sent @ [t])\<rparr>)
   }"

definition symbol_get_price :: "symbol \<Rightarrow> usize \<times> usize \<times> nat" where
  "symbol_get_price s = (fst (sy_price s), snd (sy_price s), sy_decimal_precision s)"

definition symbol_next :: "symbol \<Rightarrow> ((unit + tick) option \<times> symbol) run" where
  "symbol_next s = do {
     it \<leftarrow> sy_input_iter s;
     let (item, it') = iter_next it;
     ret (item, s\<lparr>sy_input_iter := Some it'\<rparr>)
   }"

record symbols =
  sy_data :: "symbol list"
  sy_hm :: "string \<rightharpoonup> nat"

definition symbols_new :: symbols where
  "symbols_new = \<lparr>sy_data = [], sy_hm = Map.empty\<rparr>"

definition symbols_ix :: "symbols \<Rightarrow> nat \<Rightarrow> symbol run" where
  "symbols_ix ss i = vec_get (sy_data ss) i"

definition symbols_set :: "symbols \<Rightarrow> nat \<Rightarrow> symbol \<Rightarrow> symbols run" where
  "symbols_set ss i s = do {
     d \<leftarrow> vec_set (sy_data ss) i s;
     ret (ss\<lparr>sy_data := d\<rparr>)
   }"

definition symbols_named :: "symbols \<Rightarrow> string \<Rightarrow> symbol run" where
  "symbols_named ss name = do { i \<leftarrow> sy_hm ss name; vec_get (sy_data ss) i }"

definition symbols_set_named :: "symbols \<Rightarrow> string \<Rightarrow> symbol \<Rightarrow> symbols run" where
  "symbols_set_named ss name s = do { i \<leftarrow> sy_hm ss name; symbols_set ss i s }"

definition get_index :: "symbols \<Rightarrow> string \<Rightarrow> nat option" where
  "get_index ss name = sy_hm ss name"

definition symbols_contains :: "symbols \<Rightarrow> string \<Rightarrow> bool" where
  "symbols_contains ss name \<longleftrightarrow> sy_hm ss name \<noteq> None"

definition symbols_len :: "symbols \<Rightarrow> nat" where
  "symbols_len ss = length (sy_data ss)"

definition symbols_add :: "symbols \<Rightarrow> string \<Rightarrow> symbol \<Rightarrow> broker_result \<times> symbols" where
  "symbols_add ss name s =
     (if symbols_contains ss name
      then (Inl (Message ''A tickstream already exists for that symbol!''), ss)
      else let d = sy_data ss @ [s]; ix = length d - 1
           in (Inr Success, ss\<lparr>sy_data := d, sy_hm := (sy_hm ss)(name \<mapsto> ix)\<rparr>))"

text \<open>\<open>next_tick\<close>: the loop over the symbols after the first, then the step of the stream.\<close>

fun min_tick_from :: "nat \<Rightarrow> nat \<times> tick option \<Rightarrow> symbol list \<Rightarrow> nat \<times> tick option" where
  "min_tick_from i (mindex, mtick) [] = (mindex, mtick)"
| "min_tick_from i (mindex, mtick) (s # ss) =
     min_tick_from (Suc i)
       (case sy_next_tick s of
          None \<Rightarrow> (mindex, mtick)
        | Some t \<Rightarrow>
            if (case mtick of None \<Rightarrow> True | Some m \<Rightarrow> t_timestamp m > t_timestamp t)
            then (i, Some t) else (mindex, mtick)) ss"

definition next_tick :: "symbols \<Rightarrow> ((nat \<times> tick) option \<times> symbols) run" where
  "next_tick ss = do {
     s0 \<leftarrow> symbols_ix ss 0;
     let (mindex, mtick) = min_tick_from 1 (0, sy_next_tick s0) (tl (sy_data ss));
     sm \<leftarrow> symbols_ix ss mindex;
     (item, sm') \<leftarrow> symbol_next sm;
     future \<leftarrow> (case item of None \<Rightarrow> ret None | Some r \<Rightarrow> do { t \<leftarrow> unwrap_ok r; ret (Some t) });
     ss' \<leftarrow> symbols_set ss mindex (sm'\<lparr>sy_next_tick := future\<rparr>);
     ret (map_option (\<lambda>t. (mindex, t)) mtick, ss')
   }"

section \<open>The queue\<close>

definition sq_push :: "queue_item \<Rightarrow> sim_queue \<Rightarrow> sim_queue" where
  "sq_push item q = heap_push qi_timestamp item q"

definition sq_pop :: "sim_queue \<Rightarrow> (queue_item \<times> sim_queue) option" where
  "sq_pop q = heap_pop qi_timestamp q"

fun sq_init_loop :: "nat \<Rightarrow> sim_queue \<Rightarrow> symbols \<Rightarrow> (sim_queue \<times> symbols) run" where
  "sq_init_loop 0 q ss = ret (q, ss)"
| "sq_init_loop (Suc n) q ss = do {
     (opt, ss') \<leftarrow> next_tick ss;
     (ix, t) \<leftarrow> opt;
     sq_init_loop n (sq_push \<lparr>qi_timestamp = t_timestamp t, qi_unit = NewTick ix t\<rparr> q) ss'
   }"

definition sq_init :: "sim_queue \<Rightarrow> symbols \<Rightarrow> (sim_queue \<times> symbols) run" where
  "sq_init q ss = sq_init_loop (symbols_len ss) q ss"

definition push_next_tick :: "sim_queue \<Rightarrow> symbols \<Rightarrow> (sim_queue \<times> symbols) run" where
  "push_next_tick q ss = do {
     (opt, ss') \<leftarrow> next_tick ss;
     ret (case opt of
            Some (ix, t) \<Rightarrow> (sq_push \<lparr>qi_timestamp = t_timestamp t, qi_unit = NewTick ix t\<rparr> q, ss')
          | None \<Rightarrow> (q, ss'))
   }"

section \<open>The cache of positions\<close>

record cached_position =
  cp_uuid :: uuid
  cp_acct :: uuid
  cp_pos :: position

record positions =
  pending_cache :: "cached_position list"
  open_cache :: "cached_position list"

definition positions_new :: positions where
  "positions_new = \<lparr>pending_cache = [], open_cache = []\<rparr>"

record accounts =
  acc_data :: "(uuid, account) hash_map"
  acc_positions :: "positions list"

definition accounts_new :: accounts where
  "accounts_new = \<lparr>acc_data = hm_new, acc_positions = []\<rparr>"

definition add_symbol :: "accounts \<Rightarrow> accounts" where
  "add_symbol a = a\<lparr>acc_positions := acc_positions a @ [positions_new]\<rparr>"

definition accounts_insert :: "uuid \<Rightarrow> account \<Rightarrow> accounts \<Rightarrow> accounts" where
  "accounts_insert k v a = a\<lparr>acc_data := hm_insert k v (acc_data a)\<rparr>"

definition accounts_get :: "accounts \<Rightarrow> uuid \<Rightarrow> account option" where
  "accounts_get a k = hm_get (acc_data a) k"

text \<open>Access to the cache of one symbol; the index may be out of range.\<close>

definition with_positions :: "nat \<Rightarrow> (positions \<Rightarrow> positions run) \<Rightarrow> accounts \<Rightarrow> accounts run" where
  "with_positions ix f a = do {
     ps \<leftarrow> vec_get (acc_positions a) ix;
     ps' \<leftarrow> f ps;
     ret (a\<lparr>acc_positions := (acc_positions a)[ix := ps']\<rparr>)
   }"

definition order_placed :: "position \<Rightarrow> uuid \<Rightarrow> uuid \<Rightarrow> accounts \<Rightarrow> accounts run" where
  "order_placed order order_uuid account_uuid a =
     with_positions (p_symbol_id order)
       (\<lambda>ps. ret (ps\<lparr>pending_cache := pending_cache ps @
          [\<lparr>cp_uuid = order_uuid, cp_acct = account_uuid, cp_pos = order\<rparr>]\<rparr>)) a"

definition update_cached :: "uuid \<Rightarrow> position \<Rightarrow> cached_position list \<Rightarrow> cached_position list" where
  "update_cached u pos = map (\<lambda>c. if cp_uuid c = u then c\<lparr>cp_pos := pos\<rparr> else c)"

definition order_modified :: "position \<Rightarrow> uuid \<Rightarrow> accounts \<Rightarrow> accounts run" where
  "order_modified updated_order u a =
     with_positions (p_symbol_id updated_order)
       (\<lambda>ps. ret (ps\<lparr>pending_cache := update_cached u updated_order (pending_cache ps)\<rparr>)) a"

text \<open>The search for the first entry with an uuid; it panics when there is none.\<close>

fun take_cached :: "uuid \<Rightarrow> cached_position list \<Rightarrow> (cached_position \<times> cached_position list) run" where
  "take_cached u [] = panic"
| "take_cached u (c # cs) =
     (if cp_uuid c = u then ret (c, cs) else do { (d, ds) \<leftarrow> take_cached u cs; ret (d, c # ds) })"

definition order_cancelled :: "uuid \<Rightarrow> nat \<Rightarrow> accounts \<Rightarrow> accounts run" where
  "order_cancelled u symbol_ix a =
     with_positions symbol_ix
       (\<lambda>ps. do { (_, cs) \<leftarrow> take_cached u (pending_cache ps); ret (ps\<lparr>pending_cache := cs\<rparr>) }) a"

definition position_opened :: "position \<Rightarrow> uuid \<Rightarrow> accounts \<Rightarrow> accounts run" where
  "position_opened pos u a = do {
     require (p_execution_time pos \<noteq> None);
     require (p_execution_price pos \<noteq> None);
     with_positions (p_symbol_id pos)
       (\<lambda>ps. do {
          (c, cs) \<leftarrow> take_cached u (pending_cache ps);
          ret (ps\<lparr>pending_cache := cs,
                  open_cache := open_cache ps @ [c\<lparr>cp_pos := pos, cp_uuid := u\<rparr>]\<rparr>)
        }) a
   }"

definition position_opened_immediate :: "position \<Rightarrow> uuid \<Rightarrow> uuid \<Rightarrow> accounts \<Rightarrow> accounts run" where
  "position_opened_immediate pos u account_uuid a = do {
     require (p_execution_time pos \<noteq> None);
     require (p_execution_price pos \<noteq> None);
     with_positions (p_symbol_id pos)
       (\<lambda>ps. ret (ps\<lparr>open_cache := open_cache ps @
          [\<lparr>cp_uuid = u, cp_acct = account_uuid, cp_pos = pos\<rparr>]\<rparr>)) a
   }"

definition position_modified :: "position \<Rightarrow> uuid \<Rightarrow> accounts \<Rightarrow> accounts run" where
  "position_modified updated_pos u a =
     with_positions (p_symbol_id updated_pos)
       (\<lambda>ps. ret (ps\<lparr>open_cache := update_cached u updated_pos (open_cache ps)\<rparr>)) a"

definition position_closed :: "position \<Rightarrow> uuid \<Rightarrow> accounts \<Rightarrow> accounts run" where
  "position_closed pos u a =
     with_positions (p_symbol_id pos)
       (\<lambda>ps. do { (_, cs) \<leftarrow> take_cached u (open_cache ps); ret (ps\<lparr>open_cache := cs\<rparr>) }) a"

section \<open>Arithmetic helpers\<close>

text \<open>\<open>10usize.pow\<close> wraps, and a power that wraps to zero makes the division panic.\<close>

definition pow10 :: "nat \<Rightarrow> usize" where
  "pow10 k = 10 ^ (k mod 2 ^ 32)"

definition convert_decimals :: "usize \<Rightarrow> nat \<Rightarrow> nat \<Rightarrow> usize run" where
  "convert_decimals in_price in_decimals out_decimals =
     (if in_decimals > out_decimals then do {
        let d = pow10 (in_decimals - out_decimals);
        require (d \<noteq> 0);
        ret (in_price div d)
      }
      else if out_decimals > in_decimals then
        ret (in_price * pow10 (out_decimals - in_decimals))
      else ret in_price)"

text \<open>
  \<open>rand_int_range\<close> is the binding to the C++ generator: from a generator state, a lower and
  an upper bound to a number and the next state.
\<close>

type_synonym 'g rng = "'g \<Rightarrow> 32 word \<Rightarrow> 32 word \<Rightarrow> u32 \<times> 'g"

definition rand_byte :: "'g rng \<Rightarrow> 'g \<Rightarrow> u8 \<times> 'g" where
  "rand_byte rand_int_range g = (let (v, g') = rand_int_range g 0 255 in (ucast v, g'))"

fun rand_bytes :: "'g rng \<Rightarrow> nat \<Rightarrow> 'g \<Rightarrow> u8 list \<times> 'g" where
  "rand_bytes r 0 g = ([], g)"
| "rand_bytes r (Suc n) g =
     (let (b, g') = rand_byte r g; (bs, g'') = rand_bytes r n g' in (b # bs, g''))"

definition gen_uuid :: "'g rng \<Rightarrow> 'g \<Rightarrow> uuid \<times> 'g" where
  "gen_uuid r g = (let (bytes, g') = rand_bytes r 16 g in (word_rcat bytes, g'))"

end
