(* ===== verification/Tg_SimBroker.thy ===== *)
theory Tg_SimBroker
  imports Tg_SimHelpers
begin

text \<open>
  The simulated broker's state and the operations a client's action runs through
  (\<open>broker_shims/simbroker/src/lib.rs\<close>): from \<open>exec_action\<close> to the accounts, the
  ledgers, the cache and the queue. An operation returns its result and the next state, or
  panics. The generator of random numbers is the parameter \<open>rand_int_range\<close>.
\<close>

record 'g sim_broker =
  sb_accounts :: accounts
  sb_settings :: sim_settings
  sb_symbols :: symbols
  sb_pq :: sim_queue
  sb_timestamp :: u64
  sb_client_rx :: "(broker_action \<times> completion) list"
  sb_prng :: 'g
  sb_completed :: "(completion \<times> broker_result) list"

type_synonym 'g broker_step = "'g sim_broker \<Rightarrow> (broker_result \<times> 'g sim_broker) run"

section \<open>Prices and values\<close>

text \<open>The exclamation mark binds tighter than the comparison and complements the length.\<close>

definition get_price :: "'g sim_broker \<Rightarrow> nat \<Rightarrow> (usize \<times> usize) option run" where
  "get_price sim ix =
     (if not (word_of_nat (symbols_len (sb_symbols sim)) :: usize) > word_of_nat ix
      then do { s \<leftarrow> symbols_ix (sb_symbols sim) ix; ret (Some (sy_price s)) }
      else ret None)"

definition get_base_rate :: "'g sim_broker \<Rightarrow> string \<Rightarrow> nat \<Rightarrow> (broker_error + usize) run" where
  "get_base_rate sim currency desired_decimals =
     (if \<not> fx (sb_settings sim)
      then ret (Inl (Message ''Can only convert to base rate when in FX mode.''))
      else
        let base_currency = fx_base_currency (sb_settings sim);
            base_pair = currency @ base_currency;
            base_pair_reverse = base_currency @ currency
        in if symbols_contains (sb_symbols sim) base_pair then do {
             s \<leftarrow> symbols_named (sb_symbols sim) base_pair;
             let (_, ask, decimals) = symbol_get_price s;
             v \<leftarrow> convert_decimals ask decimals desired_decimals;
             ret (Inr v)
           }
           else if symbols_contains (sb_symbols sim) base_pair_reverse then do {
             s \<leftarrow> symbols_named (sb_symbols sim) base_pair_reverse;
             let (_, ask, decimals) = symbol_get_price s;
             v \<leftarrow> convert_decimals ask decimals desired_decimals;
             ret (Inr v)
           }
           else ret (Inl NoDataAvailable))"

text \<open>Slicing the first three characters of a shorter name panics.\<close>

definition get_position_value :: "'g sim_broker \<Rightarrow> position \<Rightarrow> (broker_error + usize) run" where
  "get_position_value sim pos = do {
     sym \<leftarrow> symbols_ix (sb_symbols sim) (p_symbol_id pos);
     if sy_is_fx sym then do {
       require (3 \<le> length (sy_name sym));
       r \<leftarrow> get_base_rate sim (take 3 (sy_name sym)) (sy_decimal_precision sym);
       ret (case r of Inl e \<Rightarrow> Inl e
            | Inr base_rate \<Rightarrow> Inr (p_size pos * base_rate * fx_lot_size (sb_settings sim)))
     }
     else ret (Inr (p_size pos))
   }"

section \<open>Notifications and ledgers\<close>

definition buying_power_changed :: "uuid \<Rightarrow> usize \<Rightarrow> 'g sim_broker \<Rightarrow> 'g sim_broker" where
  "buying_power_changed account_uuid new_buying_power sim =
     sim\<lparr>sb_pq := sq_push
       \<lparr>qi_timestamp = sb_timestamp sim + ping_ns (sb_settings sim),
        qi_unit = Notification (Inr (LedgerBalanceChange account_uuid new_buying_power))\<rparr>
       (sb_pq sim)\<rparr>"

definition set_ledger :: "uuid \<Rightarrow> account \<Rightarrow> ledger \<Rightarrow> 'g sim_broker \<Rightarrow> 'g sim_broker" where
  "set_ledger account_uuid account l sim =
     sim\<lparr>sb_accounts := accounts_insert account_uuid (account\<lparr>acct_ledger := l\<rparr>) (sb_accounts sim)\<rparr>"

definition get_ledger_clone :: "'g sim_broker \<Rightarrow> uuid \<Rightarrow> broker_error + ledger" where
  "get_ledger_clone sim account_uuid =
     (case accounts_get (sb_accounts sim) account_uuid of
        Some acct \<Rightarrow> Inr (acct_ledger acct)
      | None \<Rightarrow> Inl (Message ''No account exists with that UUID.''))"

section \<open>Opening and closing at the market\<close>

definition market_open ::
  "'g rng \<Rightarrow> uuid \<Rightarrow> nat \<Rightarrow> bool \<Rightarrow> usize \<Rightarrow> usize option \<Rightarrow> usize option \<Rightarrow> usize option \<Rightarrow>
     'g broker_step" where
  "market_open rng account_uuid symbol_ix long sz stop take_profit max_range sim = do {
     opt \<leftarrow> get_price sim symbol_ix;
     case opt of
       None \<Rightarrow> ret (Inl NoSuchSymbol, sim)
     | Some (bid, ask) \<Rightarrow> do {
         let cur_price = (if long then ask else bid);
         let pos = \<lparr>p_creation_time = sb_timestamp sim, p_symbol_id = symbol_ix, p_size = sz,
                    p_price = Some cur_price, p_long = long, p_stop = stop,
                    p_take_profit = take_profit,
                    p_execution_time =
                      Some (sb_timestamp sim + execution_delay_ns (sb_settings sim)),
                    p_execution_price = Some cur_price, p_exit_price = None, p_exit_time = None\<rparr>;
         sane \<leftarrow> check_sanity pos;
         case sane of
           Inl e \<Rightarrow> ret (Inl e, sim)
         | Inr _ \<Rightarrow> do {
             value \<leftarrow> get_position_value sim pos;
             case value of
               Inl e \<Rightarrow> ret (Inl e, sim)
             | Inr pos_value \<Rightarrow> do {
                 let (pos_uuid, g) = gen_uuid rng (sb_prng sim);
                 let sim = sim\<lparr>sb_prng := g\<rparr>;
                 case accounts_get (sb_accounts sim) account_uuid of
                   None \<Rightarrow> ret (Inl NoSuchAccount, sim)
                 | Some account \<Rightarrow>
                     if buying_power (acct_ledger account) < pos_value
                     then ret (Inl InsufficientBuyingPower, sim)
                     else do {
                       let l = (acct_ledger account)
                         \<lparr>buying_power := buying_power (acct_ledger account) - pos_value\<rparr>;
                       let new_buying_power = buying_power l;
                       (res, l') \<leftarrow> ledger_open_position l pos_uuid pos;
                       let sim = set_ledger account_uuid account l' sim;
                       require (\<not> isl res);
                       accs \<leftarrow> position_opened_immediate pos pos_uuid account_uuid (sb_accounts sim);
                       ret (res, buying_power_changed account_uuid new_buying_power
                                   (sim\<lparr>sb_accounts := accs\<rparr>))
                     }
               }
           }
       }
   }"

definition market_close :: "uuid \<Rightarrow> uuid \<Rightarrow> usize \<Rightarrow> 'g broker_step" where
  "market_close account_id position_uuid sz sim =
     (case accounts_get (sb_accounts sim) account_id of
        None \<Rightarrow> ret (Inl NoSuchAccount, sim)
      | Some account \<Rightarrow>
          (case open_positions (acct_ledger account) position_uuid of
             None \<Rightarrow> ret (Inl NoSuchPosition, sim)
           | Some pos \<Rightarrow> do {
               value \<leftarrow> get_position_value sim pos;
               case value of
                 Inl e \<Rightarrow> ret (Inl e, sim)
               | Inr pos_value \<Rightarrow> do {
                   require (p_size pos \<noteq> 0);
                   let modification_cost = (pos_value div p_size pos) * sz;
                   (res, l) \<leftarrow> ledger_resize_position (acct_ledger account) position_uuid
                                 (- 1 * sz) modification_cost (sb_timestamp sim);
                   let new_buying_power = buying_power l;
                   let sim = set_ledger account_id account l sim;
                   case res of
                     Inr (PositionClosed pos_uuid closed _ _) \<Rightarrow> do {
                       accs \<leftarrow> position_closed closed pos_uuid (sb_accounts sim);
                       ret (res, buying_power_changed account_id new_buying_power
                                   (sim\<lparr>sb_accounts := accs\<rparr>))
                     }
                   | _ \<Rightarrow> ret (res, sim)
                 }
             }))"

section \<open>Orders\<close>

definition place_order ::
  "'g rng \<Rightarrow> uuid \<Rightarrow> nat \<Rightarrow> usize \<Rightarrow> bool \<Rightarrow> usize \<Rightarrow> usize option \<Rightarrow> usize option \<Rightarrow>
     'g broker_step" where
  "place_order rng account_uuid symbol_ix limit_price long sz stop take_profit sim = do {
     opt \<leftarrow> get_price sim symbol_ix;
     case opt of
       None \<Rightarrow> ret (Inl NoSuchSymbol, sim)
     | Some (bid, ask) \<Rightarrow> do {
         let order = \<lparr>p_creation_time = sb_timestamp sim, p_symbol_id = symbol_ix, p_size = sz,
                      p_price = Some limit_price, p_long = long, p_stop = stop,
                      p_take_profit = take_profit, p_execution_time = None,
                      p_execution_price = None, p_exit_price = None, p_exit_time = None\<rparr>;
         sane \<leftarrow> check_sanity order;
         case sane of
           Inl e \<Rightarrow> ret (Inl e, sim)
         | Inr _ \<Rightarrow> do {
             satisfied \<leftarrow> is_open_satisfied order bid ask;
             case satisfied of
               Some entry_price \<Rightarrow>
                 market_open rng account_uuid symbol_ix long sz stop take_profit (Some 0) sim
             | None \<Rightarrow> do {
                 value \<leftarrow> get_position_value sim order;
                 case value of
                   Inl e \<Rightarrow> ret (Inl e, sim)
                 | Inr pos_value \<Rightarrow>
                     (case accounts_get (sb_accounts sim) account_uuid of
                        None \<Rightarrow> ret (Inl NoSuchAccount, sim)
                      | Some account \<Rightarrow> do {
                          let (u, g) = gen_uuid rng (sb_prng sim);
                          let (res, l) = ledger_place_order (acct_ledger account) order pos_value u;
                          let sim = set_ledger account_uuid account l (sim\<lparr>sb_prng := g\<rparr>);
                          case res of
                            Inr (OrderPlaced order_id _ _) \<Rightarrow> do {
                              accs \<leftarrow> order_placed order order_id account_uuid (sb_accounts sim);
                              acct \<leftarrow> accounts_get accs account_uuid;
                              ret (res, buying_power_changed account_uuid
                                          (buying_power (acct_ledger acct)) (sim\<lparr>sb_accounts := accs\<rparr>))
                            }
                          | _ \<Rightarrow> ret (res, sim)
                        })
               }
           }
       }
   }"

text \<open>
  The branch for a marketable order hands the ledger the copy of the order that was taken
  before the execution data were written, as the code does.
\<close>

definition modify_order ::
  "uuid \<Rightarrow> uuid \<Rightarrow> usize \<Rightarrow> usize \<Rightarrow> usize option \<Rightarrow> usize option \<Rightarrow> 'g broker_step" where
  "modify_order account_uuid pos_uuid sz entry_price stop take_profit sim =
     (case accounts_get (sb_accounts sim) account_uuid of
        None \<Rightarrow> ret (Inl NoSuchAccount, sim)
      | Some account \<Rightarrow>
          (case pending_positions (acct_ledger account) pos_uuid of
             None \<Rightarrow> ret (Inl NoSuchPosition, sim)
           | Some order \<Rightarrow> do {
               opt \<leftarrow> get_price sim (p_symbol_id order);
               case opt of
                 None \<Rightarrow> ret (Inl NoSuchSymbol, sim)
               | Some (bid, ask) \<Rightarrow> do {
                   satisfied \<leftarrow> is_open_satisfied order bid ask;
                   case satisfied of
                     Some open_price \<Rightarrow> do {
                       let l = (acct_ledger account)\<lparr>pending_positions :=
                         (pending_positions (acct_ledger account))(pos_uuid := None)\<rparr>;
                       (res, l') \<leftarrow> ledger_open_position l pos_uuid order;
                       let sim = set_ledger account_uuid account l' sim;
                       accs \<leftarrow> position_opened order pos_uuid (sb_accounts sim);
                       ret (res, sim\<lparr>sb_accounts := accs\<rparr>)
                     }
                   | None \<Rightarrow> do {
                       let (res, l) = ledger_modify_order (acct_ledger account) pos_uuid sz
                                        entry_price stop take_profit (sb_timestamp sim);
                       let sim = set_ledger account_uuid account l sim;
                       case res of
                         Inr (OrderModified _ order' _) \<Rightarrow> do {
                           accs \<leftarrow> order_modified order' pos_uuid (sb_accounts sim);
                           ret (res, sim\<lparr>sb_accounts := accs\<rparr>)
                         }
                       | _ \<Rightarrow> panic
                     }
                 }
             }))"

definition cancel_order :: "uuid \<Rightarrow> uuid \<Rightarrow> 'g broker_step" where
  "cancel_order account_uuid order_uuid sim =
     (case accounts_get (sb_accounts sim) account_uuid of
        None \<Rightarrow> ret (Inl NoSuchAccount, sim)
      | Some account \<Rightarrow> do {
          let (res, l) = ledger_cancel_order (acct_ledger account) order_uuid (sb_timestamp sim);
          let new_buying_power = buying_power l;
          let sim = set_ledger account_uuid account l sim;
          case res of
            Inl e \<Rightarrow> ret (res, sim)
          | Inr (OrderCancelled _ order _) \<Rightarrow> do {
              accs \<leftarrow> order_cancelled order_uuid (p_symbol_id order) (sb_accounts sim);
              ret (res, buying_power_changed account_uuid new_buying_power (sim\<lparr>sb_accounts := accs\<rparr>))
            }
          | _ \<Rightarrow> panic
        })"

definition modify_position ::
  "uuid \<Rightarrow> uuid \<Rightarrow> usize option option \<Rightarrow> usize option option \<Rightarrow> 'g broker_step" where
  "modify_position account_id position_uuid sl tp sim =
     (case accounts_get (sb_accounts sim) account_id of
        None \<Rightarrow> ret (Inl NoSuchAccount, sim)
      | Some account \<Rightarrow> do {
          let (res, l) = ledger_modify_position (acct_ledger account) position_uuid sl tp
                           (sb_timestamp sim);
          let sim = set_ledger account_id account l sim;
          case res of
            Inr (PositionModified pos_uuid pos _) \<Rightarrow> do {
              accs \<leftarrow> position_modified pos pos_uuid (sb_accounts sim);
              ret (res, sim\<lparr>sb_accounts := accs\<rparr>)
            }
          | _ \<Rightarrow> ret (res, sim)
        })"

section \<open>Actions\<close>

fun exec_trading_action :: "'g rng \<Rightarrow> uuid \<Rightarrow> trading_action \<Rightarrow> 'g broker_step" where
  "exec_trading_action rng acct (MarketOrder symbol long sz stop take_profit max_range) sim =
     (case get_index (sb_symbols sim) symbol of
        Some ix \<Rightarrow> market_open rng acct ix long sz stop take_profit max_range sim
      | None \<Rightarrow> ret (Inl NoSuchSymbol, sim))"
| "exec_trading_action rng acct (MarketClose u sz) sim = market_close acct u sz sim"
| "exec_trading_action rng acct (LimitOrder symbol long sz stop take_profit entry_price) sim =
     (case get_index (sb_symbols sim) symbol of
        Some ix \<Rightarrow> place_order rng acct ix entry_price long sz stop take_profit sim
      | None \<Rightarrow> ret (Inl NoSuchSymbol, sim))"
| "exec_trading_action rng acct (LimitClose u sz exit_price) sim =
     modify_position acct u None (Some (Some exit_price)) sim"
| "exec_trading_action rng acct (ModifyOrder u sz entry_price stop take_profit) sim =
     modify_order acct u sz entry_price stop take_profit sim"
| "exec_trading_action rng acct (CancelOrder u) sim = cancel_order acct u sim"
| "exec_trading_action rng acct (ModifyPosition u stop take_profit) sim =
     modify_position acct u (Some stop) (Some take_profit) sim"

fun exec_action :: "'g rng \<Rightarrow> broker_action \<Rightarrow> 'g broker_step" where
  "exec_action rng Ping sim = ret (Inr (Pong (sb_timestamp sim)), sim)"
| "exec_action rng (TradingAction account_uuid action) sim =
     exec_trading_action rng account_uuid action sim"
| "exec_action rng (GetLedger account_uuid) sim =
     (case accounts_get (sb_accounts sim) account_uuid of
        Some acct \<Rightarrow> ret (Inr (Ledger_msg (acct_ledger acct)), sim)
      | None \<Rightarrow> ret (Inl NoSuchAccount, sim))"
| "exec_action rng ListAccounts sim =
     ret (Inr (AccountListing (map snd (acc_data (sb_accounts sim)))), sim)"
| "exec_action rng Disconnect sim = panic"

section \<open>Setting up\<close>

definition oneshot_price_set ::
  "string \<Rightarrow> usize \<times> usize \<Rightarrow> bool \<Rightarrow> nat \<Rightarrow> 'g sim_broker \<Rightarrow> 'g sim_broker run" where
  "oneshot_price_set name price is_fx decimal_precision sim = do {
     require (is_fx \<longrightarrow> length name = 6);
     if symbols_contains (sb_symbols sim) name then do {
       s \<leftarrow> symbols_named (sb_symbols sim) name;
       ss \<leftarrow> symbols_set_named (sb_symbols sim) name (s\<lparr>sy_price := price\<rparr>);
       ret (sim\<lparr>sb_symbols := ss\<rparr>)
     }
     else do {
       let (r, ss) = symbols_add (sb_symbols sim) name (new_oneshot price is_fx decimal_precision name);
       _ \<leftarrow> unwrap_ok r;
       ret (sim\<lparr>sb_symbols := ss\<rparr>)
     }
   }"

definition register_tickstream ::
  "string \<Rightarrow> (unit + tick) iter \<Rightarrow> bool \<Rightarrow> nat \<Rightarrow> 'g broker_step" where
  "register_tickstream name raw_tickstream is_fx decimal_precision sim = do {
     let sim = sim\<lparr>sb_accounts := add_symbol (sb_accounts sim)\<rparr>;
     sym \<leftarrow> new_from_stream raw_tickstream is_fx decimal_precision name;
     (item, sym) \<leftarrow> symbol_next sym;
     r \<leftarrow> item;
     first_tick \<leftarrow> unwrap_ok r;
     let (res, ss) = symbols_add (sb_symbols sim) name (sym\<lparr>sy_next_tick := Some first_tick\<rparr>);
     ret (res, sim\<lparr>sb_symbols := ss\<rparr>)
   }"

text \<open>
  \<open>SimBroker::new\<close>: \<open>g\<close> is the seeded generator, \<open>defs\<close> the list serde reads from the
  settings (none when it does not parse) with the stream each definition opens.
\<close>

fun register_all ::
  "(string \<times> (string + (unit + tick) iter) \<times> bool \<times> nat) list \<Rightarrow> 'g sim_broker \<Rightarrow>
     (broker_error + 'g sim_broker) run" where
  "register_all [] sim = ret (Inr sim)"
| "register_all ((name, strm, is_fx, decimals) # defs) sim =
     (case strm of
        Inl s \<Rightarrow> ret (Inl (Message s))
      | Inr it \<Rightarrow> do {
          (res, sim') \<leftarrow> register_tickstream name it is_fx decimals sim;
          case res of Inl e \<Rightarrow> ret (Inl e) | Inr _ \<Rightarrow> register_all defs sim'
        })"

definition sim_new ::
  "'g rng \<Rightarrow> 'g \<Rightarrow> sim_settings \<Rightarrow> (string \<times> (string + (unit + tick) iter) \<times> bool \<times> nat) list option \<Rightarrow>
     (broker_error + 'g sim_broker) run" where
  "sim_new rng g settings defs =
     (let (u, g') = gen_uuid rng g;
          account = \<lparr>acct_uuid = u, acct_ledger = ledger_new (starting_balance settings),
                     acct_live = False\<rparr>;
          sim = \<lparr>sb_accounts = accounts_insert u account accounts_new, sb_settings = settings,
                 sb_symbols = symbols_new, sb_pq = [], sb_timestamp = 0, sb_client_rx = [],
                 sb_prng = g', sb_completed = []\<rparr>
      in case defs of
           None \<Rightarrow> ret (Inl (Message ''Unable to deserialize the input tickstreams into a vector!''))
         | Some ds \<Rightarrow> register_all ds sim)"

text \<open>The seed of the deterministic mode: the sum of the characters of the seed string.\<close>

fun seed_of :: "string \<Rightarrow> u32" where
  "seed_of [] = 0"
| "seed_of (c # cs) = of_char c + seed_of cs"

end
