(* ===== verification/Tg_SimLoop.thy ===== *)
theory Tg_SimLoop
  imports Tg_SimBroker
begin

text \<open>
  The event loop of the simulated broker (\<open>init_sim_loop\<close>, \<open>tick_sim_loop\<close> and
  \<open>tick_positions\<close> of \<open>broker_shims/simbroker/src/lib.rs\<close>). The two loops of
  \<open>tick_positions\<close> walk a cache they shorten as they go: one turn either moves the index
  on or takes an entry out, so the distance from the index to the end is the measure.
  Writing outside the caller's buffer panics. A message pushed to the client has no effect
  beyond the buffer (the body of \<open>push_msg\<close> is commented out), and the client is assumed
  to consume the ticks sent to it.
\<close>

type_synonym 'g loop_state = "'g sim_broker \<times> tick_output list \<times> nat"

definition pending_len :: "nat \<Rightarrow> 'g sim_broker \<Rightarrow> nat run" where
  "pending_len symbol_id sim = do {
     ps \<leftarrow> vec_get (acc_positions (sb_accounts sim)) symbol_id;
     ret (length (pending_cache ps))
   }"

definition open_len :: "nat \<Rightarrow> 'g sim_broker \<Rightarrow> nat run" where
  "open_len symbol_id sim = do {
     ps \<leftarrow> vec_get (acc_positions (sb_accounts sim)) symbol_id;
     ret (length (open_cache ps))
   }"

section \<open>Opening pending orders\<close>

definition tick_pending_step ::
  "nat \<Rightarrow> usize \<times> usize \<Rightarrow> nat \<Rightarrow> nat \<Rightarrow> 'g loop_state \<Rightarrow> (nat \<times> 'g loop_state) run" where
  "tick_pending_step symbol_id price cur_index i = (\<lambda>(sim, buffer, count). do {
     ps \<leftarrow> vec_get (acc_positions (sb_accounts sim)) symbol_id;
     c \<leftarrow> vec_get (pending_cache ps) i;
     satisfied \<leftarrow> is_open_satisfied (cp_pos c) (fst price) (snd price);
     case satisfied of
       None \<Rightarrow> ret (Suc i, sim, buffer, count)
     | Some open_price \<Rightarrow> do {
         account \<leftarrow> accounts_get (sb_accounts sim) (cp_acct c);
         hm_pos \<leftarrow> pending_positions (acct_ledger account) (cp_uuid c);
         let l = (acct_ledger account)\<lparr>pending_positions :=
           (pending_positions (acct_ledger account))(cp_uuid c := None)\<rparr>;
         (res, l') \<leftarrow> ledger_open_position l (cp_uuid c)
           (hm_pos\<lparr>p_execution_price := Some open_price, p_execution_time := Some (sb_timestamp sim)\<rparr>);
         let sim = set_ledger (cp_acct c) account l' sim;
         case res of
           Inr (PositionOpened _ pos _) \<Rightarrow> do {
             accs \<leftarrow> with_positions symbol_id (\<lambda>ps. do {
               (c, cs) \<leftarrow> vec_remove (pending_cache ps) i;
               ret (ps\<lparr>pending_cache := cs, open_cache := open_cache ps @ [c\<lparr>cp_pos := pos\<rparr>]\<rparr>)
             }) (sb_accounts sim);
             buffer' \<leftarrow> vec_set buffer (cur_index + count) (Pushstream (sb_timestamp sim) res);
             ret (i, sim\<lparr>sb_accounts := accs\<rparr>, buffer', count + 1)
           }
         | _ \<Rightarrow> ret (Suc i, sim, buffer, count)
       }
   })"

lemma with_positions_eq_Some:
  "with_positions ix f a = Some a' \<longleftrightarrow>
     ix < length (acc_positions a) \<and>
     (\<exists>ps. f (acc_positions a ! ix) = Some ps \<and> a' = a\<lparr>acc_positions := (acc_positions a)[ix := ps]\<rparr>)"
  by (auto simp: with_positions_def bind_Some_iff)

lemma acc_positions_set_ledger [simp]:
  "acc_positions (sb_accounts (set_ledger u a l sim)) = acc_positions (sb_accounts sim)"
  by (simp add: set_ledger_def accounts_insert_def)

lemma ledger_open_position_filled:
  "ledger_open_position l u (pos\<lparr>p_execution_price := Some price, p_execution_time := Some t\<rparr>) =
     Some (Inr (PositionOpened u (pos\<lparr>p_execution_price := Some price, p_execution_time := Some t\<rparr>) t),
       l\<lparr>open_positions := (open_positions l)
           (u \<mapsto> pos\<lparr>p_execution_price := Some price, p_execution_time := Some t\<rparr>)\<rparr>)"
  by (simp add: ledger_open_position_def)

lemma tick_pending_step_measure:
  assumes "tick_pending_step s p k i (sim, b, n) = Some (i', sim', b', n')"
    and "pending_len s sim = Some m"
  shows "\<exists>m'. pending_len s sim' = Some m' \<and> m' - i' = m - i - 1 \<and> i < m"
  using assms
  by (auto simp: tick_pending_step_def pending_len_def bind_Some_iff Let_def with_positions_eq_Some
      ledger_open_position_filled split: option.splits)

lemmas option_bind_cong [fundef_cong] = Option.bind_cong

function tick_pending_loop ::
  "nat \<Rightarrow> usize \<times> usize \<Rightarrow> nat \<Rightarrow> nat \<Rightarrow> 'g loop_state \<Rightarrow> 'g loop_state run" where
  "tick_pending_loop symbol_id price cur_index i st = do {
     len \<leftarrow> pending_len symbol_id (fst st);
     if i < len then do {
       (i', st') \<leftarrow> tick_pending_step symbol_id price cur_index i st;
       tick_pending_loop symbol_id price cur_index i' st'
     }
     else ret st
   }"
  by pat_completeness auto
termination
proof (relation "measure (\<lambda>(s, p, k, i, st). the (pending_len s (fst st)) - i)")
  fix s :: nat and p k i and st :: "'g loop_state" and len x i' st'
  assume len: "pending_len s (fst st) = Some len" "i < len"
    and step: "tick_pending_step s p k i st = Some x" "(i', st') = x"
  obtain sim b n where st: "st = (sim, b, n)" by (cases st) auto
  obtain sim' b' n' where st': "st' = (sim', b', n')" by (cases st') auto
  obtain m' where "pending_len s sim' = Some m'" "m' - i' = len - i - 1"
    using tick_pending_step_measure [of s p k i sim b n i' sim' b' n' len] len step st st' by auto
  then show "((s, p, k, i', st'), s, p, k, i, st)
      \<in> measure (\<lambda>(s, p, k, i, st). the (pending_len s (fst st)) - i)"
    using len st' by simp
qed simp

declare tick_pending_loop.simps [simp del]

section \<open>Closing open positions\<close>

definition tick_open_step ::
  "nat \<Rightarrow> usize \<times> usize \<Rightarrow> nat \<Rightarrow> nat \<Rightarrow> 'g loop_state \<Rightarrow> (nat \<times> 'g loop_state) run" where
  "tick_open_step symbol_id price cur_index i = (\<lambda>(sim, buffer, count). do {
     ps \<leftarrow> vec_get (acc_positions (sb_accounts sim)) symbol_id;
     c \<leftarrow> vec_get (open_cache ps) i;
     satisfied \<leftarrow> is_close_satisfied (cp_pos c) (fst price) (snd price);
     case satisfied of
       None \<Rightarrow> ret (Suc i, sim, buffer, count)
     | Some (closure_price, closure_reason) \<Rightarrow> do {
         value \<leftarrow> get_position_value sim (cp_pos c);
         pos_value \<leftarrow> unwrap_ok value;
         account \<leftarrow> accounts_get (sb_accounts sim) (cp_acct c);
         let (res, l) = ledger_close_position (acct_ledger account) (cp_uuid c) pos_value
                          (sb_timestamp sim) closure_reason;
         let new_buying_power = buying_power l;
         let sim = set_ledger (cp_acct c) account l sim;
         accs \<leftarrow> with_positions symbol_id (\<lambda>ps. do {
           (_, cs) \<leftarrow> vec_remove (open_cache ps) i;
           ret (ps\<lparr>open_cache := cs\<rparr>)
         }) (sb_accounts sim);
         require (\<not> isl res);
         buffer' \<leftarrow> vec_set buffer (cur_index + count)
           (Pushstream (sb_timestamp sim) (Inr (LedgerBalanceChange (cp_acct c) new_buying_power)));
         buffer'' \<leftarrow> vec_set buffer' (cur_index + (count + 1)) (Pushstream (sb_timestamp sim) res);
         ret (i, sim\<lparr>sb_accounts := accs\<rparr>, buffer'', count + 2)
       }
   })"

lemma tick_open_step_measure:
  assumes "tick_open_step s p k i (sim, b, n) = Some (i', sim', b', n')"
    and "open_len s sim = Some m"
  shows "\<exists>m'. open_len s sim' = Some m' \<and> m' - i' = m - i - 1 \<and> i < m"
  using assms
  by (auto simp: tick_open_step_def open_len_def bind_Some_iff Let_def with_positions_eq_Some
      split_beta split: option.splits)

function tick_open_loop ::
  "nat \<Rightarrow> usize \<times> usize \<Rightarrow> nat \<Rightarrow> nat \<Rightarrow> 'g loop_state \<Rightarrow> 'g loop_state run" where
  "tick_open_loop symbol_id price cur_index i st = do {
     len \<leftarrow> open_len symbol_id (fst st);
     if i < len then do {
       (i', st') \<leftarrow> tick_open_step symbol_id price cur_index i st;
       tick_open_loop symbol_id price cur_index i' st'
     }
     else ret st
   }"
  by pat_completeness auto
termination
proof (relation "measure (\<lambda>(s, p, k, i, st). the (open_len s (fst st)) - i)")
  fix s :: nat and p k i and st :: "'g loop_state" and len x i' st'
  assume len: "open_len s (fst st) = Some len" "i < len"
    and step: "tick_open_step s p k i st = Some x" "(i', st') = x"
  obtain sim b n where st: "st = (sim, b, n)" by (cases st) auto
  obtain sim' b' n' where st': "st' = (sim', b', n')" by (cases st') auto
  obtain m' where "open_len s sim' = Some m'" "m' - i' = len - i - 1"
    using tick_open_step_measure [of s p k i sim b n i' sim' b' n' len] len step st st' by auto
  then show "((s, p, k, i', st'), s, p, k, i, st)
      \<in> measure (\<lambda>(s, p, k, i, st). the (open_len s (fst st)) - i)"
    using len st' by simp
qed simp

declare tick_open_loop.simps [simp del]

definition tick_positions ::
  "nat \<Rightarrow> usize \<times> usize \<Rightarrow> nat \<Rightarrow> tick_output list \<Rightarrow> 'g sim_broker \<Rightarrow>
     (nat \<times> tick_output list \<times> 'g sim_broker) run" where
  "tick_positions symbol_id price cur_index buffer sim = do {
     st \<leftarrow> tick_pending_loop symbol_id price cur_index 0 (sim, buffer, 0);
     (sim', buffer', push_msg_count) \<leftarrow> tick_open_loop symbol_id price cur_index 0 st;
     ret (push_msg_count, buffer', sim')
   }"

section \<open>The event loop\<close>

definition sim_init_loop :: "'g sim_broker \<Rightarrow> 'g sim_broker run" where
  "sim_init_loop sim = do {
     (q, ss) \<leftarrow> sq_init (sb_pq sim) (sb_symbols sim);
     ret (sim\<lparr>sb_pq := q, sb_symbols := ss\<rparr>)
   }"

text \<open>Receiving from a channel that is empty blocks for ever.\<close>

fun recv_actions :: "nat \<Rightarrow> 'g sim_broker \<Rightarrow> 'g sim_broker run" where
  "recv_actions 0 sim = ret sim"
| "recv_actions (Suc n) sim =
     (case sb_client_rx sim of
        [] \<Rightarrow> panic
      | (action, complete) # rest \<Rightarrow>
          recv_actions n
            (sim\<lparr>sb_client_rx := rest,
                 sb_pq := sq_push
                   \<lparr>qi_timestamp = sb_timestamp sim + get_delay (sb_settings sim) action,
                    qi_unit = ActionComplete complete action\<rparr> (sb_pq sim)\<rparr>))"

fun process_unit ::
  "'g rng \<Rightarrow> work_unit \<Rightarrow> u64 \<Rightarrow> tick_output list \<Rightarrow> 'g sim_broker \<Rightarrow>
     (nat \<times> tick_output list \<times> 'g sim_broker) run" where
  "process_unit rng (NewTick symbol_ix t) ts buffer sim = do {
     s \<leftarrow> symbols_ix (sb_symbols sim) symbol_ix;
     ss \<leftarrow> symbols_set (sb_symbols sim) symbol_ix (s\<lparr>sy_price := (t_bid t, t_ask t)\<rparr>);
     let sim = sim\<lparr>sb_symbols := ss,
       sb_pq := sq_push \<lparr>qi_timestamp = t_timestamp t + ping_ns (sb_settings sim),
                          qi_unit = ClientTick symbol_ix t\<rparr> (sb_pq sim)\<rparr>;
     (n, buffer', sim) \<leftarrow> tick_positions symbol_ix (t_bid t, t_ask t) 0 buffer sim;
     (q, ss) \<leftarrow> push_next_tick (sb_pq sim) (sb_symbols sim);
     ret (n, buffer', sim\<lparr>sb_pq := q, sb_symbols := ss\<rparr>)
   }"
| "process_unit rng (ClientTick symbol_ix t) ts buffer sim = do {
     s \<leftarrow> symbols_ix (sb_symbols sim) symbol_ix;
     s' \<leftarrow> send_client t s;
     ss \<leftarrow> symbols_set (sb_symbols sim) symbol_ix s';
     buffer' \<leftarrow> vec_set buffer 0 (TickOut symbol_ix t);
     ret (1, buffer', sim\<lparr>sb_symbols := ss\<rparr>)
   }"
| "process_unit rng (ActionComplete future action) ts buffer sim = do {
     require (sb_timestamp sim = ts);
     (res, sim') \<leftarrow> exec_action rng action sim;
     ret (0, buffer, sim'\<lparr>sb_pq := sq_push
       \<lparr>qi_timestamp = ts + ping_ns (sb_settings sim'), qi_unit = Response future res\<rparr> (sb_pq sim')\<rparr>)
   }"
| "process_unit rng (Response future res) ts buffer sim = do {
     let sim = sim\<lparr>sb_completed := sb_completed sim @ [(future, res)]\<rparr>;
     buffer' \<leftarrow> vec_set buffer 0 (Pushstream (sb_timestamp sim) res);
     ret (1, buffer', sim)
   }"
| "process_unit rng (Notification res) ts buffer sim = do {
     buffer' \<leftarrow> vec_set buffer 0 (Pushstream (sb_timestamp sim) res);
     ret (1, buffer', sim)
   }"

definition tick_sim_loop ::
  "'g rng \<Rightarrow> nat \<Rightarrow> tick_output list \<Rightarrow> 'g sim_broker \<Rightarrow>
     (nat \<times> tick_output list \<times> 'g sim_broker) run" where
  "tick_sim_loop rng num_last_actions buffer sim = do {
     sim \<leftarrow> recv_actions num_last_actions sim;
     (item, q) \<leftarrow> sq_pop (sb_pq sim);
     process_unit rng (qi_unit item) (qi_timestamp item) buffer
       (sim\<lparr>sb_pq := q, sb_timestamp := qi_timestamp item\<rparr>)
   }"

end
