(* ===== verification/Tg_SimCache.thy ===== *)
theory Tg_SimCache
  imports Tg_SimLoop
begin

text \<open>
  The relation between the cache the event loop scans and the ledgers it mirrors. For each
  symbol the cached pending (open) positions are exactly the pending (open) positions of
  that symbol in all the ledgers, no uuid occurring twice. The operations on the cache are
  shown to keep the relation when the ledger changes along with it, first for one cache
  (\<open>cached_as\<close>), then for the accounts (\<open>accounts_wf\<close>).
\<close>

definition upd2 :: "('a \<Rightarrow> 'b \<Rightarrow> 'c) \<Rightarrow> 'a \<Rightarrow> 'b \<Rightarrow> 'c \<Rightarrow> 'a \<Rightarrow> 'b \<Rightarrow> 'c" where
  "upd2 V a u x = V(a := (V a)(u := x))"

lemma upd2_apply [simp]: "upd2 V a u x a' u' = (if a' = a \<and> u' = u then x else V a' u')"
  by (simp add: upd2_def)

definition cached_as ::
  "(uuid \<Rightarrow> uuid \<Rightarrow> position option) \<Rightarrow> nat \<Rightarrow> cached_position list \<Rightarrow> bool" where
  "cached_as V ix cs \<longleftrightarrow> distinct (map cp_uuid cs) \<and>
     (\<forall>c. c \<in> set cs \<longleftrightarrow> V (cp_acct c) (cp_uuid c) = Some (cp_pos c) \<and> p_symbol_id (cp_pos c) = ix)"

lemma cached_as_mem:
  "cached_as V ix cs \<Longrightarrow>
     c \<in> set cs \<longleftrightarrow> V (cp_acct c) (cp_uuid c) = Some (cp_pos c) \<and> p_symbol_id (cp_pos c) = ix"
  by (simp add: cached_as_def)

lemma cached_as_distinct: "cached_as V ix cs \<Longrightarrow> distinct (map cp_uuid cs)"
  by (simp add: cached_as_def)

lemma cached_as_fresh:
  "cached_as V ix cs \<Longrightarrow> (\<And>a. V a u = None) \<Longrightarrow> u \<notin> cp_uuid ` set cs"
  by (auto simp: cached_as_mem)

lemma cached_position_eq: "(c :: cached_position) = d \<longleftrightarrow>
    cp_uuid c = cp_uuid d \<and> cp_acct c = cp_acct d \<and> cp_pos c = cp_pos d"
  by (cases c; cases d) simp

lemma cached_as_append:
  assumes cs: "cached_as V ix cs" and u: "u \<notin> cp_uuid ` set cs" and V: "V a u = None"
    and p: "p_symbol_id p = ix"
  shows "cached_as (upd2 V a u (Some p)) ix (cs @ [\<lparr>cp_uuid = u, cp_acct = a, cp_pos = p\<rparr>])"
  using cs u V p by (auto simp: cached_as_def cached_position_eq)

lemma cached_as_new_other:
  "cached_as V ix cs \<Longrightarrow> V a u = None \<Longrightarrow> p_symbol_id p \<noteq> ix \<Longrightarrow> cached_as (upd2 V a u (Some p)) ix cs"
  by (auto simp: cached_as_def)

lemma cached_as_del_other:
  "cached_as V ix cs \<Longrightarrow> V a u = Some p \<Longrightarrow> p_symbol_id p \<noteq> ix \<Longrightarrow> cached_as (upd2 V a u None) ix cs"
  by (auto simp: cached_as_def)

lemma cached_as_upd_other:
  "cached_as V ix cs \<Longrightarrow> V a u = Some p \<Longrightarrow> p_symbol_id p \<noteq> ix \<Longrightarrow> p_symbol_id q \<noteq> ix \<Longrightarrow>
     cached_as (upd2 V a u (Some q)) ix cs"
  by (auto simp: cached_as_def)

text \<open>What the search of the cache returns.\<close>

lemma take_cached_found:
  "distinct (map cp_uuid cs) \<Longrightarrow> c \<in> set cs \<Longrightarrow> cp_uuid c = u \<Longrightarrow>
     \<exists>cs'. take_cached u cs = Some (c, cs') \<and> set cs' = set cs - {c} \<and> distinct (map cp_uuid cs') \<and>
       (\<forall>d\<in>set cs'. cp_uuid d \<noteq> u)"
proof (induction cs)
  case (Cons d ds)
  show ?case
  proof (cases "cp_uuid d = u")
    case True
    with Cons.prems have "d = c" by (auto simp: rev_image_eqI)
    with Cons.prems True show ?thesis by (auto simp: rev_image_eqI)
  next
    case False
    with Cons obtain cs' where "take_cached u ds = Some (c, cs')" "set cs' = set ds - {c}"
      "distinct (map cp_uuid cs')" "\<forall>e\<in>set cs'. cp_uuid e \<noteq> u" by auto
    with Cons.prems False show ?thesis by auto
  qed
qed simp

lemma cached_as_take:
  assumes cs: "cached_as V ix cs" and V: "V a u = Some p" and p: "p_symbol_id p = ix"
  obtains cs' where "take_cached u cs = Some (\<lparr>cp_uuid = u, cp_acct = a, cp_pos = p\<rparr>, cs')"
    "cached_as (upd2 V a u None) ix cs'" "cp_uuid ` set cs' \<subseteq> cp_uuid ` set cs - {u}"
proof -
  let ?c = "\<lparr>cp_uuid = u, cp_acct = a, cp_pos = p\<rparr>"
  have "?c \<in> set cs" using cs V p by (simp add: cached_as_mem)
  with cs obtain cs' where t: "take_cached u cs = Some (?c, cs')" "set cs' = set cs - {?c}"
    "distinct (map cp_uuid cs')" "\<forall>d\<in>set cs'. cp_uuid d \<noteq> u"
    using take_cached_found [of cs ?c u] by (auto simp: cached_as_def)
  have "e \<in> set cs' \<longleftrightarrow> upd2 V a u None (cp_acct e) (cp_uuid e) = Some (cp_pos e) \<and>
      p_symbol_id (cp_pos e) = ix" for e
  proof (cases "cp_uuid e = u \<and> cp_acct e = a")
    case True
    with t(4) show ?thesis by auto
  next
    case False
    then have "e \<noteq> ?c" by (auto simp: cached_position_eq)
    with False t(2) cached_as_mem [OF cs, of e] show ?thesis by auto
  qed
  with t(3) have "cached_as (upd2 V a u None) ix cs'"
    unfolding cached_as_def by blast
  moreover have "cp_uuid ` set cs' \<subseteq> cp_uuid ` set cs - {u}" using t by auto
  ultimately show ?thesis using t(1) that by blast
qed

lemma map_uuid_update_cached [simp]: "map cp_uuid (update_cached u p cs) = map cp_uuid cs"
  by (induction cs) (auto simp: update_cached_def)

lemma image_uuid_update_cached [simp]: "cp_uuid ` set (update_cached u p cs) = cp_uuid ` set cs"
  by (metis map_uuid_update_cached set_map)

lemma cached_as_update:
  assumes cs: "cached_as V ix cs" and V: "V a u = Some p" and p: "p_symbol_id p = ix"
    and q: "p_symbol_id q = ix"
  shows "cached_as (upd2 V a u (Some q)) ix (update_cached u q cs)"
proof -
  let ?c = "\<lparr>cp_uuid = u, cp_acct = a, cp_pos = p\<rparr>"
  have c: "?c \<in> set cs" using cs V p by (simp add: cached_as_mem)
  have d: "distinct (map cp_uuid cs)" using cs by (rule cached_as_distinct)
  have eq: "e = ?c" if "e \<in> set cs" "cp_uuid e = u" for e
    using d c that by (auto simp: distinct_map inj_on_def)
  have cu: "cp_uuid ?c = u" by simp
  have one: "{e \<in> set cs. cp_uuid e = u} = {?c}" using c cu eq by blast
  have "set (update_cached u q cs) = {e \<in> set cs. cp_uuid e \<noteq> u} \<union>
      (\<lambda>c. c\<lparr>cp_pos := q\<rparr>) ` {e \<in> set cs. cp_uuid e = u}"
    by (auto simp: update_cached_def)
  then have mem: "e \<in> set (update_cached u q cs) \<longleftrightarrow>
      (e \<in> set cs \<and> cp_uuid e \<noteq> u) \<or> e = \<lparr>cp_uuid = u, cp_acct = a, cp_pos = q\<rparr>" for e
    unfolding one by auto
  have "e \<in> set (update_cached u q cs) \<longleftrightarrow>
      upd2 V a u (Some q) (cp_acct e) (cp_uuid e) = Some (cp_pos e) \<and> p_symbol_id (cp_pos e) = ix" for e
  proof (cases "cp_uuid e = u")
    case True
    show ?thesis
    proof (cases "cp_acct e = a")
      case same: True
      with True q show ?thesis unfolding mem by (auto simp: cached_position_eq)
    next
      case False
      have "e \<notin> set cs"
      proof
        assume "e \<in> set cs"
        from eq [OF this True] have "cp_acct e = a" by simp
        with False show False by simp
      qed
      with False True cached_as_mem [OF cs, of e] show ?thesis
        unfolding mem by (simp add: cached_position_eq)
    qed
  next
    case False
    with cached_as_mem [OF cs, of e] show ?thesis unfolding mem by auto
  qed
  with d show ?thesis unfolding cached_as_def by simp
qed

section \<open>The accounts\<close>

definition ledger_view ::
  "(ledger \<Rightarrow> uuid \<rightharpoonup> position) \<Rightarrow> accounts \<Rightarrow> uuid \<Rightarrow> uuid \<Rightarrow> position option" where
  "ledger_view f accs a u =
     (case accounts_get accs a of None \<Rightarrow> None | Some acct \<Rightarrow> f (acct_ledger acct) u)"

text \<open>The cache of the symbol \<open>ix\<close>.\<close>

definition symbol_synced :: "accounts \<Rightarrow> nat \<Rightarrow> bool" where
  "symbol_synced accs ix \<longleftrightarrow>
     cached_as (ledger_view pending_positions accs) ix (pending_cache (acc_positions accs ! ix)) \<and>
     cached_as (ledger_view open_positions accs) ix (open_cache (acc_positions accs ! ix)) \<and>
     cp_uuid ` set (pending_cache (acc_positions accs ! ix)) \<inter>
       cp_uuid ` set (open_cache (acc_positions accs ! ix)) = {}"

definition symbols_known :: "accounts \<Rightarrow> bool" where
  "symbols_known accs \<longleftrightarrow>
     (\<forall>a u p. ledger_view pending_positions accs a u = Some p \<or>
        ledger_view open_positions accs a u = Some p \<longrightarrow> p_symbol_id p < length (acc_positions accs))"

definition ledgers_wf :: "accounts \<Rightarrow> bool" where
  "ledgers_wf accs \<longleftrightarrow> hm_ok (acc_data accs) \<and>
     (\<forall>a acct. accounts_get accs a = Some acct \<longrightarrow> ledger_wf (acct_ledger acct))"

definition accounts_wf :: "accounts \<Rightarrow> bool" where
  "accounts_wf accs \<longleftrightarrow> ledgers_wf accs \<and> symbols_known accs \<and>
     (\<forall>ix<length (acc_positions accs). symbol_synced accs ix)"

definition fresh_uuid :: "uuid \<Rightarrow> accounts \<Rightarrow> bool" where
  "fresh_uuid u accs \<longleftrightarrow>
     (\<forall>a acct. accounts_get accs a = Some acct \<longrightarrow> unused_in u (acct_ledger acct))"

lemma accounts_get_insert [simp]:
  "accounts_get (accounts_insert a v accs) a' = (if a' = a then Some v else accounts_get accs a')"
  by (simp add: accounts_get_def accounts_insert_def)

lemma acc_positions_insert [simp]: "acc_positions (accounts_insert a v accs) = acc_positions accs"
  by (simp add: accounts_insert_def)

lemma acc_data_update_positions [simp]:
  "accounts_get (accs\<lparr>acc_positions := ps\<rparr>) = accounts_get accs"
  by (simp add: accounts_get_def fun_eq_iff)

lemma ledger_view_positions [simp]:
  "ledger_view f (accs\<lparr>acc_positions := ps\<rparr>) = ledger_view f accs"
  by (simp add: ledger_view_def fun_eq_iff)

lemma ledger_view_Some:
  "ledger_view f accs a u = Some p \<longleftrightarrow>
     (\<exists>acct. accounts_get accs a = Some acct \<and> f (acct_ledger acct) u = Some p)"
  by (simp add: ledger_view_def split: option.splits)

lemma ledger_view_get:
  "accounts_get accs a = Some acct \<Longrightarrow> ledger_view f accs a u = f (acct_ledger acct) u"
  by (simp add: ledger_view_def)

lemma ledger_view_insert_same:
  "accounts_get accs a = Some acct \<Longrightarrow> f l = f (acct_ledger acct) \<Longrightarrow>
     ledger_view f (accounts_insert a (acct\<lparr>acct_ledger := l\<rparr>) accs) = ledger_view f accs"
  by (auto simp: ledger_view_def fun_eq_iff)

lemma ledger_view_insert_upd:
  "accounts_get accs a = Some acct \<Longrightarrow> f l = (f (acct_ledger acct))(u := x) \<Longrightarrow>
     ledger_view f (accounts_insert a (acct\<lparr>acct_ledger := l\<rparr>) accs) =
       upd2 (ledger_view f accs) a u x"
  by (auto simp: ledger_view_def fun_eq_iff)

lemma ledgers_wf_insert [wf_intros]:
  "ledgers_wf accs \<Longrightarrow> ledger_wf l \<Longrightarrow>
     ledgers_wf (accounts_insert a (acct\<lparr>acct_ledger := l\<rparr>) accs)"
  by (auto simp: ledgers_wf_def) (simp add: accounts_insert_def)

lemma ledgers_wf_positions [simp]:
  "ledgers_wf (accs\<lparr>acc_positions := ps\<rparr>) = ledgers_wf accs"
  by (simp add: ledgers_wf_def)

lemma accounts_wf_ledger:
  "accounts_wf accs \<Longrightarrow> accounts_get accs a = Some acct \<Longrightarrow> ledger_wf (acct_ledger acct)"
  by (simp add: accounts_wf_def ledgers_wf_def)

lemma accounts_wf_synced: "accounts_wf accs \<Longrightarrow> ix < length (acc_positions accs) \<Longrightarrow> symbol_synced accs ix"
  by (simp add: accounts_wf_def)

lemma accounts_wf_known:
  "accounts_wf accs \<Longrightarrow> accounts_get accs a = Some acct \<Longrightarrow>
     pending_positions (acct_ledger acct) u = Some p \<or> open_positions (acct_ledger acct) u = Some p \<Longrightarrow>
     p_symbol_id p < length (acc_positions accs)"
  unfolding accounts_wf_def symbols_known_def ledger_view_Some by blast

lemma fresh_view:
  "fresh_uuid u accs \<Longrightarrow> ledger_view pending_positions accs a u = None \<and>
     ledger_view open_positions accs a u = None"
  by (auto simp: fresh_uuid_def ledger_view_def unused_in_def split: option.splits)

lemma cached_as_remove_nth:
  assumes cs: "cached_as V ix cs" and i: "i < length cs" and c: "cs ! i = c"
  shows "cached_as (upd2 V (cp_acct c) (cp_uuid c) None) ix (remove_nth i cs)"
    and "cp_uuid ` set (remove_nth i cs) = cp_uuid ` set cs - {cp_uuid c}"
proof -
  have d: "distinct (map cp_uuid cs)" using cs by (rule cached_as_distinct)
  then have dc: "distinct cs" by (simp add: distinct_map)
  have cm: "c \<in> set cs" using i c by auto
  have inj: "e = c" if "e \<in> set cs" "cp_uuid e = cp_uuid c" for e
    using d that cm by (simp add: distinct_map inj_on_def)
  have set: "set (remove_nth i cs) = set cs - {c}"
    using set_remove_nth [OF dc i] c by simp
  have "e \<in> set (remove_nth i cs) \<longleftrightarrow>
      upd2 V (cp_acct c) (cp_uuid c) None (cp_acct e) (cp_uuid e) = Some (cp_pos e) \<and>
      p_symbol_id (cp_pos e) = ix" for e
  proof (cases "e = c")
    case True
    then show ?thesis by (simp add: set)
  next
    case False
    with inj have "e \<in> set cs \<Longrightarrow> cp_uuid e \<noteq> cp_uuid c" by blast
    with False cached_as_mem [OF cs, of e] show ?thesis by (auto simp: set)
  qed
  moreover have "distinct (map cp_uuid (remove_nth i cs))"
    using d by (simp add: map_remove_nth distinct_remove_nth)
  ultimately show "cached_as (upd2 V (cp_acct c) (cp_uuid c) None) ix (remove_nth i cs)"
    unfolding cached_as_def by blast
  show "cp_uuid ` set (remove_nth i cs) = cp_uuid ` set cs - {cp_uuid c}"
    using inj_on_image_set_diff [of cp_uuid "set cs" "set cs" "{c}"] d cm
    by (simp add: set distinct_map)
qed

section \<open>A change of one account and of one cache\<close>

lemma accounts_wf_change:
  assumes wf: "accounts_wf accs" and k: "k < length (acc_positions accs)"
    and pos: "acc_positions accs1 = acc_positions accs"
    and led: "ledgers_wf accs1" and known: "symbols_known accs1"
    and pend: "cached_as (ledger_view pending_positions accs1) k (pending_cache ps)"
    and opn: "cached_as (ledger_view open_positions accs1) k (open_cache ps)"
    and apart: "cp_uuid ` set (pending_cache ps) \<inter> cp_uuid ` set (open_cache ps) = {}"
    and pend': "\<And>ix cs. ix \<noteq> k \<Longrightarrow> cached_as (ledger_view pending_positions accs) ix cs \<Longrightarrow>
      cached_as (ledger_view pending_positions accs1) ix cs"
    and opn': "\<And>ix cs. ix \<noteq> k \<Longrightarrow> cached_as (ledger_view open_positions accs) ix cs \<Longrightarrow>
      cached_as (ledger_view open_positions accs1) ix cs"
  shows "accounts_wf (accs1\<lparr>acc_positions := (acc_positions accs1)[k := ps]\<rparr>)"
proof -
  let ?a = "accs1\<lparr>acc_positions := (acc_positions accs1)[k := ps]\<rparr>"
  have "symbol_synced ?a ix" if ix: "ix < length (acc_positions accs)" for ix
  proof (cases "ix = k")
    case True
    with k pos pend opn apart show ?thesis by (simp add: symbol_synced_def)
  next
    case False
    from wf ix have "symbol_synced accs ix" by (rule accounts_wf_synced)
    with False pos ix pend' opn' show ?thesis by (simp add: symbol_synced_def)
  qed
  with led known pos show ?thesis by (simp add: accounts_wf_def symbols_known_def)
qed

lemma symbols_known_upd:
  assumes "symbols_known accs" and "acc_positions accs1 = acc_positions accs"
    and "\<And>b v p. ledger_view pending_positions accs1 b v = Some p \<Longrightarrow>
      ledger_view pending_positions accs b v = Some p \<or> p_symbol_id p < length (acc_positions accs)"
    and "\<And>b v p. ledger_view open_positions accs1 b v = Some p \<Longrightarrow>
      ledger_view open_positions accs b v = Some p \<or> p_symbol_id p < length (acc_positions accs)"
  shows "symbols_known accs1"
  using assms(1,3,4) unfolding symbols_known_def assms(2) by blast

lemma accounts_wf_parts:
  assumes "accounts_wf accs"
  shows "ledgers_wf accs" and "symbols_known accs"
  using assms by (simp_all add: accounts_wf_def)

lemma symbol_synced_parts:
  assumes "symbol_synced accs ix"
  shows "cached_as (ledger_view pending_positions accs) ix (pending_cache (acc_positions accs ! ix))"
    and "cached_as (ledger_view open_positions accs) ix (open_cache (acc_positions accs ! ix))"
    and "cp_uuid ` set (pending_cache (acc_positions accs ! ix)) \<inter>
       cp_uuid ` set (open_cache (acc_positions accs ! ix)) = {}"
  using assms by (simp_all add: symbol_synced_def)

text \<open>
  In the rules below the account \<open>a\<close> gets the ledger \<open>l\<close>, and the operation on the cache
  follows: it returns, and the accounts are well formed again.
\<close>

lemma order_placed_wf:
  assumes wf: "accounts_wf accs" and get: "accounts_get accs a = Some acct"
    and fresh: "fresh_uuid u accs" and k: "p_symbol_id order < length (acc_positions accs)"
    and l: "ledger_wf l" "pending_positions l = (pending_positions (acct_ledger acct))(u \<mapsto> order)"
      "open_positions l = open_positions (acct_ledger acct)"
  shows "\<exists>ps. order_placed order u a (accounts_insert a (acct\<lparr>acct_ledger := l\<rparr>) accs) =
      Some ((accounts_insert a (acct\<lparr>acct_ledger := l\<rparr>) accs)\<lparr>acc_positions := ps\<rparr>) \<and>
    length ps = length (acc_positions accs) \<and>
    accounts_wf ((accounts_insert a (acct\<lparr>acct_ledger := l\<rparr>) accs)\<lparr>acc_positions := ps\<rparr>)"
proof -
  let ?k = "p_symbol_id order" and ?b = "accounts_insert a (acct\<lparr>acct_ledger := l\<rparr>) accs"
  let ?old = "acc_positions accs ! ?k"
  define ps where "ps = ?old\<lparr>pending_cache := pending_cache ?old @
    [\<lparr>cp_uuid = u, cp_acct = a, cp_pos = order\<rparr>]\<rparr>"
  note s = symbol_synced_parts [OF accounts_wf_synced [OF wf k]]
  have vp: "ledger_view pending_positions ?b = upd2 (ledger_view pending_positions accs) a u (Some order)"
    using get l(2) by (rule ledger_view_insert_upd)
  have vo: "ledger_view open_positions ?b = ledger_view open_positions accs"
    using get l(3) by (rule ledger_view_insert_same)
  have none: "ledger_view pending_positions accs b u = None" "ledger_view open_positions accs b u = None" for b
    using fresh_view [OF fresh] by auto
  note up = cached_as_fresh [OF s(1) none(1)] and uo = cached_as_fresh [OF s(2) none(2)]
  have "accounts_wf (?b\<lparr>acc_positions := (acc_positions ?b)[?k := ps]\<rparr>)"
  proof (rule accounts_wf_change [OF wf k])
    show "cached_as (ledger_view pending_positions ?b) ?k (pending_cache ps)"
      unfolding vp using cached_as_append [OF s(1) up none(1)] by (simp add: ps_def)
    show "cached_as (ledger_view open_positions ?b) ?k (open_cache ps)"
      using s(2) by (simp add: vo ps_def)
    show "cp_uuid ` set (pending_cache ps) \<inter> cp_uuid ` set (open_cache ps) = {}"
      using s(3) uo by (simp add: ps_def)
    show "symbols_known ?b"
      using accounts_wf_parts(2) [OF wf]
      by (rule symbols_known_upd) (auto simp: vp vo k split: if_splits)
    show "cached_as (ledger_view pending_positions ?b) ix cs"
      if "ix \<noteq> ?k" "cached_as (ledger_view pending_positions accs) ix cs" for ix cs
      unfolding vp using that none(1) by (intro cached_as_new_other) auto
  qed (simp_all add: vo ledgers_wf_insert [OF accounts_wf_parts(1) [OF wf] l(1)])
  then show ?thesis
    using k by (intro exI [of _ "(acc_positions ?b)[?k := ps]"])
      (simp add: order_placed_def with_positions_def ps_def)
qed

lemma position_opened_immediate_wf:
  assumes wf: "accounts_wf accs" and get: "accounts_get accs a = Some acct"
    and fresh: "fresh_uuid u accs" and k: "p_symbol_id pos < length (acc_positions accs)"
    and pos: "open_wf pos"
    and l: "ledger_wf l" "open_positions l = (open_positions (acct_ledger acct))(u \<mapsto> pos)"
      "pending_positions l = pending_positions (acct_ledger acct)"
  shows "\<exists>ps. position_opened_immediate pos u a (accounts_insert a (acct\<lparr>acct_ledger := l\<rparr>) accs) =
      Some ((accounts_insert a (acct\<lparr>acct_ledger := l\<rparr>) accs)\<lparr>acc_positions := ps\<rparr>) \<and>
    length ps = length (acc_positions accs) \<and>
    accounts_wf ((accounts_insert a (acct\<lparr>acct_ledger := l\<rparr>) accs)\<lparr>acc_positions := ps\<rparr>)"
proof -
  let ?k = "p_symbol_id pos" and ?b = "accounts_insert a (acct\<lparr>acct_ledger := l\<rparr>) accs"
  let ?old = "acc_positions accs ! ?k"
  define ps where "ps = ?old\<lparr>open_cache := open_cache ?old @
    [\<lparr>cp_uuid = u, cp_acct = a, cp_pos = pos\<rparr>]\<rparr>"
  note s = symbol_synced_parts [OF accounts_wf_synced [OF wf k]]
  have vo: "ledger_view open_positions ?b = upd2 (ledger_view open_positions accs) a u (Some pos)"
    using get l(2) by (rule ledger_view_insert_upd)
  have vp: "ledger_view pending_positions ?b = ledger_view pending_positions accs"
    using get l(3) by (rule ledger_view_insert_same)
  have none: "ledger_view pending_positions accs b u = None" "ledger_view open_positions accs b u = None" for b
    using fresh_view [OF fresh] by auto
  note up = cached_as_fresh [OF s(1) none(1)] and uo = cached_as_fresh [OF s(2) none(2)]
  have "accounts_wf (?b\<lparr>acc_positions := (acc_positions ?b)[?k := ps]\<rparr>)"
  proof (rule accounts_wf_change [OF wf k])
    show "cached_as (ledger_view open_positions ?b) ?k (open_cache ps)"
      unfolding vo using cached_as_append [OF s(2) uo none(2)] by (simp add: ps_def)
    show "cached_as (ledger_view pending_positions ?b) ?k (pending_cache ps)"
      using s(1) by (simp add: vp ps_def)
    show "cp_uuid ` set (pending_cache ps) \<inter> cp_uuid ` set (open_cache ps) = {}"
      using s(3) up by (simp add: ps_def)
    show "symbols_known ?b"
      using accounts_wf_parts(2) [OF wf]
      by (rule symbols_known_upd) (auto simp: vp vo k split: if_splits)
    show "cached_as (ledger_view open_positions ?b) ix cs"
      if "ix \<noteq> ?k" "cached_as (ledger_view open_positions accs) ix cs" for ix cs
      unfolding vo using that none(2) by (intro cached_as_new_other) auto
  qed (simp_all add: vp ledgers_wf_insert [OF accounts_wf_parts(1) [OF wf] l(1)])
  then show ?thesis
    using k pos by (intro exI [of _ "(acc_positions ?b)[?k := ps]"])
      (auto simp: position_opened_immediate_def with_positions_def ps_def open_wf_def)
qed

lemma order_modified_wf:
  assumes wf: "accounts_wf accs" and get: "accounts_get accs a = Some acct"
    and p: "pending_positions (acct_ledger acct) u = Some p" and sym: "p_symbol_id q = p_symbol_id p"
    and l: "ledger_wf l" "pending_positions l = (pending_positions (acct_ledger acct))(u \<mapsto> q)"
      "open_positions l = open_positions (acct_ledger acct)"
  shows "\<exists>ps. order_modified q u (accounts_insert a (acct\<lparr>acct_ledger := l\<rparr>) accs) =
      Some ((accounts_insert a (acct\<lparr>acct_ledger := l\<rparr>) accs)\<lparr>acc_positions := ps\<rparr>) \<and>
    length ps = length (acc_positions accs) \<and>
    accounts_wf ((accounts_insert a (acct\<lparr>acct_ledger := l\<rparr>) accs)\<lparr>acc_positions := ps\<rparr>)"
proof -
  let ?k = "p_symbol_id p" and ?b = "accounts_insert a (acct\<lparr>acct_ledger := l\<rparr>) accs"
  let ?old = "acc_positions accs ! ?k"
  define ps where "ps = ?old\<lparr>pending_cache := update_cached u q (pending_cache ?old)\<rparr>"
  have k: "?k < length (acc_positions accs)"
    using accounts_wf_known [OF wf get] p by blast
  note s = symbol_synced_parts [OF accounts_wf_synced [OF wf k]]
  have vp: "ledger_view pending_positions ?b = upd2 (ledger_view pending_positions accs) a u (Some q)"
    using get l(2) by (rule ledger_view_insert_upd)
  have vo: "ledger_view open_positions ?b = ledger_view open_positions accs"
    using get l(3) by (rule ledger_view_insert_same)
  have old: "ledger_view pending_positions accs a u = Some p"
    using p by (simp add: ledger_view_get [OF get])
  have "accounts_wf (?b\<lparr>acc_positions := (acc_positions ?b)[?k := ps]\<rparr>)"
  proof (rule accounts_wf_change [OF wf k])
    show "cached_as (ledger_view pending_positions ?b) ?k (pending_cache ps)"
      unfolding vp using cached_as_update [OF s(1) old refl sym] by (simp add: ps_def)
    show "cached_as (ledger_view open_positions ?b) ?k (open_cache ps)"
      using s(2) by (simp add: vo ps_def)
    show "cp_uuid ` set (pending_cache ps) \<inter> cp_uuid ` set (open_cache ps) = {}"
      using s(3) by (simp add: ps_def)
    show "symbols_known ?b"
      using accounts_wf_parts(2) [OF wf]
      by (rule symbols_known_upd) (auto simp: vp vo k sym split: if_splits)
    show "cached_as (ledger_view pending_positions ?b) ix cs"
      if "ix \<noteq> ?k" "cached_as (ledger_view pending_positions accs) ix cs" for ix cs
      unfolding vp using that old sym by (intro cached_as_upd_other) auto
  qed (simp_all add: vo ledgers_wf_insert [OF accounts_wf_parts(1) [OF wf] l(1)])
  then show ?thesis
    using k by (intro exI [of _ "(acc_positions ?b)[?k := ps]"])
      (simp add: order_modified_def with_positions_def ps_def sym)
qed

lemma position_modified_wf:
  assumes wf: "accounts_wf accs" and get: "accounts_get accs a = Some acct"
    and p: "open_positions (acct_ledger acct) u = Some p" and sym: "p_symbol_id q = p_symbol_id p"
    and l: "ledger_wf l" "open_positions l = (open_positions (acct_ledger acct))(u \<mapsto> q)"
      "pending_positions l = pending_positions (acct_ledger acct)"
  shows "\<exists>ps. position_modified q u (accounts_insert a (acct\<lparr>acct_ledger := l\<rparr>) accs) =
      Some ((accounts_insert a (acct\<lparr>acct_ledger := l\<rparr>) accs)\<lparr>acc_positions := ps\<rparr>) \<and>
    length ps = length (acc_positions accs) \<and>
    accounts_wf ((accounts_insert a (acct\<lparr>acct_ledger := l\<rparr>) accs)\<lparr>acc_positions := ps\<rparr>)"
proof -
  let ?k = "p_symbol_id p" and ?b = "accounts_insert a (acct\<lparr>acct_ledger := l\<rparr>) accs"
  let ?old = "acc_positions accs ! ?k"
  define ps where "ps = ?old\<lparr>open_cache := update_cached u q (open_cache ?old)\<rparr>"
  have k: "?k < length (acc_positions accs)"
    using accounts_wf_known [OF wf get] p by blast
  note s = symbol_synced_parts [OF accounts_wf_synced [OF wf k]]
  have vo: "ledger_view open_positions ?b = upd2 (ledger_view open_positions accs) a u (Some q)"
    using get l(2) by (rule ledger_view_insert_upd)
  have vp: "ledger_view pending_positions ?b = ledger_view pending_positions accs"
    using get l(3) by (rule ledger_view_insert_same)
  have old: "ledger_view open_positions accs a u = Some p"
    using p by (simp add: ledger_view_get [OF get])
  have "accounts_wf (?b\<lparr>acc_positions := (acc_positions ?b)[?k := ps]\<rparr>)"
  proof (rule accounts_wf_change [OF wf k])
    show "cached_as (ledger_view open_positions ?b) ?k (open_cache ps)"
      unfolding vo using cached_as_update [OF s(2) old refl sym] by (simp add: ps_def)
    show "cached_as (ledger_view pending_positions ?b) ?k (pending_cache ps)"
      using s(1) by (simp add: vp ps_def)
    show "cp_uuid ` set (pending_cache ps) \<inter> cp_uuid ` set (open_cache ps) = {}"
      using s(3) by (simp add: ps_def)
    show "symbols_known ?b"
      using accounts_wf_parts(2) [OF wf]
      by (rule symbols_known_upd) (auto simp: vp vo k sym split: if_splits)
    show "cached_as (ledger_view open_positions ?b) ix cs"
      if "ix \<noteq> ?k" "cached_as (ledger_view open_positions accs) ix cs" for ix cs
      unfolding vo using that old sym by (intro cached_as_upd_other) auto
  qed (simp_all add: vp ledgers_wf_insert [OF accounts_wf_parts(1) [OF wf] l(1)])
  then show ?thesis
    using k by (intro exI [of _ "(acc_positions ?b)[?k := ps]"])
      (simp add: position_modified_def with_positions_def ps_def sym)
qed

lemma order_cancelled_wf:
  assumes wf: "accounts_wf accs" and get: "accounts_get accs a = Some acct"
    and p: "pending_positions (acct_ledger acct) u = Some p"
    and l: "ledger_wf l" "pending_positions l = (pending_positions (acct_ledger acct))(u := None)"
      "open_positions l = open_positions (acct_ledger acct)"
  shows "\<exists>ps. order_cancelled u (p_symbol_id p) (accounts_insert a (acct\<lparr>acct_ledger := l\<rparr>) accs) =
      Some ((accounts_insert a (acct\<lparr>acct_ledger := l\<rparr>) accs)\<lparr>acc_positions := ps\<rparr>) \<and>
    length ps = length (acc_positions accs) \<and>
    accounts_wf ((accounts_insert a (acct\<lparr>acct_ledger := l\<rparr>) accs)\<lparr>acc_positions := ps\<rparr>)"
proof -
  let ?k = "p_symbol_id p" and ?b = "accounts_insert a (acct\<lparr>acct_ledger := l\<rparr>) accs"
  let ?old = "acc_positions accs ! ?k"
  have k: "?k < length (acc_positions accs)"
    using accounts_wf_known [OF wf get] p by blast
  note s = symbol_synced_parts [OF accounts_wf_synced [OF wf k]]
  have vp: "ledger_view pending_positions ?b = upd2 (ledger_view pending_positions accs) a u None"
    using get l(2) by (rule ledger_view_insert_upd)
  have vo: "ledger_view open_positions ?b = ledger_view open_positions accs"
    using get l(3) by (rule ledger_view_insert_same)
  have old: "ledger_view pending_positions accs a u = Some p"
    using p by (simp add: ledger_view_get [OF get])
  obtain cs where t: "take_cached u (pending_cache ?old) =
      Some (\<lparr>cp_uuid = u, cp_acct = a, cp_pos = p\<rparr>, cs)"
    and cs: "cached_as (upd2 (ledger_view pending_positions accs) a u None) ?k cs"
      "cp_uuid ` set cs \<subseteq> cp_uuid ` set (pending_cache ?old) - {u}"
    using cached_as_take [OF s(1) old refl] by blast
  define ps where "ps = ?old\<lparr>pending_cache := cs\<rparr>"
  have "accounts_wf (?b\<lparr>acc_positions := (acc_positions ?b)[?k := ps]\<rparr>)"
  proof (rule accounts_wf_change [OF wf k])
    show "cached_as (ledger_view pending_positions ?b) ?k (pending_cache ps)"
      unfolding vp using cs(1) by (simp add: ps_def)
    show "cached_as (ledger_view open_positions ?b) ?k (open_cache ps)"
      using s(2) by (simp add: vo ps_def)
    show "cp_uuid ` set (pending_cache ps) \<inter> cp_uuid ` set (open_cache ps) = {}"
      using s(3) cs(2) by (simp add: ps_def) blast
    show "symbols_known ?b"
      using accounts_wf_parts(2) [OF wf]
      by (rule symbols_known_upd) (auto simp: vp vo k split: if_splits)
    show "cached_as (ledger_view pending_positions ?b) ix cs"
      if "ix \<noteq> ?k" "cached_as (ledger_view pending_positions accs) ix cs" for ix cs
      unfolding vp using that old by (intro cached_as_del_other) auto
  qed (simp_all add: vo ledgers_wf_insert [OF accounts_wf_parts(1) [OF wf] l(1)])
  then show ?thesis
    using k t by (intro exI [of _ "(acc_positions ?b)[?k := ps]"])
      (simp add: order_cancelled_def with_positions_def ps_def)
qed

section \<open>The two changes a price tick makes\<close>

text \<open>The pending entry \<open>i\<close> of the symbol \<open>k\<close> is filled as \<open>q\<close>.\<close>

lemma cache_fill_wf:
  assumes wf: "accounts_wf accs" and k: "k < length (acc_positions accs)"
    and i: "i < length (pending_cache (acc_positions accs ! k))"
    and c: "pending_cache (acc_positions accs ! k) ! i = c"
    and get: "accounts_get accs (cp_acct c) = Some acct"
    and sym: "p_symbol_id q = k"
    and l: "ledger_wf l"
      "pending_positions l = (pending_positions (acct_ledger acct))(cp_uuid c := None)"
      "open_positions l = (open_positions (acct_ledger acct))(cp_uuid c \<mapsto> q)"
  shows "accounts_wf ((accounts_insert (cp_acct c) (acct\<lparr>acct_ledger := l\<rparr>) accs)\<lparr>acc_positions :=
    (acc_positions accs)[k := (acc_positions accs ! k)
      \<lparr>pending_cache := remove_nth i (pending_cache (acc_positions accs ! k)),
       open_cache := open_cache (acc_positions accs ! k) @ [c\<lparr>cp_pos := q\<rparr>]\<rparr>]\<rparr>)"
proof -
  let ?b = "accounts_insert (cp_acct c) (acct\<lparr>acct_ledger := l\<rparr>) accs"
  let ?old = "acc_positions accs ! k" and ?a = "cp_acct c" and ?u = "cp_uuid c"
  define ps where "ps = ?old\<lparr>pending_cache := remove_nth i (pending_cache ?old),
    open_cache := open_cache ?old @ [c\<lparr>cp_pos := q\<rparr>]\<rparr>"
  note s = symbol_synced_parts [OF accounts_wf_synced [OF wf k]]
  have vp: "ledger_view pending_positions ?b = upd2 (ledger_view pending_positions accs) ?a ?u None"
    using get l(2) by (rule ledger_view_insert_upd)
  have vo: "ledger_view open_positions ?b = upd2 (ledger_view open_positions accs) ?a ?u (Some q)"
    using get l(3) by (rule ledger_view_insert_upd)
  have cin: "c \<in> set (pending_cache ?old)" using i c by auto
  then have old: "ledger_view pending_positions accs ?a ?u = Some (cp_pos c)"
    and ck: "p_symbol_id (cp_pos c) = k" using cached_as_mem [OF s(1), of c] by auto
  then have none: "ledger_view open_positions accs ?a ?u = None"
    using accounts_wf_ledger [OF wf get] by (auto simp: ledger_view_get [OF get] dest: ledger_wf_apart)
  have u: "?u \<notin> cp_uuid ` set (open_cache ?old)" using cin s(3) by blast
  have c_eq: "c\<lparr>cp_pos := q\<rparr> = \<lparr>cp_uuid = ?u, cp_acct = ?a, cp_pos = q\<rparr>"
    by (simp add: cached_position_eq)
  note rem = cached_as_remove_nth [OF s(1) i c]
  have "accounts_wf (?b\<lparr>acc_positions := (acc_positions ?b)[k := ps]\<rparr>)"
  proof (rule accounts_wf_change [OF wf k])
    show "cached_as (ledger_view pending_positions ?b) k (pending_cache ps)"
      unfolding vp using rem(1) by (simp add: ps_def)
    show "cached_as (ledger_view open_positions ?b) k (open_cache ps)"
      unfolding vo using cached_as_append [OF s(2) u none sym] by (simp add: ps_def c_eq)
    show "cp_uuid ` set (pending_cache ps) \<inter> cp_uuid ` set (open_cache ps) = {}"
      using s(3) rem(2) by (auto simp: ps_def)
    show "symbols_known ?b"
      using accounts_wf_parts(2) [OF wf]
      by (rule symbols_known_upd) (auto simp: vp vo k sym split: if_splits)
    show "cached_as (ledger_view pending_positions ?b) ix cs"
      if "ix \<noteq> k" "cached_as (ledger_view pending_positions accs) ix cs" for ix cs
      unfolding vp using that old ck by (intro cached_as_del_other) auto
    show "cached_as (ledger_view open_positions ?b) ix cs"
      if "ix \<noteq> k" "cached_as (ledger_view open_positions accs) ix cs" for ix cs
      unfolding vo using that none sym by (intro cached_as_new_other) auto
  qed (simp_all add: ledgers_wf_insert [OF accounts_wf_parts(1) [OF wf] l(1)])
  then show ?thesis by (simp add: ps_def)
qed

text \<open>The open entry \<open>i\<close> of the symbol \<open>k\<close> is closed.\<close>

lemma cache_close_wf:
  assumes wf: "accounts_wf accs" and k: "k < length (acc_positions accs)"
    and i: "i < length (open_cache (acc_positions accs ! k))"
    and c: "open_cache (acc_positions accs ! k) ! i = c"
    and get: "accounts_get accs (cp_acct c) = Some acct"
    and l: "ledger_wf l" "pending_positions l = pending_positions (acct_ledger acct)"
      "open_positions l = (open_positions (acct_ledger acct))(cp_uuid c := None)"
  shows "accounts_wf ((accounts_insert (cp_acct c) (acct\<lparr>acct_ledger := l\<rparr>) accs)\<lparr>acc_positions :=
    (acc_positions accs)[k := (acc_positions accs ! k)
      \<lparr>open_cache := remove_nth i (open_cache (acc_positions accs ! k))\<rparr>]\<rparr>)"
proof -
  let ?b = "accounts_insert (cp_acct c) (acct\<lparr>acct_ledger := l\<rparr>) accs"
  let ?old = "acc_positions accs ! k" and ?a = "cp_acct c" and ?u = "cp_uuid c"
  define ps where "ps = ?old\<lparr>open_cache := remove_nth i (open_cache ?old)\<rparr>"
  note s = symbol_synced_parts [OF accounts_wf_synced [OF wf k]]
  have vp: "ledger_view pending_positions ?b = ledger_view pending_positions accs"
    using get l(2) by (rule ledger_view_insert_same)
  have vo: "ledger_view open_positions ?b = upd2 (ledger_view open_positions accs) ?a ?u None"
    using get l(3) by (rule ledger_view_insert_upd)
  have "c \<in> set (open_cache ?old)" using i c by auto
  then have old: "ledger_view open_positions accs ?a ?u = Some (cp_pos c)"
    and ck: "p_symbol_id (cp_pos c) = k" using cached_as_mem [OF s(2), of c] by auto
  note rem = cached_as_remove_nth [OF s(2) i c]
  have "accounts_wf (?b\<lparr>acc_positions := (acc_positions ?b)[k := ps]\<rparr>)"
  proof (rule accounts_wf_change [OF wf k])
    show "cached_as (ledger_view open_positions ?b) k (open_cache ps)"
      unfolding vo using rem(1) by (simp add: ps_def)
    show "cached_as (ledger_view pending_positions ?b) k (pending_cache ps)"
      using s(1) by (simp add: vp ps_def)
    show "cp_uuid ` set (pending_cache ps) \<inter> cp_uuid ` set (open_cache ps) = {}"
      using s(3) rem(2) by (auto simp: ps_def)
    show "symbols_known ?b"
      using accounts_wf_parts(2) [OF wf]
      by (rule symbols_known_upd) (auto simp: vp vo k split: if_splits)
    show "cached_as (ledger_view open_positions ?b) ix cs"
      if "ix \<noteq> k" "cached_as (ledger_view open_positions accs) ix cs" for ix cs
      unfolding vo using that old ck by (intro cached_as_del_other) auto
  qed (simp_all add: vp ledgers_wf_insert [OF accounts_wf_parts(1) [OF wf] l(1)])
  then show ?thesis by (simp add: ps_def)
qed

end
