(* ===== verification/Tg_SimInvariant.thy ===== *)
theory Tg_SimInvariant
  imports Tg_SimCache
begin

text \<open>
  The invariant of the simulated broker and the outcome of each of its operations. An
  outcome lemma lists what an operation can have done when it returned; the preservation
  lemmas follow from them and from the rules for the cache.
\<close>

text \<open>
  A vector holds fewer than \<open>2 ^ 63\<close> elements, and the names are indices into it. The name of
  an exchange rate has at least three characters; the precisions are such that no power of
  ten in a conversion wraps to zero.
\<close>

definition symbol_wf :: "symbol \<Rightarrow> bool" where
  "symbol_wf s \<longleftrightarrow> (sy_is_fx s \<longrightarrow> 3 \<le> length (sy_name s)) \<and> sy_decimal_precision s < 64"

definition symbols_wf :: "symbols \<Rightarrow> bool" where
  "symbols_wf ss \<longleftrightarrow> length (sy_data ss) < 2 ^ 63 \<and>
     (\<forall>name i. sy_hm ss name = Some i \<longrightarrow> i < length (sy_data ss)) \<and>
     (\<forall>s\<in>set (sy_data ss). symbol_wf s)"

definition broker_wf :: "'g sim_broker \<Rightarrow> bool" where
  "broker_wf sim \<longleftrightarrow> accounts_wf (sb_accounts sim) \<and> symbols_wf (sb_symbols sim) \<and>
     length (acc_positions (sb_accounts sim)) = length (sy_data (sb_symbols sim)) \<and>
     is_heap qi_timestamp (sb_pq sim)"

lemma broker_wf_accounts: "broker_wf sim \<Longrightarrow> accounts_wf (sb_accounts sim)"
  by (simp add: broker_wf_def)

lemma broker_wf_length:
  "broker_wf sim \<Longrightarrow> length (acc_positions (sb_accounts sim)) = length (sy_data (sb_symbols sim))"
  by (simp add: broker_wf_def)

lemma broker_wf_hm:
  "broker_wf sim \<Longrightarrow> sy_hm (sb_symbols sim) name = Some i \<Longrightarrow> i < length (sy_data (sb_symbols sim))"
  by (auto simp: broker_wf_def symbols_wf_def)

lemma broker_wf_prng [simp]: "broker_wf (sim\<lparr>sb_prng := g\<rparr>) = broker_wf sim"
  by (simp add: broker_wf_def)

lemma broker_wf_set_accounts:
  "broker_wf sim \<Longrightarrow> accounts_wf accs \<Longrightarrow> length (acc_positions accs) = length (acc_positions (sb_accounts sim)) \<Longrightarrow>
     broker_wf (sim\<lparr>sb_accounts := accs\<rparr>)"
  by (simp add: broker_wf_def)

lemma is_heap_sq_push: "is_heap qi_timestamp q \<Longrightarrow> is_heap qi_timestamp (sq_push x q)"
  unfolding sq_push_def by (rule heap.ok_push)

lemma broker_wf_push:
  "broker_wf sim \<Longrightarrow> broker_wf (sim\<lparr>sb_pq := sq_push x (sb_pq sim)\<rparr>)"
  by (simp add: broker_wf_def is_heap_sq_push)

lemma broker_wf_notify [wf_intros]:
  "broker_wf sim \<Longrightarrow> broker_wf (buying_power_changed a v sim)"
  unfolding buying_power_changed_def by (rule broker_wf_push)

section \<open>Prices and values\<close>

lemma not_word_of_nat_gt:
  assumes "n + m + 1 < 2 ^ 64"
  shows "not (word_of_nat n :: usize) > word_of_nat m"
proof -
  have "not (word_of_nat n :: usize) = - 1 - word_of_nat n"
    by (simp add: not_eq_complement)
  then have "unat (not (word_of_nat n :: usize)) = unat (- 1 :: usize) - unat (word_of_nat n :: usize)"
    by (simp add: unat_sub)
  then have "unat (not (word_of_nat n :: usize)) = 2 ^ 64 - 1 - n"
    using assms by (simp add: unsigned_of_nat take_bit_nat_eq_self unsigned_minus_1_eq_mask
        mask_eq_exp_minus_1)
  moreover have "unat (word_of_nat m :: usize) = m" using assms by (simp add: unsigned_of_nat take_bit_nat_eq_self)
  ultimately show ?thesis using assms by (simp add: word_less_nat_alt)
qed

lemma get_price_in_range:
  assumes "broker_wf sim" and "ix < length (sy_data (sb_symbols sim))"
  shows "get_price sim ix = Some (Some (sy_price (sy_data (sb_symbols sim) ! ix)))"
  using assms not_word_of_nat_gt [of "symbols_len (sb_symbols sim)" ix]
  by (simp add: get_price_def symbols_ix_def symbols_len_def broker_wf_def symbols_wf_def)

lemma pow10_nonzero: "k < 64 \<Longrightarrow> pow10 k \<noteq> 0"
proof -
  assume k: "k < 64"
  have "\<not> (2 :: nat) ^ 64 dvd 10 ^ k"
  proof
    assume "(2 :: nat) ^ 64 dvd 10 ^ k"
    then have "(2 :: nat) ^ 64 dvd 2 ^ k * 5 ^ k" by (simp flip: power_mult_distrib)
    moreover have "coprime ((2 :: nat) ^ 64) (5 ^ k)"
      by (simp only: coprime_power_left_iff coprime_power_right_iff coprime_left_2_iff_odd) simp
    ultimately have "(2 :: nat) ^ 64 dvd 2 ^ k" by (simp add: coprime_dvd_mult_left_iff)
    then have "(2 :: nat) ^ 64 \<le> 2 ^ k" by (rule dvd_imp_le) simp
    moreover have "(2 :: nat) ^ k < 2 ^ 64" using k by (rule power_strict_increasing) simp
    ultimately show False by linarith
  qed
  then have nz: "(word_of_nat (10 ^ k) :: usize) \<noteq> 0"
    unfolding word_of_nat_eq_0_iff by simp
  have "pow10 k = word_of_nat (10 ^ k)" using k by (simp add: pow10_def)
  with nz show "pow10 k \<noteq> 0" by simp
qed

lemma convert_decimals_returns:
  "i < 64 \<Longrightarrow> \<exists>v. convert_decimals p i j = Some v"
  by (auto simp: convert_decimals_def pow10_nonzero Let_def bind_Some_iff)

lemma symbols_wf_nth: "symbols_wf ss \<Longrightarrow> i < length (sy_data ss) \<Longrightarrow> symbol_wf (sy_data ss ! i)"
  by (simp add: symbols_wf_def)

lemma get_base_rate_returns:
  assumes "symbols_wf (sb_symbols sim)"
  shows "\<exists>r. get_base_rate sim c d = Some r"
proof -
  have named: "\<exists>s. symbols_named (sb_symbols sim) n = Some s \<and> sy_decimal_precision s < 64"
    if c: "symbols_contains (sb_symbols sim) n" for n
  proof -
    obtain i where "sy_hm (sb_symbols sim) n = Some i" using c by (auto simp: symbols_contains_def)
    moreover from this have "i < length (sy_data (sb_symbols sim))"
      using assms by (simp add: symbols_wf_def)
    ultimately show ?thesis
      using symbols_wf_nth [OF assms] by (auto simp: symbols_named_def symbol_wf_def)
  qed
  have rate: "\<exists>r. (do { s \<leftarrow> symbols_named (sb_symbols sim) n; let (_, ask, decimals) = symbol_get_price s;
      v \<leftarrow> convert_decimals ask decimals d; ret (Inr v) }) = Some (r :: broker_error + usize)"
    if c: "symbols_contains (sb_symbols sim) n" for n
  proof -
    obtain s where s: "symbols_named (sb_symbols sim) n = Some s" "sy_decimal_precision s < 64"
      using named [OF c] by blast
    obtain v where "convert_decimals (snd (sy_price s)) (sy_decimal_precision s) d = Some v"
      using convert_decimals_returns [OF s(2)] by blast
    with s show ?thesis by (simp add: symbol_get_price_def)
  qed
  show ?thesis
    unfolding get_base_rate_def Let_def
    using rate by (auto simp: Let_def)
qed

lemma get_position_value_returns:
  assumes wf: "broker_wf sim" and k: "p_symbol_id pos < length (sy_data (sb_symbols sim))"
  shows "\<exists>r. get_position_value sim pos = Some r"
proof -
  have ss: "symbols_wf (sb_symbols sim)" using wf by (simp add: broker_wf_def)
  have s: "symbol_wf (sy_data (sb_symbols sim) ! p_symbol_id pos)"
    using symbols_wf_nth [OF ss k] .
  obtain r where r: "get_base_rate sim (take 3 (sy_name (sy_data (sb_symbols sim) ! p_symbol_id pos)))
      (sy_decimal_precision (sy_data (sb_symbols sim) ! p_symbol_id pos)) = Some r"
    using get_base_rate_returns [OF ss] by blast
  show ?thesis
    using k s r by (simp add: get_position_value_def symbols_ix_def symbol_wf_def)
qed

lemma get_position_value_depends:
  assumes "p_symbol_id p = p_symbol_id q" and "p_size p = p_size q"
  shows "get_position_value sim p = get_position_value sim q"
  unfolding get_position_value_def assms ..

text \<open>Only the settings and the symbols matter for a value.\<close>

lemma get_position_value_cong:
  assumes "sb_symbols sim' = sb_symbols sim" and "sb_settings sim' = sb_settings sim"
  shows "get_position_value sim' pos = get_position_value sim pos"
  unfolding get_position_value_def get_base_rate_def assms ..

section \<open>Opening at the market\<close>

text \<open>The position a market order opens, and its ledger.\<close>

definition market_position ::
  "'g sim_broker \<Rightarrow> nat \<Rightarrow> bool \<Rightarrow> usize \<Rightarrow> usize option \<Rightarrow> usize option \<Rightarrow> usize \<Rightarrow> position" where
  "market_position sim ix long sz sl tp price =
     \<lparr>p_creation_time = sb_timestamp sim, p_symbol_id = ix, p_size = sz, p_price = Some price,
      p_long = long, p_stop = sl, p_take_profit = tp,
      p_execution_time = Some (sb_timestamp sim + execution_delay_ns (sb_settings sim)),
      p_execution_price = Some price, p_exit_price = None, p_exit_time = None\<rparr>"

definition limit_position ::
  "'g sim_broker \<Rightarrow> nat \<Rightarrow> bool \<Rightarrow> usize \<Rightarrow> usize option \<Rightarrow> usize option \<Rightarrow> usize \<Rightarrow> position" where
  "limit_position sim ix long sz sl tp price =
     \<lparr>p_creation_time = sb_timestamp sim, p_symbol_id = ix, p_size = sz, p_price = Some price,
      p_long = long, p_stop = sl, p_take_profit = tp, p_execution_time = None,
      p_execution_price = None, p_exit_price = None, p_exit_time = None\<rparr>"

lemma market_position_simps [simp]:
  "p_symbol_id (market_position sim ix long sz sl tp price) = ix"
  "open_wf (market_position sim ix long sz sl tp price)"
  "p_execution_time (market_position sim ix long sz sl tp price) =
     Some (sb_timestamp sim + execution_delay_ns (sb_settings sim))"
  "p_execution_price (market_position sim ix long sz sl tp price) = Some price"
  by (simp_all add: market_position_def open_wf_def)

lemma limit_position_simps [simp]:
  "p_symbol_id (limit_position sim ix long sz sl tp price) = ix"
  "pending_wf (limit_position sim ix long sz sl tp price)"
  "p_creation_time (limit_position sim ix long sz sl tp price) = sb_timestamp sim"
  "p_price (limit_position sim ix long sz sl tp price) = Some price"
  "p_execution_price (limit_position sim ix long sz sl tp price) = None"
  by (simp_all add: limit_position_def pending_wf_def)

lemma sim_prng_same [simp]: "sim\<lparr>sb_prng := sb_prng sim\<rparr> = sim"
  by simp

lemma ledger_open_position_market:
  "ledger_open_position l u (market_position sim ix long sz sl tp price) =
     Some (Inr (PositionOpened u (market_position sim ix long sz sl tp price)
        (sb_timestamp sim + execution_delay_ns (sb_settings sim))),
       l\<lparr>open_positions := (open_positions l)(u \<mapsto> market_position sim ix long sz sl tp price)\<rparr>)"
  by (simp add: ledger_open_position_def)

lemma market_open_cases:
  assumes run: "market_open rng a ix long sz sl tp mr sim = Some (r, sim')"
    and price: "get_price sim ix = Some (Some (bid, ask))"
  obtains (error) e g where "r = Inl e" "sim' = sim\<lparr>sb_prng := g\<rparr>"
  | (opened) acct v u g accs pos where
      "pos = market_position sim ix long sz sl tp (if long then ask else bid)"
      "sane_position pos" "get_position_value sim pos = Some (Inr v)"
      "gen_uuid rng (sb_prng sim) = (u, g)"
      "accounts_get (sb_accounts sim) a = Some acct" "v \<le> buying_power (acct_ledger acct)"
      "position_opened_immediate pos u a
         (accounts_insert a (acct\<lparr>acct_ledger := (acct_ledger acct)
            \<lparr>buying_power := buying_power (acct_ledger acct) - v,
             open_positions := (open_positions (acct_ledger acct))(u \<mapsto> pos)\<rparr>\<rparr>) (sb_accounts sim)) = Some accs"
      "r = Inr (PositionOpened u pos (sb_timestamp sim + execution_delay_ns (sb_settings sim)))"
      "sim' = buying_power_changed a (buying_power (acct_ledger acct) - v)
         (sim\<lparr>sb_prng := g, sb_accounts := accs\<rparr>)"
proof -
  define pos where "pos = market_position sim ix long sz sl tp (if long then ask else bid)"
  obtain u g where ug: "gen_uuid rng (sb_prng sim) = (u, g)" by fastforce
  note open_eq = ledger_open_position_market [where sim = sim and ix = ix and long = long and sz = sz
      and sl = sl and tp = tp and price = "if long then ask else bid", folded pos_def]
  note run = run [unfolded market_open_def price Option.bind.bind_lunit option.case prod.case Let_def
      market_position_def [symmetric], folded pos_def, unfolded ug prod.case]
  obtain sane where sane: "check_sanity pos = Some sane" using check_sanity_total by blast
  show ?thesis
  proof (cases sane)
    case (Inl e)
    then show ?thesis using run sane error [of e "sb_prng sim"] by simp
  next
    case (Inr x)
    then have ok: "sane_position pos" using sane check_sanity_iff by auto
    from run sane Inr obtain pv where v: "get_position_value sim pos = Some pv"
      by (auto simp: bind_Some_iff)
    show ?thesis
    proof (cases pv)
      case err: (Inl e)
      then show ?thesis using run sane Inr v error [of e "sb_prng sim"] by simp
    next
      case val: (Inr w)
      show ?thesis
      proof (cases "accounts_get (sb_accounts sim) a")
        case None
        then show ?thesis using run sane Inr v val error by auto
      next
        case (Some acct)
        then show ?thesis
          using run sane Inr v val error opened [OF pos_def ok _ ug Some]
          by (auto simp: open_eq bind_Some_iff set_ledger_def split: if_splits)
      qed
    qed
  qed
qed

lemma market_open_wf:
  assumes wf: "broker_wf sim" and ix: "ix < length (sy_data (sb_symbols sim))"
    and fresh: "fresh_uuid (fst (gen_uuid rng (sb_prng sim))) (sb_accounts sim)"
    and run: "market_open rng a ix long sz sl tp mr sim = Some (r, sim')"
  shows "broker_wf sim'"
proof -
  obtain bid ask where ba: "sy_price (sy_data (sb_symbols sim) ! ix) = (bid, ask)" by fastforce
  from run get_price_in_range [OF wf ix, unfolded ba] show ?thesis
  proof (cases rule: market_open_cases)
    case (error e g)
    with wf show ?thesis by simp
  next
    case (opened acct v u g accs pos)
    let ?l = "(acct_ledger acct)\<lparr>buying_power := buying_power (acct_ledger acct) - v,
      open_positions := (open_positions (acct_ledger acct))(u \<mapsto> pos)\<rparr>"
    have accs: "accounts_wf (sb_accounts sim)" using wf by (rule broker_wf_accounts)
    have u: "fresh_uuid u (sb_accounts sim)" using fresh opened by simp
    have pos: "open_wf pos" "p_symbol_id pos = ix" using opened by simp_all
    have k: "p_symbol_id pos < length (acc_positions (sb_accounts sim))"
      using ix pos broker_wf_length [OF wf] by simp
    have "unused_in u (acct_ledger acct)" using u opened by (simp add: fresh_uuid_def)
    then have l: "ledger_wf ?l"
      using accounts_wf_ledger [OF accs \<open>accounts_get (sb_accounts sim) a = Some acct\<close>] pos
      by (auto simp: ledger_wf_def unused_in_def)
    obtain ps where "accs = (accounts_insert a (acct\<lparr>acct_ledger := ?l\<rparr>) (sb_accounts sim))\<lparr>acc_positions := ps\<rparr>"
      "length ps = length (acc_positions (sb_accounts sim))" "accounts_wf accs"
      using position_opened_immediate_wf [OF accs \<open>accounts_get (sb_accounts sim) a = Some acct\<close> u k pos(1) l]
        opened by auto
    with opened wf show ?thesis by (auto intro!: broker_wf_notify broker_wf_set_accounts)
  qed
qed

section \<open>Placing an order\<close>

lemma set_ledger_same:
  "accounts_get (sb_accounts sim) a = Some acct \<Longrightarrow> set_ledger a acct (acct_ledger acct) sim = sim"
  by (simp add: set_ledger_def accounts_insert_def accounts_get_def hm_insert_same)

text \<open>An order its price does not open at once: refused, or charged and left pending.\<close>

lemma place_order_resting:
  assumes run: "place_order rng a ix price long sz sl tp sim = Some (r, sim')"
    and p: "get_price sim ix = Some (Some (bid, ask))"
    and pos: "pos = limit_position sim ix long sz sl tp price"
    and ok: "check_sanity pos = Some (Inr x)" and sat: "is_open_satisfied pos bid ask = Some None"
    and ug: "gen_uuid rng (sb_prng sim) = (u, g)"
  obtains (error) e g where "r = Inl e" "sim' = sim\<lparr>sb_prng := g\<rparr>"
  | (placed) acct v accs acct' where
      "get_position_value sim pos = Some (Inr v)"
      "accounts_get (sb_accounts sim) a = Some acct" "v \<le> buying_power (acct_ledger acct)"
      "order_placed pos u a
         (accounts_insert a (acct\<lparr>acct_ledger := (acct_ledger acct)
            \<lparr>buying_power := buying_power (acct_ledger acct) - v,
             pending_positions := (pending_positions (acct_ledger acct))(u \<mapsto> pos)\<rparr>\<rparr>) (sb_accounts sim)) = Some accs"
      "r = Inr (OrderPlaced u pos (sb_timestamp sim))" "accounts_get accs a = Some acct'"
      "sim' = buying_power_changed a (buying_power (acct_ledger acct')) (sim\<lparr>sb_prng := g, sb_accounts := accs\<rparr>)"
proof -
  note run = run [unfolded place_order_def p Option.bind.bind_lunit option.case prod.case Let_def
      limit_position_def [symmetric], folded pos, unfolded ug prod.case]
  obtain pv where v: "get_position_value sim pos = Some pv"
    using run ok sat by (auto simp: bind_Some_iff)
  show ?thesis
  proof (cases pv)
    case (Inl e)
    then show ?thesis using run ok sat v error [of e "sb_prng sim"] by simp
  next
    case val: (Inr w)
    show ?thesis
    proof (cases "accounts_get (sb_accounts sim) a")
      case None
      then show ?thesis using run ok sat v val error [of NoSuchAccount "sb_prng sim"] by simp
    next
      case (Some acct)
      have created: "p_creation_time pos = sb_timestamp sim" by (simp add: pos)
      show ?thesis
      proof (cases "buying_power (acct_ledger acct) < w")
        case True
        then show ?thesis
          using run ok sat v val Some error [of InsufficientBuyingPower g]
          by (simp add: ledger_place_order_def set_ledger_same)
      next
        case False
        with run ok sat v val Some created show ?thesis
          by (auto simp: bind_Some_iff set_ledger_def ledger_place_order_def intro!: placed)
      qed
    qed
  qed
qed

lemma place_order_cases:
  assumes run: "place_order rng a ix price long sz sl tp sim = Some (r, sim')"
    and p: "get_price sim ix = Some (Some (bid, ask))"
  obtains (error) e g where "r = Inl e" "sim' = sim\<lparr>sb_prng := g\<rparr>"
  | (filled) "sane_position (limit_position sim ix long sz sl tp price)"
      "long \<and> ask \<le> price \<or> price \<le> bid"
      "market_open rng a ix long sz sl tp (Some 0) sim = Some (r, sim')"
  | (placed) acct v u g accs pos where
      "pos = limit_position sim ix long sz sl tp price"
      "sane_position pos" "bid < price" "long \<longrightarrow> price < ask"
      "get_position_value sim pos = Some (Inr v)"
      "gen_uuid rng (sb_prng sim) = (u, g)"
      "accounts_get (sb_accounts sim) a = Some acct" "v \<le> buying_power (acct_ledger acct)"
      "order_placed pos u a
         (accounts_insert a (acct\<lparr>acct_ledger := (acct_ledger acct)
            \<lparr>buying_power := buying_power (acct_ledger acct) - v,
             pending_positions := (pending_positions (acct_ledger acct))(u \<mapsto> pos)\<rparr>\<rparr>) (sb_accounts sim)) = Some accs"
      "r = Inr (OrderPlaced u pos (sb_timestamp sim))"
      "\<exists>acct'. accounts_get accs a = Some acct' \<and>
         sim' = buying_power_changed a (buying_power (acct_ledger acct')) (sim\<lparr>sb_prng := g, sb_accounts := accs\<rparr>)"
proof -
  define pos where "pos = limit_position sim ix long sz sl tp price"
  obtain u g where ug: "gen_uuid rng (sb_prng sim) = (u, g)" by fastforce
  note run' = run [unfolded place_order_def p Option.bind.bind_lunit option.case prod.case Let_def
      limit_position_def [symmetric], folded pos_def, unfolded ug prod.case]
  obtain sane where sane: "check_sanity pos = Some sane" using check_sanity_total by blast
  have sat: "is_open_satisfied pos bid ask =
      Some (if long \<and> ask \<le> price then Some ask else if price \<le> bid then Some bid else None)"
    using is_open_satisfied_pending [of pos bid ask] by (simp add: pos_def) (simp add: limit_position_def)
  show ?thesis
  proof (cases sane)
    case (Inl e)
    then show ?thesis using run' sane error [of e "sb_prng sim"] by simp
  next
    case (Inr x)
    then have ok: "sane_position pos" using sane check_sanity_iff by auto
    show ?thesis
    proof (cases "long \<and> ask \<le> price \<or> price \<le> bid")
      case True
      then have "market_open rng a ix long sz sl tp (Some 0) sim = Some (r, sim')"
        using run' sane Inr sat by (auto split: if_splits)
      with True ok filled show ?thesis by (simp add: pos_def)
    next
      case False
      then have apart: "bid < price" "long \<longrightarrow> price < ask" by auto
      from False sat have sat: "is_open_satisfied pos bid ask = Some None" by auto
      from run p pos_def sane [unfolded Inr] sat ug show ?thesis
      proof (cases rule: place_order_resting)
        case (placed acct v accs acct')
        then show ?thesis using that(3) [OF pos_def ok apart _ ug] by blast
      qed (rule error)
    qed
  qed
qed

lemma place_order_wf:
  assumes wf: "broker_wf sim" and ix: "ix < length (sy_data (sb_symbols sim))"
    and fresh: "fresh_uuid (fst (gen_uuid rng (sb_prng sim))) (sb_accounts sim)"
    and run: "place_order rng a ix price long sz sl tp sim = Some (r, sim')"
  shows "broker_wf sim'"
proof -
  obtain bid ask where ba: "sy_price (sy_data (sb_symbols sim) ! ix) = (bid, ask)" by fastforce
  from run get_price_in_range [OF wf ix, unfolded ba] show ?thesis
  proof (cases rule: place_order_cases)
    case (error e g)
    with wf show ?thesis by simp
  next
    case filled
    then show ?thesis using market_open_wf [OF wf ix fresh] by blast
  next
    case (placed acct v u g accs pos)
    let ?l = "(acct_ledger acct)\<lparr>buying_power := buying_power (acct_ledger acct) - v,
      pending_positions := (pending_positions (acct_ledger acct))(u \<mapsto> pos)\<rparr>"
    have accs: "accounts_wf (sb_accounts sim)" using wf by (rule broker_wf_accounts)
    have u: "fresh_uuid u (sb_accounts sim)" using fresh placed by simp
    have k: "p_symbol_id pos < length (acc_positions (sb_accounts sim))"
      using ix placed(1) broker_wf_length [OF wf] by simp
    have "unused_in u (acct_ledger acct)" using u placed(7) by (simp add: fresh_uuid_def)
    then have l: "ledger_wf ?l"
      using accounts_wf_ledger [OF accs placed(7)] placed(1)
      by (auto simp: ledger_wf_def unused_in_def)
    obtain ps where "accs = (accounts_insert a (acct\<lparr>acct_ledger := ?l\<rparr>) (sb_accounts sim))\<lparr>acc_positions := ps\<rparr>"
      "length ps = length (acc_positions (sb_accounts sim))" "accounts_wf accs"
      using order_placed_wf [OF accs placed(7) u k l] placed(9) by auto
    with placed(11) wf show ?thesis by (auto intro!: broker_wf_notify broker_wf_set_accounts)
  qed
qed

section \<open>Changing and cancelling an order\<close>

text \<open>
  An order the market would fill: the branch of \<open>modify_order\<close> that opens it panics, as
  the copy of the order it opens has no execution time.
\<close>

definition marketable :: "'g sim_broker \<Rightarrow> position \<Rightarrow> bool" where
  "marketable sim p \<longleftrightarrow>
     (case sy_price (sy_data (sb_symbols sim) ! p_symbol_id p) of (bid, ask) \<Rightarrow>
        p_long p \<and> ask \<le> the (p_price p) \<or> the (p_price p) \<le> bid)"

lemma accounts_symbol_range:
  assumes wf: "broker_wf sim" and get: "accounts_get (sb_accounts sim) a = Some acct"
    and p: "pending_positions (acct_ledger acct) u = Some p \<or> open_positions (acct_ledger acct) u = Some p"
  shows "p_symbol_id p < length (sy_data (sb_symbols sim))"
  using accounts_wf_known [OF broker_wf_accounts [OF wf] get p] broker_wf_length [OF wf] by simp

text \<open>What a modified order looks like.\<close>

definition reordered ::
  "position \<Rightarrow> usize \<Rightarrow> usize \<Rightarrow> usize option \<Rightarrow> usize option \<Rightarrow> position" where
  "reordered p sz price sl tp = p\<lparr>p_size := sz, p_price := Some price, p_stop := sl, p_take_profit := tp\<rparr>"

lemma reordered_simps [simp]:
  "p_symbol_id (reordered p sz price sl tp) = p_symbol_id p"
  "pending_wf p \<Longrightarrow> pending_wf (reordered p sz price sl tp)"
  by (simp_all add: reordered_def pending_wf_def)

lemma modify_order_eq:
  assumes wf: "broker_wf sim" and get: "accounts_get (sb_accounts sim) a = Some acct"
    and p: "pending_positions (acct_ledger acct) u = Some p"
  shows "modify_order a u sz price sl tp sim =
    (if marketable sim p then None
     else do {
       let q = reordered p sz price sl tp;
       let l = (acct_ledger acct)\<lparr>pending_positions := (pending_positions (acct_ledger acct))(u \<mapsto> q)\<rparr>;
       accs \<leftarrow> order_modified q u (accounts_insert a (acct\<lparr>acct_ledger := l\<rparr>) (sb_accounts sim));
       ret (Inr (OrderModified u q (sb_timestamp sim)), sim\<lparr>sb_accounts := accs\<rparr>)
     })"
proof -
  let ?k = "p_symbol_id p"
  obtain bid ask where ba: "sy_price (sy_data (sb_symbols sim) ! ?k) = (bid, ask)" by fastforce
  have k: "?k < length (sy_data (sb_symbols sim))" using accounts_symbol_range [OF wf get] p by blast
  note price = get_price_in_range [OF wf k, unfolded ba]
  have pw: "pending_wf p"
    using ledger_wf_pending [OF accounts_wf_ledger [OF broker_wf_accounts [OF wf] get] p] .
  then have none: "p_execution_time p = None" by (simp add: pending_wf_def)
  show ?thesis
  proof (cases "marketable sim p")
    case True
    then show ?thesis
      using pw none by (auto simp: modify_order_def get p price is_open_satisfied_pending marketable_def ba
          ledger_open_position_def Let_def)
  next
    case False
    then show ?thesis
      using pw by (auto simp: modify_order_def get p price is_open_satisfied_pending marketable_def ba
          ledger_modify_order_def Let_def reordered_def set_ledger_def)
  qed
qed

lemma modify_order_step:
  assumes wf: "broker_wf sim" and get: "accounts_get (sb_accounts sim) a = Some acct"
    and p: "pending_positions (acct_ledger acct) u = Some p" and m: "\<not> marketable sim p"
  obtains ps where "modify_order a u sz price sl tp sim =
      Some (Inr (OrderModified u (reordered p sz price sl tp) (sb_timestamp sim)),
        sim\<lparr>sb_accounts := (accounts_insert a (acct\<lparr>acct_ledger := (acct_ledger acct)
          \<lparr>pending_positions := (pending_positions (acct_ledger acct))(u \<mapsto> reordered p sz price sl tp)\<rparr>\<rparr>)
          (sb_accounts sim))\<lparr>acc_positions := ps\<rparr>\<rparr>)"
    "broker_wf (sim\<lparr>sb_accounts := (accounts_insert a (acct\<lparr>acct_ledger := (acct_ledger acct)
          \<lparr>pending_positions := (pending_positions (acct_ledger acct))(u \<mapsto> reordered p sz price sl tp)\<rparr>\<rparr>)
          (sb_accounts sim))\<lparr>acc_positions := ps\<rparr>\<rparr>)"
proof -
  let ?q = "reordered p sz price sl tp"
  let ?l = "(acct_ledger acct)\<lparr>pending_positions := (pending_positions (acct_ledger acct))(u \<mapsto> ?q)\<rparr>"
  have accs: "accounts_wf (sb_accounts sim)" using wf by (rule broker_wf_accounts)
  have lw: "ledger_wf (acct_ledger acct)" using accounts_wf_ledger [OF accs get] .
  then have "ledger_wf ?l"
    using ledger_wf_pending [OF lw p] p by (auto simp: ledger_wf_def)
  then obtain ps where
    "order_modified ?q u (accounts_insert a (acct\<lparr>acct_ledger := ?l\<rparr>) (sb_accounts sim)) =
       Some ((accounts_insert a (acct\<lparr>acct_ledger := ?l\<rparr>) (sb_accounts sim))\<lparr>acc_positions := ps\<rparr>)"
    "length ps = length (acc_positions (sb_accounts sim))"
    "accounts_wf ((accounts_insert a (acct\<lparr>acct_ledger := ?l\<rparr>) (sb_accounts sim))\<lparr>acc_positions := ps\<rparr>)"
    using order_modified_wf [OF accs get p, of ?q ?l] by auto
  with wf m show ?thesis
    by (intro that [of ps]) (simp_all add: modify_order_eq [OF wf get p] broker_wf_set_accounts Let_def)
qed

lemma modify_order_wf:
  assumes wf: "broker_wf sim" and run: "modify_order a u sz price sl tp sim = Some (r, sim')"
  shows "broker_wf sim'"
proof (cases "\<exists>acct p. accounts_get (sb_accounts sim) a = Some acct \<and>
    pending_positions (acct_ledger acct) u = Some p")
  case True
  then obtain acct p where get: "accounts_get (sb_accounts sim) a = Some acct"
    and p: "pending_positions (acct_ledger acct) u = Some p" by blast
  have m: "\<not> marketable sim p" using run modify_order_eq [OF wf get p] by auto
  show ?thesis using modify_order_step [OF wf get p m] run by (metis option.inject prod.inject)
next
  case False
  with run wf show ?thesis by (auto simp: modify_order_def split: option.splits)
qed

lemma cancel_order_step:
  assumes wf: "broker_wf sim" and get: "accounts_get (sb_accounts sim) a = Some acct"
    and p: "pending_positions (acct_ledger acct) u = Some p"
  obtains ps where "cancel_order a u sim =
      Some (Inr (OrderCancelled u p (sb_timestamp sim)),
        buying_power_changed a (buying_power (acct_ledger acct))
          (sim\<lparr>sb_accounts := (accounts_insert a (acct\<lparr>acct_ledger := (acct_ledger acct)
            \<lparr>pending_positions := (pending_positions (acct_ledger acct))(u := None)\<rparr>\<rparr>)
            (sb_accounts sim))\<lparr>acc_positions := ps\<rparr>\<rparr>))"
    "broker_wf (sim\<lparr>sb_accounts := (accounts_insert a (acct\<lparr>acct_ledger := (acct_ledger acct)
            \<lparr>pending_positions := (pending_positions (acct_ledger acct))(u := None)\<rparr>\<rparr>)
            (sb_accounts sim))\<lparr>acc_positions := ps\<rparr>\<rparr>)"
proof -
  let ?l = "(acct_ledger acct)\<lparr>pending_positions := (pending_positions (acct_ledger acct))(u := None)\<rparr>"
  have accs: "accounts_wf (sb_accounts sim)" using wf by (rule broker_wf_accounts)
  have "ledger_wf ?l"
    using accounts_wf_ledger [OF accs get] by (auto simp: ledger_wf_def)
  then obtain ps where
    "order_cancelled u (p_symbol_id p) (accounts_insert a (acct\<lparr>acct_ledger := ?l\<rparr>) (sb_accounts sim)) =
       Some ((accounts_insert a (acct\<lparr>acct_ledger := ?l\<rparr>) (sb_accounts sim))\<lparr>acc_positions := ps\<rparr>)"
    "length ps = length (acc_positions (sb_accounts sim))"
    "accounts_wf ((accounts_insert a (acct\<lparr>acct_ledger := ?l\<rparr>) (sb_accounts sim))\<lparr>acc_positions := ps\<rparr>)"
    using order_cancelled_wf [OF accs get p, of ?l] by auto
  with wf show ?thesis
    by (intro that [of ps]) (simp_all add: cancel_order_def get p ledger_cancel_order_def
        broker_wf_set_accounts Let_def set_ledger_def)
qed

lemma cancel_order_wf:
  assumes wf: "broker_wf sim" and run: "cancel_order a u sim = Some (r, sim')"
  shows "broker_wf sim'"
proof (cases "\<exists>acct p. accounts_get (sb_accounts sim) a = Some acct \<and>
    pending_positions (acct_ledger acct) u = Some p")
  case True
  then obtain acct p where get: "accounts_get (sb_accounts sim) a = Some acct"
    and p: "pending_positions (acct_ledger acct) u = Some p" by blast
  show ?thesis
    using cancel_order_step [OF wf get p] run by (metis option.inject prod.inject broker_wf_notify)
next
  case False
  with run wf show ?thesis
    by (auto simp: cancel_order_def ledger_cancel_order_def set_ledger_same Let_def
        split: option.splits)
qed

section \<open>Changing a position\<close>

definition restopped :: "position \<Rightarrow> usize option option \<Rightarrow> usize option option \<Rightarrow> position" where
  "restopped p sl tp =
     (let q = (case sl of Some v \<Rightarrow> p\<lparr>p_stop := v\<rparr> | None \<Rightarrow> p)
      in case tp of Some v \<Rightarrow> q\<lparr>p_take_profit := v\<rparr> | None \<Rightarrow> q)"

lemma restopped_simps [simp]:
  "p_symbol_id (restopped p sl tp) = p_symbol_id p"
  "open_wf p \<Longrightarrow> open_wf (restopped p sl tp)"
  by (simp_all add: restopped_def Let_def open_wf_def split: option.splits)

lemma modify_position_step:
  assumes wf: "broker_wf sim" and get: "accounts_get (sb_accounts sim) a = Some acct"
    and p: "open_positions (acct_ledger acct) u = Some p"
  obtains ps where "modify_position a u sl tp sim =
      Some (Inr (PositionModified u (restopped p sl tp) (sb_timestamp sim)),
        sim\<lparr>sb_accounts := (accounts_insert a (acct\<lparr>acct_ledger := (acct_ledger acct)
          \<lparr>open_positions := (open_positions (acct_ledger acct))(u \<mapsto> restopped p sl tp)\<rparr>\<rparr>)
          (sb_accounts sim))\<lparr>acc_positions := ps\<rparr>\<rparr>)"
    "broker_wf (sim\<lparr>sb_accounts := (accounts_insert a (acct\<lparr>acct_ledger := (acct_ledger acct)
          \<lparr>open_positions := (open_positions (acct_ledger acct))(u \<mapsto> restopped p sl tp)\<rparr>\<rparr>)
          (sb_accounts sim))\<lparr>acc_positions := ps\<rparr>\<rparr>)"
proof -
  let ?q = "restopped p sl tp"
  let ?l = "(acct_ledger acct)\<lparr>open_positions := (open_positions (acct_ledger acct))(u \<mapsto> ?q)\<rparr>"
  have accs: "accounts_wf (sb_accounts sim)" using wf by (rule broker_wf_accounts)
  have lw: "ledger_wf (acct_ledger acct)" using accounts_wf_ledger [OF accs get] .
  then have "ledger_wf ?l"
    using ledger_wf_open [OF lw p] p by (auto simp: ledger_wf_def)
  then obtain ps where
    "position_modified ?q u (accounts_insert a (acct\<lparr>acct_ledger := ?l\<rparr>) (sb_accounts sim)) =
       Some ((accounts_insert a (acct\<lparr>acct_ledger := ?l\<rparr>) (sb_accounts sim))\<lparr>acc_positions := ps\<rparr>)"
    "length ps = length (acc_positions (sb_accounts sim))"
    "accounts_wf ((accounts_insert a (acct\<lparr>acct_ledger := ?l\<rparr>) (sb_accounts sim))\<lparr>acc_positions := ps\<rparr>)"
    using position_modified_wf [OF accs get p, of ?q ?l] by auto
  with wf show ?thesis
    by (intro that [of ps]) (simp_all add: modify_position_def get p ledger_modify_position_def
        restopped_def broker_wf_set_accounts Let_def set_ledger_def)
qed

lemma modify_position_wf:
  assumes wf: "broker_wf sim" and run: "modify_position a u sl tp sim = Some (r, sim')"
  shows "broker_wf sim'"
proof (cases "\<exists>acct p. accounts_get (sb_accounts sim) a = Some acct \<and>
    open_positions (acct_ledger acct) u = Some p")
  case True
  then obtain acct p where get: "accounts_get (sb_accounts sim) a = Some acct"
    and p: "open_positions (acct_ledger acct) u = Some p" by blast
  show ?thesis
    using modify_position_step [OF wf get p] run by (metis option.inject prod.inject)
next
  case False
  with run wf show ?thesis
    by (auto simp: modify_position_def ledger_modify_position_def set_ledger_same Let_def
        split: option.splits)
qed

section \<open>Every action\<close>

definition is_market_close :: "broker_action \<Rightarrow> bool" where
  "is_market_close cmd = (case cmd of TradingAction _ (MarketClose _ _) \<Rightarrow> True | _ \<Rightarrow> False)"

text \<open>The uuid the broker would give next is new to all ledgers.\<close>

definition next_uuid_fresh :: "'g rng \<Rightarrow> 'g sim_broker \<Rightarrow> bool" where
  "next_uuid_fresh rng sim \<longleftrightarrow> fresh_uuid (fst (gen_uuid rng (sb_prng sim))) (sb_accounts sim)"

lemma exec_trading_action_wf:
  assumes wf: "broker_wf sim" and fresh: "next_uuid_fresh rng sim"
    and run: "exec_trading_action rng a act sim = Some (r, sim')"
    and mc: "\<And>u sz. act \<noteq> MarketClose u sz"
  shows "broker_wf sim'"
proof -
  note fresh = fresh [unfolded next_uuid_fresh_def]
  have ix: "ix < length (sy_data (sb_symbols sim))" if "get_index (sb_symbols sim) n = Some ix" for n ix
    using that broker_wf_hm [OF wf] by (simp add: get_index_def)
  show ?thesis
    using run wf mc
    by (cases act)
      (auto split: option.splits dest: ix modify_order_wf [OF wf] cancel_order_wf [OF wf]
        modify_position_wf [OF wf] market_open_wf [OF wf ix fresh] place_order_wf [OF wf ix fresh])
qed

lemma exec_action_wf:
  assumes wf: "broker_wf sim" and fresh: "next_uuid_fresh rng sim"
    and run: "exec_action rng cmd sim = Some (r, sim')" and mc: "\<not> is_market_close cmd"
  shows "broker_wf sim'"
proof (cases cmd)
  case (TradingAction a act)
  have "act \<noteq> MarketClose u sz" for u sz using mc TradingAction by (auto simp: is_market_close_def)
  with exec_trading_action_wf [OF wf fresh, of a act r sim'] run TradingAction show ?thesis by simp
qed (use run wf in \<open>auto split: option.splits\<close>)

section \<open>Which actions return\<close>

lemma position_opened_immediate_returns:
  "open_wf pos \<Longrightarrow> p_symbol_id pos < length (acc_positions accs) \<Longrightarrow>
     \<exists>accs'. position_opened_immediate pos u a accs = Some accs'"
  by (auto simp: position_opened_immediate_def with_positions_def open_wf_def)

lemma order_placed_returns:
  "p_symbol_id pos < length (acc_positions accs) \<Longrightarrow>
     \<exists>ps. order_placed pos u a accs = Some (accs\<lparr>acc_positions := ps\<rparr>)"
  by (auto simp: order_placed_def with_positions_def)

lemma market_open_returns:
  assumes wf: "broker_wf sim" and ix: "ix < length (sy_data (sb_symbols sim))"
  shows "\<exists>r sim'. market_open rng a ix long sz sl tp mr sim = Some (r, sim')"
proof -
  obtain bid ask where ba: "sy_price (sy_data (sb_symbols sim) ! ix) = (bid, ask)" by fastforce
  note price = get_price_in_range [OF wf ix, unfolded ba]
  define pos where "pos = market_position sim ix long sz sl tp (if long then ask else bid)"
  obtain u g where ug: "gen_uuid rng (sb_prng sim) = (u, g)" by fastforce
  note open_eq = ledger_open_position_market [where sim = sim and ix = ix and long = long and sz = sz
      and sl = sl and tp = tp and price = "if long then ask else bid", folded pos_def]
  obtain sane where sane: "check_sanity pos = Some sane" using check_sanity_total by blast
  have pos: "open_wf pos" "p_symbol_id pos = ix" by (simp_all add: pos_def)
  obtain v where v: "get_position_value sim pos = Some v"
    using get_position_value_returns [OF wf, of pos] ix pos by auto
  have k: "ix < length (acc_positions (sb_accounts sim))" using ix broker_wf_length [OF wf] by simp
  have "\<forall>acct. \<exists>x. position_opened_immediate pos u a
      (accounts_insert a acct (sb_accounts sim)) = Some x"
    using position_opened_immediate_returns [OF pos(1)] pos(2) k by simp
  then obtain F where opened: "\<And>acct. position_opened_immediate pos u a
      (accounts_insert a acct (sb_accounts sim)) = Some (F acct)"
    by metis
  show ?thesis
    unfolding market_open_def price Option.bind.bind_lunit option.case prod.case Let_def
      market_position_def [symmetric] pos_def [symmetric] ug
    by (auto simp: sane v open_eq opened set_ledger_def split: sum.splits option.splits)
qed

lemma place_order_returns:
  assumes wf: "broker_wf sim" and ix: "ix < length (sy_data (sb_symbols sim))"
  shows "\<exists>r sim'. place_order rng a ix price long sz sl tp sim = Some (r, sim')"
proof -
  obtain bid ask where ba: "sy_price (sy_data (sb_symbols sim) ! ix) = (bid, ask)" by fastforce
  note gp = get_price_in_range [OF wf ix, unfolded ba]
  define pos where "pos = limit_position sim ix long sz sl tp price"
  obtain u g where ug: "gen_uuid rng (sb_prng sim) = (u, g)" by fastforce
  obtain sane where sane: "check_sanity pos = Some sane" using check_sanity_total by blast
  have pos: "pending_wf pos" "p_symbol_id pos = ix" by (simp_all add: pos_def)
  obtain sat where sat: "is_open_satisfied pos bid ask = Some sat"
    using is_open_satisfied_pending [OF pos(1)] by blast
  obtain v where v: "get_position_value sim pos = Some v"
    using get_position_value_returns [OF wf, of pos] ix pos by auto
  have k: "ix < length (acc_positions (sb_accounts sim))" using ix broker_wf_length [OF wf] by simp
  have "\<forall>acct. \<exists>ps. order_placed pos u a (accounts_insert a acct (sb_accounts sim)) =
      Some ((accounts_insert a acct (sb_accounts sim))\<lparr>acc_positions := ps\<rparr>)"
    using order_placed_returns [of pos] pos(2) k by simp
  then obtain F where placed: "\<And>acct. order_placed pos u a (accounts_insert a acct (sb_accounts sim)) =
      Some ((accounts_insert a acct (sb_accounts sim))\<lparr>acc_positions := F acct\<rparr>)"
    by metis
  show ?thesis
    unfolding place_order_def gp Option.bind.bind_lunit option.case prod.case Let_def
      limit_position_def [symmetric] pos_def [symmetric] ug
    using market_open_returns [OF wf ix]
    by (auto simp: sane v sat placed set_ledger_def ledger_place_order_def split: sum.splits option.splits)
qed

text \<open>The actions on which the broker does not panic, whatever their arguments.\<close>

definition action_ok :: "'g sim_broker \<Rightarrow> broker_action \<Rightarrow> bool" where
  "action_ok sim cmd \<longleftrightarrow> cmd \<noteq> Disconnect \<and> \<not> is_market_close cmd \<and>
     (\<forall>a u sz price sl tp acct p. cmd = TradingAction a (ModifyOrder u sz price sl tp) \<longrightarrow>
        accounts_get (sb_accounts sim) a = Some acct \<longrightarrow>
        pending_positions (acct_ledger acct) u = Some p \<longrightarrow> \<not> marketable sim p)"

lemma modify_order_returns:
  assumes wf: "broker_wf sim"
    and m: "\<And>acct p. accounts_get (sb_accounts sim) a = Some acct \<Longrightarrow>
      pending_positions (acct_ledger acct) u = Some p \<Longrightarrow> \<not> marketable sim p"
  shows "\<exists>r sim'. modify_order a u sz price sl tp sim = Some (r, sim')"
proof (cases "\<exists>acct p. accounts_get (sb_accounts sim) a = Some acct \<and>
    pending_positions (acct_ledger acct) u = Some p")
  case True
  then obtain acct p where get: "accounts_get (sb_accounts sim) a = Some acct"
    and p: "pending_positions (acct_ledger acct) u = Some p" by blast
  show ?thesis using modify_order_step [OF wf get p m [OF get p]] by blast
qed (auto simp: modify_order_def split: option.splits)

lemma cancel_order_returns:
  assumes wf: "broker_wf sim"
  shows "\<exists>r sim'. cancel_order a u sim = Some (r, sim')"
proof (cases "\<exists>acct p. accounts_get (sb_accounts sim) a = Some acct \<and>
    pending_positions (acct_ledger acct) u = Some p")
  case True
  then obtain acct p where get: "accounts_get (sb_accounts sim) a = Some acct"
    and p: "pending_positions (acct_ledger acct) u = Some p" by blast
  show ?thesis using cancel_order_step [OF wf get p] by blast
qed (auto simp: cancel_order_def ledger_cancel_order_def Let_def split: option.splits)

lemma modify_position_returns:
  assumes wf: "broker_wf sim"
  shows "\<exists>r sim'. modify_position a u sl tp sim = Some (r, sim')"
proof (cases "\<exists>acct p. accounts_get (sb_accounts sim) a = Some acct \<and>
    open_positions (acct_ledger acct) u = Some p")
  case True
  then obtain acct p where get: "accounts_get (sb_accounts sim) a = Some acct"
    and p: "open_positions (acct_ledger acct) u = Some p" by blast
  show ?thesis using modify_position_step [OF wf get p] by blast
qed (auto simp: modify_position_def ledger_modify_position_def Let_def split: option.splits)

lemma exec_action_returns:
  assumes wf: "broker_wf sim" and ok: "action_ok sim cmd"
  shows "\<exists>r sim'. exec_action rng cmd sim = Some (r, sim')"
proof (cases cmd)
  case (TradingAction a act)
  have ix: "ix < length (sy_data (sb_symbols sim))" if "get_index (sb_symbols sim) n = Some ix" for n ix
    using that broker_wf_hm [OF wf] by (simp add: get_index_def)
  show ?thesis
  proof (cases act)
    case (ModifyOrder u sz price sl tp)
    with ok TradingAction have "\<exists>r sim'. modify_order a u sz price sl tp sim = Some (r, sim')"
      by (intro modify_order_returns [OF wf]) (auto simp: action_ok_def)
    with TradingAction ModifyOrder show ?thesis by simp
  qed (use TradingAction ok in \<open>auto simp: action_ok_def is_market_close_def split: option.splits
      intro: ix cancel_order_returns [OF wf] modify_position_returns [OF wf]
        market_open_returns [OF wf] place_order_returns [OF wf]\<close>)
qed (use ok in \<open>auto simp: action_ok_def split: option.splits\<close>)

end
