(* ===== verification/Tg_SimTick.thy ===== *)
theory Tg_SimTick
  imports Tg_SimInvariant
begin

text \<open>
  What a price tick does to the ledgers, stated without the cache, and the proof that the
  two loops of \<open>tick_positions\<close> implement it. A tick first fills every pending order of the
  symbol its price reaches (\<open>open_phase\<close>), then closes every open position of the symbol
  whose stop or take-profit it reaches, crediting its value (\<open>close_phase\<close>); both are
  functions of one ledger.
\<close>

definition fill_price :: "usize \<Rightarrow> usize \<Rightarrow> position \<Rightarrow> usize option" where
  "fill_price b a p =
     (if p_long p \<and> a \<le> the (p_price p) then Some a
      else if the (p_price p) \<le> b then Some b else None)"

definition filled_at :: "usize \<Rightarrow> u64 \<Rightarrow> position \<Rightarrow> position" where
  "filled_at price t p = p\<lparr>p_execution_price := Some price, p_execution_time := Some t\<rparr>"

definition open_phase :: "nat \<Rightarrow> usize \<Rightarrow> usize \<Rightarrow> u64 \<Rightarrow> ledger \<Rightarrow> ledger" where
  "open_phase k b a t l = l
     \<lparr>pending_positions := (\<lambda>u. case pending_positions l u of
        Some p \<Rightarrow> if p_symbol_id p = k \<and> fill_price b a p \<noteq> None then None else Some p
      | None \<Rightarrow> None),
      open_positions := (\<lambda>u. case pending_positions l u of
        Some p \<Rightarrow>
          (if p_symbol_id p = k then
             (case fill_price b a p of Some x \<Rightarrow> Some (filled_at x t p) | None \<Rightarrow> open_positions l u)
           else open_positions l u)
      | None \<Rightarrow> open_positions l u)\<rparr>"

definition closing :: "nat \<Rightarrow> usize \<Rightarrow> usize \<Rightarrow> ledger \<Rightarrow> uuid set" where
  "closing k b a l = {u. \<exists>p. open_positions l u = Some p \<and> p_symbol_id p = k \<and>
     (stop_hit p b a \<or> take_profit_hit p b a)}"

definition close_phase :: "nat \<Rightarrow> usize \<Rightarrow> usize \<Rightarrow> (position \<Rightarrow> usize) \<Rightarrow> ledger \<Rightarrow> ledger" where
  "close_phase k b a val l = l
     \<lparr>buying_power := buying_power l + (\<Sum>u\<in>closing k b a l. val (the (open_positions l u))),
      open_positions := (\<lambda>u. if u \<in> closing k b a l then None else open_positions l u),
      closed_positions := (\<lambda>u. if u \<in> closing k b a l then open_positions l u else closed_positions l u)\<rparr>"

definition ledgers_of :: "'g sim_broker \<Rightarrow> uuid \<Rightarrow> ledger option" where
  "ledgers_of sim a = map_option acct_ledger (accounts_get (sb_accounts sim) a)"

abbreviation pendings_of :: "'g sim_broker \<Rightarrow> nat \<Rightarrow> cached_position list" where
  "pendings_of sim k \<equiv> pending_cache (acc_positions (sb_accounts sim) ! k)"

abbreviation opens_of :: "'g sim_broker \<Rightarrow> nat \<Rightarrow> cached_position list" where
  "opens_of sim k \<equiv> open_cache (acc_positions (sb_accounts sim) ! k)"

text \<open>A symbol whose positions can be valued.\<close>

definition valued :: "'g sim_broker \<Rightarrow> nat \<Rightarrow> (position \<Rightarrow> usize) \<Rightarrow> bool" where
  "valued sim k val \<longleftrightarrow>
     (\<forall>p. p_symbol_id p = k \<longrightarrow> get_position_value sim p = Some (Inr (val p)))"

lemma ledgers_of_set_positions [simp]:
  "ledgers_of (sim\<lparr>sb_accounts := accs\<lparr>acc_positions := ps\<rparr>\<rparr>) = ledgers_of (sim\<lparr>sb_accounts := accs\<rparr>)"
  by (simp add: ledgers_of_def fun_eq_iff)

lemma ledgers_of_insert:
  "ledgers_of (sim\<lparr>sb_accounts := accounts_insert a (acct\<lparr>acct_ledger := l\<rparr>) (sb_accounts sim)\<rparr>) =
     (ledgers_of sim)(a \<mapsto> l)"
  by (auto simp: ledgers_of_def fun_eq_iff)

section \<open>Filling\<close>

lemma open_phase_step:
  assumes "pending_positions l u = Some p" and "p_symbol_id p = k" and "fill_price b a p = Some x"
  shows "open_phase k b a t (l\<lparr>pending_positions := (pending_positions l)(u := None),
    open_positions := (open_positions l)(u \<mapsto> filled_at x t p)\<rparr>) = open_phase k b a t l"
  using assms by (auto simp: open_phase_def fun_eq_iff intro!: ledger.equality split: option.splits)

lemma open_phase_idle:
  assumes "\<And>u p. pending_positions l u = Some p \<Longrightarrow> p_symbol_id p = k \<Longrightarrow> fill_price b a p = None"
  shows "open_phase k b a t l = l"
proof -
  have "(\<lambda>u. case pending_positions l u of
      Some p \<Rightarrow> if p_symbol_id p = k \<and> fill_price b a p \<noteq> None then None else Some p
    | None \<Rightarrow> None) = pending_positions l"
    using assms by (auto simp: fun_eq_iff split: option.splits)
  moreover have "(\<lambda>u. case pending_positions l u of
      Some p \<Rightarrow>
        (if p_symbol_id p = k then
           (case fill_price b a p of Some x \<Rightarrow> Some (filled_at x t p) | None \<Rightarrow> open_positions l u)
         else open_positions l u)
    | None \<Rightarrow> open_positions l u) = open_positions l"
    using assms by (auto simp: fun_eq_iff split: option.splits)
  ultimately show ?thesis by (simp add: open_phase_def)
qed

lemma pending_entry:
  assumes wf: "broker_wf sim" and k: "k < length (acc_positions (sb_accounts sim))"
    and i: "i < length (pendings_of sim k)"
    and c: "pendings_of sim k ! i = c"
  obtains acct where "accounts_get (sb_accounts sim) (cp_acct c) = Some acct"
    "pending_positions (acct_ledger acct) (cp_uuid c) = Some (cp_pos c)"
    "p_symbol_id (cp_pos c) = k" "pending_wf (cp_pos c)" "ledger_wf (acct_ledger acct)"
proof -
  note accs = broker_wf_accounts [OF wf]
  note s = symbol_synced_parts [OF accounts_wf_synced [OF accs k]]
  have "c \<in> set (pendings_of sim k)" using i c by auto
  then have "ledger_view pending_positions (sb_accounts sim) (cp_acct c) (cp_uuid c) = Some (cp_pos c)"
    and "p_symbol_id (cp_pos c) = k" using cached_as_mem [OF s(1), of c] by auto
  then show ?thesis
    using that accounts_wf_ledger [OF accs] ledger_wf_pending unfolding ledger_view_Some by blast
qed

definition fill_accounts :: "nat \<Rightarrow> nat \<Rightarrow> usize \<Rightarrow> u64 \<Rightarrow> cached_position \<Rightarrow> account \<Rightarrow> accounts \<Rightarrow> accounts" where
  "fill_accounts k i x t c acct accs =
     (accounts_insert (cp_acct c) (acct\<lparr>acct_ledger := (acct_ledger acct)
       \<lparr>pending_positions := (pending_positions (acct_ledger acct))(cp_uuid c := None),
        open_positions := (open_positions (acct_ledger acct))(cp_uuid c \<mapsto> filled_at x t (cp_pos c))\<rparr>\<rparr>)
      accs)\<lparr>acc_positions := (acc_positions accs)[k := (acc_positions accs ! k)
      \<lparr>pending_cache := remove_nth i (pending_cache (acc_positions accs ! k)),
       open_cache := open_cache (acc_positions accs ! k) @ [c\<lparr>cp_pos := filled_at x t (cp_pos c)\<rparr>]\<rparr>]\<rparr>"

lemma open_wf_filled_at: "pending_wf p \<Longrightarrow> open_wf (filled_at x t p)"
  by (simp add: pending_wf_def open_wf_def filled_at_def)

lemma tick_pending_step_eq:
  assumes wf: "broker_wf sim" and k: "k < length (acc_positions (sb_accounts sim))"
    and i: "i < length (pendings_of sim k)"
    and c: "pendings_of sim k ! i = c"
    and get: "accounts_get (sb_accounts sim) (cp_acct c) = Some acct"
    and p: "pending_positions (acct_ledger acct) (cp_uuid c) = Some (cp_pos c)" "pending_wf (cp_pos c)"
  shows "fill_price b a (cp_pos c) = None \<Longrightarrow>
      tick_pending_step k (b, a) m i (sim, buf, n) = Some (Suc i, sim, buf, n)"
    and "fill_price b a (cp_pos c) = Some x \<Longrightarrow> m + n < length buf \<Longrightarrow>
      \<exists>buf'. tick_pending_step k (b, a) m i (sim, buf, n) =
        Some (i, sim\<lparr>sb_accounts := fill_accounts k i x (sb_timestamp sim) c acct (sb_accounts sim)\<rparr>,
          buf', n + 1) \<and> length buf' = length buf"
proof -
  have sat: "is_open_satisfied (cp_pos c) b a = Some (fill_price b a (cp_pos c))"
    using is_open_satisfied_pending [OF p(2)] by (simp add: fill_price_def)
  show "tick_pending_step k (b, a) m i (sim, buf, n) = Some (Suc i, sim, buf, n)"
    if "fill_price b a (cp_pos c) = None"
    using that k i c sat by (simp add: tick_pending_step_def)
  show "\<exists>buf'. tick_pending_step k (b, a) m i (sim, buf, n) =
      Some (i, sim\<lparr>sb_accounts := fill_accounts k i x (sb_timestamp sim) c acct (sb_accounts sim)\<rparr>,
        buf', n + 1) \<and> length buf' = length buf"
    if "fill_price b a (cp_pos c) = Some x" "m + n < length buf"
    using that k i c sat get p
    by (simp add: tick_pending_step_def ledger_open_position_filled Let_def with_positions_def
        vec_remove_def set_ledger_def fill_accounts_def filled_at_def)
qed

lemma fill_accounts_wf:
  assumes wf: "broker_wf sim" and k: "k < length (acc_positions (sb_accounts sim))"
    and i: "i < length (pendings_of sim k)"
    and c: "pendings_of sim k ! i = c"
    and get: "accounts_get (sb_accounts sim) (cp_acct c) = Some acct"
    and p: "pending_positions (acct_ledger acct) (cp_uuid c) = Some (cp_pos c)"
      "p_symbol_id (cp_pos c) = k" "pending_wf (cp_pos c)" "ledger_wf (acct_ledger acct)"
  shows "broker_wf (sim\<lparr>sb_accounts := fill_accounts k i x t c acct (sb_accounts sim)\<rparr>)"
proof -
  let ?q = "filled_at x t (cp_pos c)" and ?l = "acct_ledger acct"
  have sym: "p_symbol_id ?q = k" using p(2) by (simp add: filled_at_def)
  have "ledger_wf (?l\<lparr>pending_positions := (pending_positions ?l)(cp_uuid c := None),
      open_positions := (open_positions ?l)(cp_uuid c \<mapsto> ?q)\<rparr>)"
    using p(1,4) open_wf_filled_at [OF p(3)] by (auto simp: ledger_wf_def)
  then have "accounts_wf (fill_accounts k i x t c acct (sb_accounts sim))"
    unfolding fill_accounts_def
    by (intro cache_fill_wf [OF broker_wf_accounts [OF wf] k i c get sym]) simp_all
  with wf show ?thesis
    by (rule broker_wf_set_accounts) (simp add: fill_accounts_def)
qed

text \<open>The walk over the pending cache.\<close>

lemma nth_remove_nth_before: "j < i \<Longrightarrow> i < length xs \<Longrightarrow> remove_nth i xs ! j = xs ! j"
  by (simp add: remove_nth_def nth_append)

text \<open>
  What a walk over the pending cache returns: the broker is well formed again, every order
  filled moved from one cache to the other and was written to the buffer, and the ledgers
  are those of \<open>open_phase\<close>.
\<close>

definition pending_walked :: "nat \<Rightarrow> usize \<Rightarrow> usize \<Rightarrow> 'g sim_broker \<Rightarrow> 'x list \<Rightarrow> nat \<Rightarrow>
    ('g sim_broker \<times> 'x list \<times> nat) option \<Rightarrow> bool" where
  "pending_walked k b a sim buf n r \<longleftrightarrow> (\<exists>accs buf' n'. r = Some (sim\<lparr>sb_accounts := accs\<rparr>, buf', n') \<and>
     broker_wf (sim\<lparr>sb_accounts := accs\<rparr>) \<and>
     length buf' = length buf \<and> length (acc_positions accs) = length (acc_positions (sb_accounts sim)) \<and>
     n' + length (pending_cache (acc_positions accs ! k)) = n + length (pendings_of sim k) \<and>
     length (pending_cache (acc_positions accs ! k)) + length (open_cache (acc_positions accs ! k)) =
       length (pendings_of sim k) + length (opens_of sim k) \<and>
     ledgers_of (sim\<lparr>sb_accounts := accs\<rparr>) =
       map_option (open_phase k b a (sb_timestamp sim)) \<circ> ledgers_of sim)"

lemma ledgers_unchanged:
  assumes "\<And>z acct. accounts_get (sb_accounts sim) z = Some acct \<Longrightarrow> f (acct_ledger acct) = acct_ledger acct"
  shows "map_option f \<circ> ledgers_of sim = ledgers_of sim"
proof
  fix z show "(map_option f \<circ> ledgers_of sim) z = ledgers_of sim z"
    using assms by (cases "accounts_get (sb_accounts sim) z") (simp_all add: ledgers_of_def)
qed

lemma pending_walked_idle:
  assumes wf: "broker_wf sim" and k: "k < length (acc_positions (sb_accounts sim))"
    and idle: "\<And>c. c \<in> set (pendings_of sim k) \<Longrightarrow> fill_price b a (cp_pos c) = None"
  shows "pending_walked k b a sim buf n (Some (sim, buf, n))"
proof -
  note s = symbol_synced_parts [OF accounts_wf_synced [OF broker_wf_accounts [OF wf] k]]
  have "open_phase k b a (sb_timestamp sim) (acct_ledger acct) = acct_ledger acct"
    if get: "accounts_get (sb_accounts sim) z = Some acct" for z acct
  proof (rule open_phase_idle)
    fix u p assume "pending_positions (acct_ledger acct) u = Some p" "p_symbol_id p = k"
    then show "fill_price b a p = None"
      using idle [of "\<lparr>cp_uuid = u, cp_acct = z, cp_pos = p\<rparr>"]
        cached_as_mem [OF s(1), of "\<lparr>cp_uuid = u, cp_acct = z, cp_pos = p\<rparr>"]
      by (simp add: ledger_view_get [OF get])
  qed
  then show ?thesis
    using wf unfolding pending_walked_def
    by (intro exI [of _ "sb_accounts sim"] exI [of _ buf] exI [of _ n])
      (simp add: ledgers_unchanged)
qed

text \<open>A walk that fills an order first is a walk of what filling it left.\<close>

lemma pending_walked_fill:
  assumes k: "k < length (acc_positions (sb_accounts sim))" and i: "i < length (pendings_of sim k)"
    and get: "accounts_get (sb_accounts sim) (cp_acct c) = Some acct"
    and p: "pending_positions (acct_ledger acct) (cp_uuid c) = Some (cp_pos c)" "p_symbol_id (cp_pos c) = k"
    and fill: "fill_price b a (cp_pos c) = Some x" and b1: "length buf1 = length buf"
    and walked: "pending_walked k b a
      (sim\<lparr>sb_accounts := fill_accounts k i x (sb_timestamp sim) c acct (sb_accounts sim)\<rparr>) buf1 (n + 1) r"
  shows "pending_walked k b a sim buf n r"
proof -
  let ?a1 = "fill_accounts k i x (sb_timestamp sim) c acct (sb_accounts sim)"
  have led: "map_option (open_phase k b a (sb_timestamp sim)) \<circ> ledgers_of (sim\<lparr>sb_accounts := ?a1\<rparr>) =
      map_option (open_phase k b a (sb_timestamp sim)) \<circ> ledgers_of sim"
    using open_phase_step [OF p fill, of "sb_timestamp sim"] get
    by (auto simp: fun_eq_iff ledgers_of_def fill_accounts_def)
  have len: "length (acc_positions ?a1) = length (acc_positions (sb_accounts sim))"
    "length (pending_cache (acc_positions ?a1 ! k)) + 1 = length (pendings_of sim k)"
    "length (open_cache (acc_positions ?a1 ! k)) = length (opens_of sim k) + 1"
    using k i by (simp_all add: fill_accounts_def)
  show ?thesis
    using walked len b1 unfolding pending_walked_def by (elim exE) (intro exI, auto simp: led)
qed

lemma tick_pending_loop_spec:
  assumes "broker_wf sim" and "k < length (acc_positions (sb_accounts sim))"
    and "i \<le> length (pendings_of sim k)"
    and "\<forall>j<i. fill_price b a (cp_pos (pendings_of sim k ! j)) = None"
    and "m + n + (length (pendings_of sim k) - i) \<le> length buf"
  shows "pending_walked k b a sim buf n (tick_pending_loop k (b, a) m i (sim, buf, n))"
  using assms
proof (induction "length (pendings_of sim k) - i" arbitrary: sim i buf n)
  case 0
  then have "pending_walked k b a sim buf n (Some (sim, buf, n))"
    by (intro pending_walked_idle) (auto simp: in_set_conv_nth)
  with 0 show ?case by (simp add: tick_pending_loop.simps pending_len_def)
next
  case (Suc d)
  note wf = Suc.prems(1) and k = Suc.prems(2)
  have i: "i < length (pendings_of sim k)" using Suc.hyps(2) by simp
  define c where "c = pendings_of sim k ! i"
  note c = c_def [symmetric]
  obtain acct where e: "accounts_get (sb_accounts sim) (cp_acct c) = Some acct"
    "pending_positions (acct_ledger acct) (cp_uuid c) = Some (cp_pos c)"
    "p_symbol_id (cp_pos c) = k" "pending_wf (cp_pos c)" "ledger_wf (acct_ledger acct)"
    using pending_entry [OF wf k i c] by blast
  note step = tick_pending_step_eq [OF wf k i c e(1,2,4), where b = b and a = a]
  have loop: "tick_pending_loop k (b, a) m i (sim, buf, n) =
      Option.bind (tick_pending_step k (b, a) m i (sim, buf, n))
        (\<lambda>(i', st'). tick_pending_loop k (b, a) m i' st')"
    using k i by (subst tick_pending_loop.simps) (simp add: pending_len_def)
  show ?case
  proof (cases "fill_price b a (cp_pos c)")
    case None
    have "\<forall>j<Suc i. fill_price b a (cp_pos (pendings_of sim k ! j)) = None"
      using Suc.prems(4) None by (auto simp: less_Suc_eq c_def)
    with Suc.hyps(1) [of sim "Suc i" n buf] Suc.hyps(2) Suc.prems i show ?thesis
      unfolding loop step(1) [OF None] by simp
  next
    case (Some x)
    let ?s1 = "sim\<lparr>sb_accounts := fill_accounts k i x (sb_timestamp sim) c acct (sb_accounts sim)\<rparr>"
    have "m + n < length buf" using Suc.prems(5) i by linarith
    then obtain buf1 where st: "tick_pending_step k (b, a) m i (sim, buf, n) = Some (i, ?s1, buf1, n + 1)"
      and b1: "length buf1 = length buf" using step(2) [OF Some] by blast
    have ps: "pendings_of ?s1 k = remove_nth i (pendings_of sim k)"
      using k by (simp add: fill_accounts_def)
    have "pending_walked k b a ?s1 buf1 (n + 1) (tick_pending_loop k (b, a) m i (?s1, buf1, n + 1))"
      using Suc.hyps(2) Suc.prems(3-5) k ps i b1
      by (intro Suc.hyps(1) fill_accounts_wf [OF wf k i c e])
        (simp_all add: nth_remove_nth_before, simp add: fill_accounts_def)
    from pending_walked_fill [OF k i e(1-3) Some b1 this] show ?thesis unfolding loop st by simp
  qed
qed

section \<open>Closing\<close>

lemma close_phase_step:
  assumes p: "open_positions l u = Some p" "p_symbol_id p = k" "stop_hit p b a \<or> take_profit_hit p b a"
    and fin: "finite (closing k b a l)"
  shows "close_phase k b a val (l\<lparr>open_positions := (open_positions l)(u := None),
      closed_positions := (closed_positions l)(u \<mapsto> p), buying_power := buying_power l + val p\<rparr>) =
    close_phase k b a val l"
proof -
  let ?l = "l\<lparr>open_positions := (open_positions l)(u := None),
      closed_positions := (closed_positions l)(u \<mapsto> p), buying_power := buying_power l + val p\<rparr>"
  have u: "u \<in> closing k b a l" using p by (auto simp: closing_def)
  have cl: "closing k b a ?l = closing k b a l - {u}" by (auto simp: closing_def)
  have "(\<Sum>v\<in>closing k b a l. val (the (open_positions l v))) =
      val p + (\<Sum>v\<in>closing k b a l - {u}. val (the (open_positions l v)))"
    using fin u p(1) by (simp add: sum.remove)
  also have "(\<Sum>v\<in>closing k b a l - {u}. val (the (open_positions l v))) =
      (\<Sum>v\<in>closing k b a l - {u}. val (the (open_positions ?l v)))"
    by (rule sum.cong) auto
  finally show ?thesis
    using u p(1) by (simp add: close_phase_def cl fun_eq_iff add.assoc)
qed

lemma close_phase_idle: "closing k b a l = {} \<Longrightarrow> close_phase k b a val l = l"
  by (simp add: close_phase_def)

lemma open_entry:
  assumes wf: "broker_wf sim" and k: "k < length (acc_positions (sb_accounts sim))"
    and i: "i < length (opens_of sim k)"
    and c: "opens_of sim k ! i = c"
  obtains acct where "accounts_get (sb_accounts sim) (cp_acct c) = Some acct"
    "open_positions (acct_ledger acct) (cp_uuid c) = Some (cp_pos c)"
    "p_symbol_id (cp_pos c) = k" "open_wf (cp_pos c)" "ledger_wf (acct_ledger acct)"
proof -
  note accs = broker_wf_accounts [OF wf]
  note s = symbol_synced_parts [OF accounts_wf_synced [OF accs k]]
  have "c \<in> set (opens_of sim k)" using i c by auto
  then have "ledger_view open_positions (sb_accounts sim) (cp_acct c) (cp_uuid c) = Some (cp_pos c)"
    and "p_symbol_id (cp_pos c) = k" using cached_as_mem [OF s(2), of c] by auto
  then show ?thesis
    using that accounts_wf_ledger [OF accs] ledger_wf_open unfolding ledger_view_Some by blast
qed

lemma finite_closing:
  assumes wf: "broker_wf sim" and k: "k < length (acc_positions (sb_accounts sim))"
    and get: "accounts_get (sb_accounts sim) z = Some acct"
  shows "finite (closing k b a (acct_ledger acct))"
proof (rule finite_subset)
  note s = symbol_synced_parts [OF accounts_wf_synced [OF broker_wf_accounts [OF wf] k]]
  show "closing k b a (acct_ledger acct) \<subseteq>
      cp_uuid ` set (opens_of sim k)"
  proof
    fix u assume "u \<in> closing k b a (acct_ledger acct)"
    then obtain p where "open_positions (acct_ledger acct) u = Some p" "p_symbol_id p = k"
      by (auto simp: closing_def)
    then have "\<lparr>cp_uuid = u, cp_acct = z, cp_pos = p\<rparr> \<in> set (opens_of sim k)"
      by (simp add: cached_as_mem [OF s(2)] ledger_view_get [OF get])
    then show "u \<in> cp_uuid ` set (opens_of sim k)"
      by (auto simp: image_iff intro: bexI [rotated])
  qed
qed simp

definition close_accounts :: "nat \<Rightarrow> nat \<Rightarrow> usize \<Rightarrow> cached_position \<Rightarrow> account \<Rightarrow> accounts \<Rightarrow> accounts" where
  "close_accounts k i v c acct accs =
     (accounts_insert (cp_acct c) (acct\<lparr>acct_ledger := (acct_ledger acct)
       \<lparr>open_positions := (open_positions (acct_ledger acct))(cp_uuid c := None),
        closed_positions := (closed_positions (acct_ledger acct))(cp_uuid c \<mapsto> cp_pos c),
        buying_power := buying_power (acct_ledger acct) + v\<rparr>\<rparr>)
      accs)\<lparr>acc_positions := (acc_positions accs)[k := (acc_positions accs ! k)
      \<lparr>open_cache := remove_nth i (open_cache (acc_positions accs ! k))\<rparr>]\<rparr>"

lemma tick_open_step_eq:
  assumes k: "k < length (acc_positions (sb_accounts sim))"
    and i: "i < length (opens_of sim k)"
    and c: "opens_of sim k ! i = c"
    and get: "accounts_get (sb_accounts sim) (cp_acct c) = Some acct"
    and p: "open_positions (acct_ledger acct) (cp_uuid c) = Some (cp_pos c)" "open_wf (cp_pos c)"
    and v: "get_position_value sim (cp_pos c) = Some (Inr v)"
  shows "\<not> (stop_hit (cp_pos c) b a \<or> take_profit_hit (cp_pos c) b a) \<Longrightarrow>
      tick_open_step k (b, a) m i (sim, buf, n) = Some (Suc i, sim, buf, n)"
    and "stop_hit (cp_pos c) b a \<or> take_profit_hit (cp_pos c) b a \<Longrightarrow> m + n + 1 < length buf \<Longrightarrow>
      \<exists>buf'. tick_open_step k (b, a) m i (sim, buf, n) =
        Some (i, sim\<lparr>sb_accounts := close_accounts k i v c acct (sb_accounts sim)\<rparr>, buf', n + 2) \<and>
        length buf' = length buf"
proof -
  note sat = is_close_satisfied_open [OF p(2), of b a]
  show "tick_open_step k (b, a) m i (sim, buf, n) = Some (Suc i, sim, buf, n)"
    if "\<not> (stop_hit (cp_pos c) b a \<or> take_profit_hit (cp_pos c) b a)"
    using that k i c sat by (simp add: tick_open_step_def)
  show "\<exists>buf'. tick_open_step k (b, a) m i (sim, buf, n) =
      Some (i, sim\<lparr>sb_accounts := close_accounts k i v c acct (sb_accounts sim)\<rparr>, buf', n + 2) \<and>
      length buf' = length buf"
    if hit: "stop_hit (cp_pos c) b a \<or> take_profit_hit (cp_pos c) b a" and room: "m + n + 1 < length buf"
  proof -
    obtain pr reason where "is_close_satisfied (cp_pos c) b a = Some (Some (pr, reason))"
      using hit sat by (auto split: if_splits)
    with room k i c get p v show ?thesis
      by (simp add: tick_open_step_def Let_def with_positions_def vec_remove_def set_ledger_def
          close_accounts_def ledger_close_position_def unwrap_ok_def)
  qed
qed

lemma close_accounts_wf:
  assumes wf: "broker_wf sim" and k: "k < length (acc_positions (sb_accounts sim))"
    and i: "i < length (opens_of sim k)"
    and c: "opens_of sim k ! i = c"
    and get: "accounts_get (sb_accounts sim) (cp_acct c) = Some acct"
    and p: "open_positions (acct_ledger acct) (cp_uuid c) = Some (cp_pos c)"
      "p_symbol_id (cp_pos c) = k" "open_wf (cp_pos c)" "ledger_wf (acct_ledger acct)"
  shows "broker_wf (sim\<lparr>sb_accounts := close_accounts k i v c acct (sb_accounts sim)\<rparr>)"
proof -
  let ?l = "acct_ledger acct"
  have "ledger_wf (?l\<lparr>open_positions := (open_positions ?l)(cp_uuid c := None),
      closed_positions := (closed_positions ?l)(cp_uuid c \<mapsto> cp_pos c),
      buying_power := buying_power ?l + v\<rparr>)"
    using p(1,4) by (auto simp: ledger_wf_def)
  then have "accounts_wf (close_accounts k i v c acct (sb_accounts sim))"
    unfolding close_accounts_def
    by (intro cache_close_wf [OF broker_wf_accounts [OF wf] k i c get]) simp_all
  with wf show ?thesis
    by (rule broker_wf_set_accounts) (simp add: close_accounts_def)
qed

lemma valued_accounts [simp]: "valued (sim\<lparr>sb_accounts := accs\<rparr>) k val = valued sim k val"
  unfolding valued_def
  by (simp add: get_position_value_cong [of "sim\<lparr>sb_accounts := accs\<rparr>" sim])

definition open_walked :: "nat \<Rightarrow> usize \<Rightarrow> usize \<Rightarrow> (position \<Rightarrow> usize) \<Rightarrow> 'g sim_broker \<Rightarrow> 'x list \<Rightarrow>
    nat \<Rightarrow> ('g sim_broker \<times> 'x list \<times> nat) option \<Rightarrow> bool" where
  "open_walked k b a val sim buf n r \<longleftrightarrow> (\<exists>accs buf' n'. r = Some (sim\<lparr>sb_accounts := accs\<rparr>, buf', n') \<and>
     broker_wf (sim\<lparr>sb_accounts := accs\<rparr>) \<and>
     length buf' = length buf \<and> length (acc_positions accs) = length (acc_positions (sb_accounts sim)) \<and>
     n' + 2 * length (open_cache (acc_positions accs ! k)) = n + 2 * length (opens_of sim k) \<and>
     ledgers_of (sim\<lparr>sb_accounts := accs\<rparr>) = map_option (close_phase k b a val) \<circ> ledgers_of sim)"

abbreviation exit_hit :: "usize \<Rightarrow> usize \<Rightarrow> cached_position \<Rightarrow> bool" where
  "exit_hit b a c \<equiv> stop_hit (cp_pos c) b a \<or> take_profit_hit (cp_pos c) b a"

lemma open_walked_idle:
  assumes wf: "broker_wf sim" and k: "k < length (acc_positions (sb_accounts sim))"
    and idle: "\<And>c. c \<in> set (opens_of sim k) \<Longrightarrow> \<not> exit_hit b a c"
  shows "open_walked k b a val sim buf n (Some (sim, buf, n))"
proof -
  note s = symbol_synced_parts [OF accounts_wf_synced [OF broker_wf_accounts [OF wf] k]]
  have "close_phase k b a val (acct_ledger acct) = acct_ledger acct"
    if get: "accounts_get (sb_accounts sim) z = Some acct" for z acct
  proof (rule close_phase_idle)
    have "\<not> (stop_hit p b a \<or> take_profit_hit p b a)"
      if "open_positions (acct_ledger acct) u = Some p" "p_symbol_id p = k" for u p
      using that idle [of "\<lparr>cp_uuid = u, cp_acct = z, cp_pos = p\<rparr>"]
        cached_as_mem [OF s(2), of "\<lparr>cp_uuid = u, cp_acct = z, cp_pos = p\<rparr>"]
      by (simp add: ledger_view_get [OF get])
    then show "closing k b a (acct_ledger acct) = {}" by (auto simp: closing_def)
  qed
  then show ?thesis
    using wf unfolding open_walked_def
    by (intro exI [of _ "sb_accounts sim"] exI [of _ buf] exI [of _ n])
      (simp add: ledgers_unchanged)
qed

lemma open_walked_close:
  assumes wf: "broker_wf sim" and k: "k < length (acc_positions (sb_accounts sim))"
    and i: "i < length (opens_of sim k)"
    and get: "accounts_get (sb_accounts sim) (cp_acct c) = Some acct"
    and p: "open_positions (acct_ledger acct) (cp_uuid c) = Some (cp_pos c)" "p_symbol_id (cp_pos c) = k"
    and hit: "exit_hit b a c" and b1: "length buf1 = length buf"
    and walked: "open_walked k b a val
      (sim\<lparr>sb_accounts := close_accounts k i (val (cp_pos c)) c acct (sb_accounts sim)\<rparr>) buf1 (n + 2) r"
  shows "open_walked k b a val sim buf n r"
proof -
  let ?a1 = "close_accounts k i (val (cp_pos c)) c acct (sb_accounts sim)"
  have led: "map_option (close_phase k b a val) \<circ> ledgers_of (sim\<lparr>sb_accounts := ?a1\<rparr>) =
      map_option (close_phase k b a val) \<circ> ledgers_of sim"
    using close_phase_step [OF p hit finite_closing [OF wf k get], of val] get
    by (auto simp: fun_eq_iff ledgers_of_def close_accounts_def)
  have len: "length (acc_positions ?a1) = length (acc_positions (sb_accounts sim))"
    "length (open_cache (acc_positions ?a1 ! k)) + 1 = length (opens_of sim k)"
    using k i by (simp_all add: close_accounts_def)
  show ?thesis
    using walked len b1 unfolding open_walked_def by (elim exE) (intro exI, auto simp: led)
qed

lemma tick_open_loop_spec:
  assumes "broker_wf sim" and "k < length (acc_positions (sb_accounts sim))" and "valued sim k val"
    and "i \<le> length (opens_of sim k)"
    and "\<forall>j<i. \<not> exit_hit b a (opens_of sim k ! j)"
    and "m + n + 2 * (length (opens_of sim k) - i) \<le> length buf"
  shows "open_walked k b a val sim buf n (tick_open_loop k (b, a) m i (sim, buf, n))"
  using assms
proof (induction "length (opens_of sim k) - i" arbitrary: sim i buf n)
  case 0
  then have "open_walked k b a val sim buf n (Some (sim, buf, n))"
    by (intro open_walked_idle) (auto simp: in_set_conv_nth)
  with 0 show ?case by (simp add: tick_open_loop.simps open_len_def)
next
  case (Suc d)
  note wf = Suc.prems(1) and k = Suc.prems(2) and val = Suc.prems(3)
  have i: "i < length (opens_of sim k)" using Suc.hyps(2) by simp
  define c where "c = opens_of sim k ! i"
  note c = c_def [symmetric]
  obtain acct where e: "accounts_get (sb_accounts sim) (cp_acct c) = Some acct"
    "open_positions (acct_ledger acct) (cp_uuid c) = Some (cp_pos c)"
    "p_symbol_id (cp_pos c) = k" "open_wf (cp_pos c)" "ledger_wf (acct_ledger acct)"
    using open_entry [OF wf k i c] by blast
  have v: "get_position_value sim (cp_pos c) = Some (Inr (val (cp_pos c)))"
    using val e(3) by (simp add: valued_def)
  note step = tick_open_step_eq [OF k i c e(1,2,4) v, where b = b and a = a]
  have loop: "tick_open_loop k (b, a) m i (sim, buf, n) =
      Option.bind (tick_open_step k (b, a) m i (sim, buf, n))
        (\<lambda>(i', st'). tick_open_loop k (b, a) m i' st')"
    using k i by (subst tick_open_loop.simps) (simp add: open_len_def)
  show ?case
  proof (cases "exit_hit b a c")
    case False
    have "\<forall>j<Suc i. \<not> exit_hit b a (opens_of sim k ! j)"
      using Suc.prems(5) False by (auto simp: less_Suc_eq c_def)
    with Suc.hyps(1) [of sim "Suc i" n buf] Suc.hyps(2) Suc.prems i show ?thesis
      unfolding loop step(1) [OF False] by simp
  next
    case hit: True
    let ?s1 = "sim\<lparr>sb_accounts := close_accounts k i (val (cp_pos c)) c acct (sb_accounts sim)\<rparr>"
    have "m + n + 1 < length buf" using Suc.prems(6) i by linarith
    then obtain buf1 where st: "tick_open_step k (b, a) m i (sim, buf, n) = Some (i, ?s1, buf1, n + 2)"
      and b1: "length buf1 = length buf" using step(2) [OF hit] by blast
    have ps: "opens_of ?s1 k = remove_nth i (opens_of sim k)"
      using k by (simp add: close_accounts_def)
    have "open_walked k b a val ?s1 buf1 (n + 2) (tick_open_loop k (b, a) m i (?s1, buf1, n + 2))"
      using Suc.hyps(2) Suc.prems(3-6) k ps i b1
      by (intro Suc.hyps(1) close_accounts_wf [OF wf k i c e])
        (simp_all add: nth_remove_nth_before, simp add: close_accounts_def)
    from open_walked_close [OF wf k i e(1-3) hit b1 this] show ?thesis unfolding loop st by simp
  qed
qed

text \<open>
  Both loops. A buffer of one entry for each pending order and two for each position that
  is open, or that one of the orders opens, is enough.
\<close>

lemma tick_positions_spec:
  assumes wf: "broker_wf sim" and k: "k < length (acc_positions (sb_accounts sim))"
    and val: "valued sim k val"
    and room: "m + 3 * length (pendings_of sim k) + 2 * length (opens_of sim k) \<le> length buf"
  shows "\<exists>n buf' accs. tick_positions k (b, a) m buf sim = Some (n, buf', sim\<lparr>sb_accounts := accs\<rparr>) \<and>
    broker_wf (sim\<lparr>sb_accounts := accs\<rparr>) \<and> length buf' = length buf \<and>
    n \<le> 3 * length (pendings_of sim k) + 2 * length (opens_of sim k) \<and>
    ledgers_of (sim\<lparr>sb_accounts := accs\<rparr>) =
      map_option (close_phase k b a val \<circ> open_phase k b a (sb_timestamp sim)) \<circ> ledgers_of sim"
proof -
  have "pending_walked k b a sim buf 0 (tick_pending_loop k (b, a) m 0 (sim, buf, 0))"
    using wf k room by (intro tick_pending_loop_spec) simp_all
  then obtain accs1 buf1 n1 where one: "tick_pending_loop k (b, a) m 0 (sim, buf, 0) =
      Some (sim\<lparr>sb_accounts := accs1\<rparr>, buf1, n1)" "broker_wf (sim\<lparr>sb_accounts := accs1\<rparr>)"
    "length buf1 = length buf" "length (acc_positions accs1) = length (acc_positions (sb_accounts sim))"
    "n1 + length (pending_cache (acc_positions accs1 ! k)) = 0 + length (pendings_of sim k)"
    "length (pending_cache (acc_positions accs1 ! k)) + length (open_cache (acc_positions accs1 ! k)) =
      length (pendings_of sim k) + length (opens_of sim k)"
    "ledgers_of (sim\<lparr>sb_accounts := accs1\<rparr>) =
      map_option (open_phase k b a (sb_timestamp sim)) \<circ> ledgers_of sim"
    unfolding pending_walked_def by blast
  let ?s1 = "sim\<lparr>sb_accounts := accs1\<rparr>"
  have "open_walked k b a val ?s1 buf1 n1 (tick_open_loop k (b, a) m 0 (?s1, buf1, n1))"
    using k val room one by (intro tick_open_loop_spec) simp_all
  then obtain accs2 buf2 n2 where two: "tick_open_loop k (b, a) m 0 (?s1, buf1, n1) =
      Some (?s1\<lparr>sb_accounts := accs2\<rparr>, buf2, n2)" "broker_wf (?s1\<lparr>sb_accounts := accs2\<rparr>)"
    "length buf2 = length buf1"
    "n2 + 2 * length (open_cache (acc_positions accs2 ! k)) = n1 + 2 * length (opens_of ?s1 k)"
    "ledgers_of (?s1\<lparr>sb_accounts := accs2\<rparr>) = map_option (close_phase k b a val) \<circ> ledgers_of ?s1"
    unfolding open_walked_def by blast
  have "tick_positions k (b, a) m buf sim = Some (n2, buf2, sim\<lparr>sb_accounts := accs2\<rparr>)"
    using one(1) two(1) by (simp add: tick_positions_def)
  moreover have "ledgers_of (sim\<lparr>sb_accounts := accs2\<rparr>) =
      map_option (close_phase k b a val \<circ> open_phase k b a (sb_timestamp sim)) \<circ> ledgers_of sim"
    using one(7) two(5) by (simp add: fun_eq_iff option.map_comp)
  ultimately show ?thesis
    using one two by (intro exI [of _ n2] exI [of _ buf2] exI [of _ accs2]) simp
qed

end
