(* ===== verification/Tg_SimTime.thy ===== *)
theory Tg_SimTime
  imports Tg_SimInvariant
begin

text \<open>
  The order of events. The queue delivers the earliest item (the interface
  \<open>event_queue\<close>), every item pushed while an event is handled is due no earlier than the
  event, and the ticks still to come of streams in order are due no earlier than those in
  the queue; so the broker's clock never runs backwards.
\<close>

section \<open>Frames\<close>

text \<open>
  What an action leaves alone: of the broker's state it changes the accounts, the generator
  and, by at most one notification a ping away, the queue.
\<close>

definition notified :: "'g sim_broker \<Rightarrow> sim_queue \<Rightarrow> bool" where
  "notified sim q \<longleftrightarrow> q = sb_pq sim \<or>
     (\<exists>msg. q = sq_push \<lparr>qi_timestamp = sb_timestamp sim + ping_ns (sb_settings sim),
        qi_unit = Notification msg\<rparr> (sb_pq sim))"

definition action_frame :: "'g sim_broker \<Rightarrow> 'g sim_broker \<Rightarrow> bool" where
  "action_frame sim sim' \<longleftrightarrow> sb_symbols sim' = sb_symbols sim \<and> sb_settings sim' = sb_settings sim \<and>
     sb_timestamp sim' = sb_timestamp sim \<and> sb_client_rx sim' = sb_client_rx sim \<and>
     sb_completed sim' = sb_completed sim \<and> notified sim (sb_pq sim')"

lemma action_frame_refl [simp]: "action_frame sim sim"
  by (simp add: action_frame_def notified_def)

lemma action_frame_prng [simp]: "action_frame sim (sim\<lparr>sb_prng := g\<rparr>)"
  by (simp add: action_frame_def notified_def)

lemma action_frame_accounts [simp]: "action_frame sim (sim\<lparr>sb_accounts := accs\<rparr>)"
  by (simp add: action_frame_def notified_def)

lemma action_frame_set_ledger [simp]:
  "action_frame sim (set_ledger a acct l sim)"
  "action_frame sim ((set_ledger a acct l sim)\<lparr>sb_accounts := accs\<rparr>)"
  "action_frame sim (set_ledger a acct l (sim\<lparr>sb_prng := g\<rparr>))"
  by (simp_all add: set_ledger_def action_frame_def notified_def)

lemma action_frame_notify [simp]:
  "action_frame sim (buying_power_changed a v (sim\<lparr>sb_accounts := accs\<rparr>))"
  "action_frame sim (buying_power_changed a v ((set_ledger b acct l sim)\<lparr>sb_accounts := accs\<rparr>))"
  "action_frame sim (buying_power_changed a v ((set_ledger b acct l (sim\<lparr>sb_prng := g\<rparr>))\<lparr>sb_accounts := accs\<rparr>))"
  by (auto simp: set_ledger_def action_frame_def notified_def buying_power_changed_def)

definition framed :: "'g sim_broker \<Rightarrow> (broker_result \<times> 'g sim_broker) run \<Rightarrow> bool" where
  "framed sim m \<longleftrightarrow> run_post (\<lambda>(r, sim'). action_frame sim sim') m"

lemma framedD: "framed sim m \<Longrightarrow> m = Some (r, sim') \<Longrightarrow> action_frame sim sim'"
  unfolding framed_def by (drule (1) run_postD) simp

lemma run_post_broker_message [run_rules]:
  "(\<And>u p r t. msg = PositionClosed u p r t \<Longrightarrow> run_post P (f u p r t)) \<Longrightarrow> run_post P m \<Longrightarrow>
     run_post P (case msg of PositionClosed u p r t \<Rightarrow> f u p r t | _ \<Rightarrow> m)"
  "(\<And>u p t. msg = OrderPlaced u p t \<Longrightarrow> run_post P (g u p t)) \<Longrightarrow> run_post P m \<Longrightarrow>
     run_post P (case msg of OrderPlaced u p t \<Rightarrow> g u p t | _ \<Rightarrow> m)"
  "(\<And>u p t. msg = OrderModified u p t \<Longrightarrow> run_post P (g u p t)) \<Longrightarrow> run_post P m \<Longrightarrow>
     run_post P (case msg of OrderModified u p t \<Rightarrow> g u p t | _ \<Rightarrow> m)"
  "(\<And>u p t. msg = OrderCancelled u p t \<Longrightarrow> run_post P (g u p t)) \<Longrightarrow> run_post P m \<Longrightarrow>
     run_post P (case msg of OrderCancelled u p t \<Rightarrow> g u p t | _ \<Rightarrow> m)"
  "(\<And>u p t. msg = PositionModified u p t \<Longrightarrow> run_post P (g u p t)) \<Longrightarrow> run_post P m \<Longrightarrow>
     run_post P (case msg of PositionModified u p t \<Rightarrow> g u p t | _ \<Rightarrow> m)"
  by (cases msg; simp)+

lemma market_open_frame: "framed sim (market_open rng a ix long sz sl tp mr sim)"
  unfolding framed_def market_open_def Let_def by (intro run_rules) simp_all

lemma place_order_frame: "framed sim (place_order rng a ix price long sz sl tp sim)"
proof -
  note m = market_open_frame [unfolded framed_def, of sim rng a ix long sz sl tp "Some 0"]
  show ?thesis
    unfolding framed_def place_order_def Let_def by (intro run_rules m) simp_all
qed

lemma market_close_frame: "framed sim (market_close a u sz sim)"
  unfolding framed_def market_close_def Let_def by (intro run_rules) simp_all

lemma modify_order_frame: "framed sim (modify_order a u sz price sl tp sim)"
  unfolding framed_def modify_order_def Let_def by (intro run_rules) simp_all

lemma cancel_order_frame: "framed sim (cancel_order a u sim)"
  unfolding framed_def cancel_order_def Let_def by (intro run_rules) simp_all

lemma modify_position_frame: "framed sim (modify_position a u sl tp sim)"
  unfolding framed_def modify_position_def Let_def by (intro run_rules) simp_all

lemmas op_frames = market_open_frame place_order_frame market_close_frame modify_order_frame
  cancel_order_frame modify_position_frame

lemma exec_action_frame:
  assumes "exec_action rng cmd sim = Some (r, sim')"
  shows "action_frame sim sim'"
proof (cases cmd)
  case (TradingAction a act)
  with assms have "exec_trading_action rng a act sim = Some (r, sim')" by simp
  then show ?thesis by (cases act) (auto split: option.splits dest: framedD [OF op_frames(1)]
      framedD [OF op_frames(2)] framedD [OF op_frames(3)] framedD [OF op_frames(4)]
      framedD [OF op_frames(5)] framedD [OF op_frames(6)])
qed (use assms in \<open>auto split: option.splits\<close>)

text \<open>A price tick changes the accounts only.\<close>

lemma tick_pending_step_frame:
  "tick_pending_step k p m i (sim, buf, n) = Some (i', sim', buf', n') \<Longrightarrow>
     \<exists>accs. sim' = sim\<lparr>sb_accounts := accs\<rparr>"
  by (auto simp: tick_pending_step_def bind_Some_iff Let_def ledger_open_position_filled set_ledger_def
      split: option.splits) (metis sim_broker.surjective sim_broker.update_convs(1))

lemma tick_open_step_frame:
  "tick_open_step k p m i (sim, buf, n) = Some (i', sim', buf', n') \<Longrightarrow>
     \<exists>accs. sim' = sim\<lparr>sb_accounts := accs\<rparr>"
  by (auto simp: tick_open_step_def bind_Some_iff Let_def split_beta set_ledger_def
      split: option.splits) (metis sim_broker.surjective sim_broker.update_convs(1))

lemma tick_pending_loop_frame:
  "tick_pending_loop k p m i st = Some st' \<Longrightarrow> \<exists>accs. fst st' = (fst st)\<lparr>sb_accounts := accs\<rparr>"
proof (induction k p m i st rule: tick_pending_loop.induct)
  case (1 k p m i st)
  obtain sim buf n where st: "st = (sim, buf, n)" by (cases st) auto
  from "1.prems" obtain len where len: "pending_len k sim = Some len"
    by (subst (asm) tick_pending_loop.simps) (auto simp: bind_Some_iff st)
  show ?case
  proof (cases "i < len")
    case True
    with "1.prems" len st obtain i' st1 where s: "tick_pending_step k p m i st = Some (i', st1)"
      and l: "tick_pending_loop k p m i' st1 = Some st'"
      by (subst (asm) tick_pending_loop.simps) (auto simp: bind_Some_iff)
    from "1.IH" [OF _ True s _ l] len st obtain accs where "fst st' = (fst st1)\<lparr>sb_accounts := accs\<rparr>"
      by auto
    moreover obtain accs1 where "fst st1 = sim\<lparr>sb_accounts := accs1\<rparr>"
      using s st tick_pending_step_frame [of k p m i sim buf n i' "fst st1"] by (cases st1) auto
    ultimately show ?thesis using st by auto
  next
    case False
    with "1.prems" len st have "st' = st"
      by (subst (asm) tick_pending_loop.simps) auto
    then show ?thesis by (intro exI [of _ "sb_accounts (fst st)"]) simp
  qed
qed

lemma tick_open_loop_frame:
  "tick_open_loop k p m i st = Some st' \<Longrightarrow> \<exists>accs. fst st' = (fst st)\<lparr>sb_accounts := accs\<rparr>"
proof (induction k p m i st rule: tick_open_loop.induct)
  case (1 k p m i st)
  obtain sim buf n where st: "st = (sim, buf, n)" by (cases st) auto
  from "1.prems" obtain len where len: "open_len k sim = Some len"
    by (subst (asm) tick_open_loop.simps) (auto simp: bind_Some_iff st)
  show ?case
  proof (cases "i < len")
    case True
    with "1.prems" len st obtain i' st1 where s: "tick_open_step k p m i st = Some (i', st1)"
      and l: "tick_open_loop k p m i' st1 = Some st'"
      by (subst (asm) tick_open_loop.simps) (auto simp: bind_Some_iff)
    from "1.IH" [OF _ True s _ l] len st obtain accs where "fst st' = (fst st1)\<lparr>sb_accounts := accs\<rparr>"
      by auto
    moreover obtain accs1 where "fst st1 = sim\<lparr>sb_accounts := accs1\<rparr>"
      using s st tick_open_step_frame [of k p m i sim buf n i' "fst st1"] by (cases st1) auto
    ultimately show ?thesis using st by auto
  next
    case False
    with "1.prems" len st have "st' = st"
      by (subst (asm) tick_open_loop.simps) auto
    then show ?thesis by (intro exI [of _ "sb_accounts (fst st)"]) simp
  qed
qed

lemma tick_positions_frame:
  assumes "tick_positions k p m buf sim = Some (n, buf', sim')"
  obtains accs where "sim' = sim\<lparr>sb_accounts := accs\<rparr>"
proof -
  from assms obtain st where 1: "tick_pending_loop k p m 0 (sim, buf, 0) = Some st"
    and 2: "tick_open_loop k p m 0 st = Some (sim', buf', n)"
    by (auto simp: tick_positions_def bind_Some_iff)
  show ?thesis
    using that tick_pending_loop_frame [OF 1] tick_open_loop_frame [OF 2] by auto
qed

section \<open>Streams in order\<close>

coinductive iter_from :: "u64 \<Rightarrow> (unit + tick) iter \<Rightarrow> bool" where
  iter_from_Done: "iter_from t Done"
| iter_from_Yield: "t \<le> t_timestamp k \<Longrightarrow> iter_from (t_timestamp k) r \<Longrightarrow> iter_from t (Yield (Inr k) r)"

inductive_cases iter_from_YieldE: "iter_from t (Yield x r)"
inductive_simps iter_from_simps [simp]: "iter_from t Done" "iter_from t (Yield x r)"

definition symbol_timed :: "symbol \<Rightarrow> bool" where
  "symbol_timed s \<longleftrightarrow>
     (case sy_next_tick s of
        Some t \<Rightarrow> (\<exists>it. sy_input_iter s = Some it \<and> iter_from (t_timestamp t) it)
      | None \<Rightarrow> sy_input_iter s = None \<or> sy_input_iter s = Some Done)"

definition next_from :: "u64 \<Rightarrow> symbols \<Rightarrow> bool" where
  "next_from T ss \<longleftrightarrow> (\<forall>s\<in>set (sy_data ss). \<forall>t. sy_next_tick s = Some t \<longrightarrow> T \<le> t_timestamp t)"

definition symbols_timed :: "symbols \<Rightarrow> bool" where
  "symbols_timed ss \<longleftrightarrow> (\<forall>s\<in>set (sy_data ss). symbol_timed s)"

text \<open>The scan for the smallest timestamp.\<close>

text \<open>
  The walk of \<open>next_tick\<close> keeps the earliest tick seen: one step either keeps the candidate,
  which is then no later than the tick of the symbol passed, or takes that tick.
\<close>

definition min_step :: "nat \<Rightarrow> nat \<times> tick option \<Rightarrow> symbol \<Rightarrow> nat \<times> tick option" where
  "min_step i acc s = (case sy_next_tick s of None \<Rightarrow> acc
     | Some t \<Rightarrow> if (case snd acc of None \<Rightarrow> True | Some m \<Rightarrow> t_timestamp m > t_timestamp t)
                then (i, Some t) else acc)"

lemma min_tick_from_Nil [simp]: "min_tick_from i acc [] = acc"
  by (cases acc) simp

lemma min_tick_from_step: "min_tick_from i acc (s # ss) = min_tick_from (Suc i) (min_step i acc s) ss"
  by (cases acc) (simp add: min_step_def split: option.split)

lemma min_step_cases:
  obtains (keep) "min_step i acc s = acc"
      "\<And>u. sy_next_tick s = Some u \<Longrightarrow> \<exists>m. snd acc = Some m \<and> t_timestamp m \<le> t_timestamp u"
  | (take) t where "min_step i acc s = (i, Some t)" "sy_next_tick s = Some t"
      "\<And>m. snd acc = Some m \<Longrightarrow> t_timestamp t \<le> t_timestamp m"
proof (cases "sy_next_tick s")
  case None
  then show ?thesis by (intro keep) (simp_all add: min_step_def)
next
  case (Some t)
  show ?thesis
  proof (cases "\<exists>m. snd acc = Some m \<and> t_timestamp m \<le> t_timestamp t")
    case True
    with Some show ?thesis by (intro keep) (auto simp: min_step_def)
  next
    case False
    with Some show ?thesis by (intro take [of t]) (auto simp: min_step_def not_le split: option.splits)
  qed
qed

lemma min_tick_from_none:
  "min_tick_from i acc ss = (mi, None) \<Longrightarrow> snd acc = None \<and> (\<forall>s\<in>set ss. sy_next_tick s = None)"
proof (induction ss arbitrary: i acc)
  case (Cons s ss)
  then have "min_tick_from (Suc i) (min_step i acc s) ss = (mi, None)" by (simp only: min_tick_from_step)
  note ih = Cons.IH [OF this]
  show ?case by (cases rule: min_step_cases [of i acc s]) (use ih in fastforce)+
qed simp

lemma min_tick_from_least:
  "min_tick_from i acc ss = (mi, Some t) \<Longrightarrow>
     (\<forall>m. snd acc = Some m \<longrightarrow> t_timestamp t \<le> t_timestamp m) \<and>
     (\<forall>s\<in>set ss. \<forall>u. sy_next_tick s = Some u \<longrightarrow> t_timestamp t \<le> t_timestamp u)"
proof (induction ss arbitrary: i acc)
  case (Cons s ss)
  then have "min_tick_from (Suc i) (min_step i acc s) ss = (mi, Some t)" by (simp only: min_tick_from_step)
  note ih = Cons.IH [OF this]
  show ?case by (cases rule: min_step_cases [of i acc s]) (use ih in \<open>fastforce intro: order_trans\<close>)+
qed simp

lemma min_tick_from_index:
  "min_tick_from i acc ss = (mi, mt) \<Longrightarrow>
     (mi, mt) = acc \<or> (i \<le> mi \<and> mi < i + length ss \<and> sy_next_tick (ss ! (mi - i)) = mt)"
proof (induction ss arbitrary: i acc)
  case (Cons s ss)
  then have "min_tick_from (Suc i) (min_step i acc s) ss = (mi, mt)" by (simp only: min_tick_from_step)
  note ih = Cons.IH [OF this]
  have idx: "(s # ss) ! (mi - i) = ss ! (mi - Suc i)" if "Suc i \<le> mi"
    using that by (simp add: nth_Cons' Suc_diff_le)
  show ?case by (cases rule: min_step_cases [of i acc s]) (use ih idx in auto)
qed simp

lemma sy_data_simps:
  assumes "symbols_ix ss i = Some s"
  shows "i < length (sy_data ss)" and "s = sy_data ss ! i" and "s \<in> set (sy_data ss)"
  using assms by (auto simp: symbols_ix_def)

lemma symbol_next_timed:
  assumes "symbol_timed s" and "symbol_next s = Some (item, s')"
    and "(case item of None \<Rightarrow> Some None | Some r \<Rightarrow> do { t \<leftarrow> unwrap_ok r; ret (Some t) }) = Some f"
  shows "symbol_timed (s'\<lparr>sy_next_tick := f\<rparr>)"
    and "\<And>t u. sy_next_tick s = Some t \<Longrightarrow> f = Some u \<Longrightarrow> t_timestamp t \<le> t_timestamp u"
    and "sy_next_tick s = None \<Longrightarrow> f = None"
  using assms
  by (auto simp: symbol_timed_def symbol_next_def bind_Some_iff iter_next_def unwrap_ok_def
      split: option.splits iter.splits sum.splits)

lemma next_tick_timed:
  assumes timed: "symbols_timed ss" and run: "next_tick ss = Some (opt, ss')"
  shows "symbols_timed ss'"
    and "next_from T ss \<Longrightarrow> next_from T ss'"
    and "\<And>i t. opt = Some (i, t) \<Longrightarrow> next_from (t_timestamp t) ss' \<and> (next_from T ss \<longrightarrow> T \<le> t_timestamp t)"
    and "length (sy_data ss') = length (sy_data ss)" and "sy_hm ss' = sy_hm ss"
proof -
  from run obtain s0 where s0: "symbols_ix ss 0 = Some s0"
    by (auto simp: next_tick_def bind_Some_iff)
  obtain mi mt where mi: "min_tick_from 1 (0, sy_next_tick s0) (tl (sy_data ss)) = (mi, mt)"
    by fastforce
  from run s0 mi obtain sm item sm' f where
    sm: "symbols_ix ss mi = Some sm"
    and nx: "symbol_next sm = Some (item, sm')"
    and f: "(case item of None \<Rightarrow> Some None | Some r \<Rightarrow> do { t \<leftarrow> unwrap_ok r; ret (Some t) }) = Some f"
    and ss': "symbols_set ss mi (sm'\<lparr>sy_next_tick := f\<rparr>) = Some ss'"
    and opt: "opt = map_option (\<lambda>t. (mi, t)) mt"
    by (auto simp: next_tick_def bind_Some_iff)
  have data: "sy_data ss' = (sy_data ss)[mi := sm'\<lparr>sy_next_tick := f\<rparr>]" "sy_hm ss' = sy_hm ss"
    using ss' by (auto simp: symbols_set_def bind_Some_iff)
  note in0 = sy_data_simps [OF s0] and inm = sy_data_simps [OF sm]
  have split: "set (sy_data ss) = insert s0 (set (tl (sy_data ss)))"
    using in0 by (cases "sy_data ss") auto
  have smt: "sy_next_tick sm = mt"
    using min_tick_from_index [OF mi] in0 inm by (cases "sy_data ss") (auto simp: nth_Cons')
  have least: "t_timestamp t \<le> t_timestamp u"
    if "mt = Some t" "s \<in> set (sy_data ss)" "sy_next_tick s = Some u" for t s u
    using min_tick_from_least [OF mi [unfolded that(1)]] that(2,3) unfolding split by auto
  note tm = symbol_next_timed [OF _ nx f]
  have sm_timed: "symbol_timed sm" using timed inm(3) by (simp add: symbols_timed_def)
  have new: "s \<in> set (sy_data ss) \<or> s = sm'\<lparr>sy_next_tick := f\<rparr>" if "s \<in> set (sy_data ss')" for s
    using that set_update_subset_insert [of "sy_data ss" mi "sm'\<lparr>sy_next_tick := f\<rparr>"] unfolding data by blast
  show "symbols_timed ss'"
    using timed tm(1) [OF sm_timed] new unfolding symbols_timed_def by blast
  have fge: "t_timestamp t \<le> t_timestamp u" if "mt = Some t" "f = Some u" for t u
    using tm(2) [OF sm_timed] smt that by blast
  show "next_from T ss'" if T: "next_from T ss"
  proof -
    have "T \<le> t_timestamp u" if u: "f = Some u" for u
    proof (cases mt)
      case None
      then show ?thesis using tm(3) [OF sm_timed] smt u by simp
    next
      case (Some t)
      then have "T \<le> t_timestamp t" using T smt inm(3) by (auto simp: next_from_def)
      with fge [OF Some u] show ?thesis by simp
    qed
    with T new show ?thesis by (fastforce simp: next_from_def)
  qed
  show "next_from (t_timestamp t) ss' \<and> (next_from T ss \<longrightarrow> T \<le> t_timestamp t)"
    if o: "opt = Some (i, t)" for i t
  proof -
    have mt: "mt = Some t" using o opt by auto
    have "next_from (t_timestamp t) ss'"
      using new least [OF mt] fge [OF mt] unfolding next_from_def by fastforce
    moreover have "next_from T ss \<longrightarrow> T \<le> t_timestamp t"
      using smt mt inm(3) by (auto simp: next_from_def)
    ultimately show ?thesis ..
  qed
  show "length (sy_data ss') = length (sy_data ss)" "sy_hm ss' = sy_hm ss" by (simp_all add: data)
qed

section \<open>The clock\<close>

definition item_timed :: "symbols \<Rightarrow> u64 \<Rightarrow> queue_item \<Rightarrow> bool" where
  "item_timed ss T x \<longleftrightarrow> T \<le> qi_timestamp x \<and>
     (\<forall>k t. qi_unit x = NewTick k t \<longrightarrow> qi_timestamp x = t_timestamp t \<and> next_from (t_timestamp t) ss)"

definition timeline :: "'g sim_broker \<Rightarrow> bool" where
  "timeline sim \<longleftrightarrow> is_heap qi_timestamp (sb_pq sim) \<and> symbols_timed (sb_symbols sim) \<and>
     (\<forall>x\<in>#mset (sb_pq sim). item_timed (sb_symbols sim) (sb_timestamp sim) x)"

text \<open>No time in the queue is so late that adding the delays would wrap.\<close>

definition no_wrap :: "'g sim_broker \<Rightarrow> bool" where
  "no_wrap sim \<longleftrightarrow> (\<forall>T\<in>insert (sb_timestamp sim) (qi_timestamp ` set (sb_pq sim)).
     unat T + unat (execution_delay_ns (sb_settings sim)) + unat (ping_ns (sb_settings sim)) < 2 ^ 64)"

lemma no_wrap_add: "unat T + unat d < 2 ^ 64 \<Longrightarrow> T \<le> (T + d :: u64)"
  by (simp add: word_le_nat_alt unat_word_ariths)

lemma set_sq_push: "set_mset (mset (sq_push x q)) = insert x (set_mset (mset q))"
  unfolding sq_push_def by (simp add: heap.items_push)

lemma timeline_push:
  assumes "timeline sim" and "item_timed (sb_symbols sim) (sb_timestamp sim) x"
  shows "timeline (sim\<lparr>sb_pq := sq_push x (sb_pq sim)\<rparr>)"
  using assms by (auto simp: timeline_def is_heap_sq_push set_sq_push simp flip: set_mset_mset)

lemma item_timed_other:
  "T \<le> qi_timestamp x \<Longrightarrow> (\<And>k t. qi_unit x \<noteq> NewTick k t) \<Longrightarrow> item_timed ss T x"
  by (simp add: item_timed_def)

lemma timeline_frame:
  assumes tl: "timeline sim" and f: "action_frame sim sim'"
    and w: "sb_timestamp sim \<le> sb_timestamp sim + ping_ns (sb_settings sim)"
  shows "timeline sim'"
proof -
  from f have "sb_pq sim' = sb_pq sim \<or> (\<exists>x. sb_pq sim' = sq_push x (sb_pq sim) \<and>
      item_timed (sb_symbols sim) (sb_timestamp sim) x)"
    using w by (auto simp: action_frame_def notified_def intro!: item_timed_other)
  then show ?thesis
    using tl f by (auto simp: timeline_def action_frame_def is_heap_sq_push set_sq_push simp flip: set_mset_mset)
qed

lemma recv_actions_timeline:
  "timeline sim \<Longrightarrow>
     unat (sb_timestamp sim) + unat (execution_delay_ns (sb_settings sim)) < 2 ^ 64 \<Longrightarrow>
     recv_actions n sim = Some sim' \<Longrightarrow>
     timeline sim' \<and> sb_timestamp sim' = sb_timestamp sim \<and> sb_settings sim' = sb_settings sim \<and>
     sb_symbols sim' = sb_symbols sim \<and>
     set (sb_pq sim') \<subseteq> set (sb_pq sim) \<union>
       {x. qi_timestamp x = sb_timestamp sim + execution_delay_ns (sb_settings sim)}"
proof (induction n arbitrary: sim)
  case (Suc n)
  then obtain action complete rest where rx: "sb_client_rx sim = (action, complete) # rest"
    by (auto split: list.splits)
  let ?x = "\<lparr>qi_timestamp = sb_timestamp sim + execution_delay_ns (sb_settings sim),
    qi_unit = ActionComplete complete action\<rparr>"
  let ?s = "sim\<lparr>sb_client_rx := rest, sb_pq := sq_push ?x (sb_pq sim)\<rparr>"
  have "item_timed (sb_symbols sim) (sb_timestamp sim) ?x"
    using no_wrap_add [OF Suc.prems(2)] by (intro item_timed_other) simp_all
  then have "timeline ?s"
    using timeline_push [OF Suc.prems(1)] by (simp add: timeline_def)
  with Suc.IH [of ?s] Suc.prems rx show ?case
    by (auto simp: get_delay_def set_sq_push [unfolded set_mset_mset])
qed simp

lemma push_next_tick_timeline:
  assumes tl: "timeline sim" and nf: "next_from (sb_timestamp sim) (sb_symbols sim)"
    and run: "push_next_tick (sb_pq sim) (sb_symbols sim) = Some (q, ss)"
  shows "timeline (sim\<lparr>sb_pq := q, sb_symbols := ss\<rparr>)"
proof -
  from run obtain opt where nt: "next_tick (sb_symbols sim) = Some (opt, ss)"
    and q: "q = (case opt of Some (ix, t) \<Rightarrow>
        sq_push \<lparr>qi_timestamp = t_timestamp t, qi_unit = NewTick ix t\<rparr> (sb_pq sim) | None \<Rightarrow> sb_pq sim)"
    by (auto simp: push_next_tick_def bind_Some_iff split: option.splits)
  from tl have ts: "symbols_timed (sb_symbols sim)" by (simp add: timeline_def)
  note t = next_tick_timed [OF ts nt]
  have old: "item_timed ss (sb_timestamp sim) x" if "x \<in># mset (sb_pq sim)" for x
    using tl that t(2) by (auto simp: timeline_def item_timed_def)
  have new: "item_timed ss (sb_timestamp sim) \<lparr>qi_timestamp = t_timestamp k, qi_unit = NewTick ix k\<rparr>"
    if "opt = Some (ix, k)" for ix k
    using t(3) [OF that, of "sb_timestamp sim"] nf by (simp add: item_timed_def)
  have "is_heap qi_timestamp q"
    using tl by (auto simp: q timeline_def is_heap_sq_push split: option.splits)
  moreover have "item_timed ss (sb_timestamp sim) x" if "x \<in># mset q" for x
    using that old new by (auto simp: q set_sq_push [unfolded set_mset_mset] split: option.splits)
  ultimately show ?thesis using t(1) by (simp add: timeline_def)
qed

lemma symbols_same_ticks:
  assumes "symbols_ix ss i = Some s" and "symbols_set ss i s' = Some ss'"
    and "sy_next_tick s' = sy_next_tick s" and "sy_input_iter s' = sy_input_iter s"
  shows "symbols_timed ss' = symbols_timed ss" and "next_from T ss' = next_from T ss"
proof -
  from assms have i: "i < length (sy_data ss)" "s = sy_data ss ! i" and d: "sy_data ss' = (sy_data ss)[i := s']"
    by (auto simp: symbols_ix_def symbols_set_def bind_Some_iff)
  have eq: "sy_next_tick (sy_data ss' ! j) = sy_next_tick (sy_data ss ! j)"
    "sy_input_iter (sy_data ss' ! j) = sy_input_iter (sy_data ss ! j)" for j
    using assms(3,4) i unfolding d by (cases "i = j"; simp)+
  have len: "length (sy_data ss') = length (sy_data ss)" by (simp add: d)
  show "symbols_timed ss' = symbols_timed ss" "next_from T ss' = next_from T ss"
    unfolding symbols_timed_def next_from_def all_set_conv_all_nth symbol_timed_def eq len by simp_all
qed

lemma timeline_symbols:
  assumes "timeline sim" and "symbols_ix (sb_symbols sim) i = Some s"
    and "symbols_set (sb_symbols sim) i s' = Some ss'"
    and "sy_next_tick s' = sy_next_tick s" and "sy_input_iter s' = sy_input_iter s"
  shows "timeline (sim\<lparr>sb_symbols := ss'\<rparr>)"
    and "next_from T ss' = next_from T (sb_symbols sim)"
  using assms(1) symbols_same_ticks [OF assms(2-5)]
  by (simp_all add: timeline_def item_timed_def)

lemma new_tick_timeline:
  assumes tl: "timeline sim" and wrap: "unat (sb_timestamp sim) + unat (ping_ns (sb_settings sim)) < 2 ^ 64"
    and item: "item_timed (sb_symbols sim) T \<lparr>qi_timestamp = sb_timestamp sim, qi_unit = NewTick k t\<rparr>"
    and run: "process_unit rng (NewTick k t) (sb_timestamp sim) buf sim = Some (n, buf', sim')"
  shows "timeline sim' \<and> sb_timestamp sim' = sb_timestamp sim"
proof -
  from item have t: "sb_timestamp sim = t_timestamp t" "next_from (t_timestamp t) (sb_symbols sim)"
    by (auto simp: item_timed_def)
  note w = no_wrap_add [OF wrap]
  from run obtain s ss q ss2 n' sim2 where
    s: "symbols_ix (sb_symbols sim) k = Some s"
    and ss: "symbols_set (sb_symbols sim) k (s\<lparr>sy_price := (t_bid t, t_ask t)\<rparr>) = Some ss"
    and tp: "tick_positions k (t_bid t, t_ask t) 0 buf (sim\<lparr>sb_symbols := ss,
      sb_pq := sq_push \<lparr>qi_timestamp = t_timestamp t + ping_ns (sb_settings sim),
                         qi_unit = ClientTick k t\<rparr> (sb_pq sim)\<rparr>) = Some (n', buf', sim2)"
    and nt: "push_next_tick (sb_pq sim2) (sb_symbols sim2) = Some (q, ss2)"
    and sim': "sim' = sim2\<lparr>sb_pq := q, sb_symbols := ss2\<rparr>"
    by (auto simp: bind_Some_iff Let_def)
  let ?s1 = "sim\<lparr>sb_symbols := ss\<rparr>"
  have t1: "timeline ?s1" and n1: "next_from (t_timestamp t) ss"
    using timeline_symbols [OF tl s ss] t by simp_all
  let ?s2 = "?s1\<lparr>sb_pq := sq_push \<lparr>qi_timestamp = t_timestamp t + ping_ns (sb_settings sim),
    qi_unit = ClientTick k t\<rparr> (sb_pq ?s1)\<rparr>"
  have t2: "timeline ?s2"
    using w t(1) by (intro timeline_push [OF t1] item_timed_other) simp_all
  from tp obtain accs where sim2: "sim2 = ?s2\<lparr>sb_accounts := accs\<rparr>"
    by (auto elim: tick_positions_frame)
  have "timeline sim2" using t2 by (simp add: sim2 timeline_def)
  from push_next_tick_timeline [OF this _ nt] n1 t(1) show ?thesis
    by (simp add: sim' sim2)
qed

lemma action_complete_timeline:
  assumes tl: "timeline sim" and wrap: "unat (sb_timestamp sim) + unat (ping_ns (sb_settings sim)) < 2 ^ 64"
    and run: "process_unit rng (ActionComplete future action) (sb_timestamp sim) buf sim = Some (n, buf', sim')"
  shows "timeline sim' \<and> sb_timestamp sim' = sb_timestamp sim"
proof -
  from run obtain res sim1 where
    ex: "exec_action rng action sim = Some (res, sim1)"
    and sim': "sim' = sim1\<lparr>sb_pq := sq_push \<lparr>qi_timestamp = sb_timestamp sim + ping_ns (sb_settings sim1),
      qi_unit = Response future res\<rparr> (sb_pq sim1)\<rparr>"
    by (auto simp: bind_Some_iff)
  note f = exec_action_frame [OF ex]
  have t1: "timeline sim1" by (rule timeline_frame [OF tl f no_wrap_add [OF wrap]])
  have same: "sb_timestamp sim1 = sb_timestamp sim" "sb_settings sim1 = sb_settings sim"
    using f by (simp_all add: action_frame_def)
  have "timeline sim'"
    unfolding sim' using no_wrap_add [OF wrap] same
    by (intro timeline_push [OF t1] item_timed_other) simp_all
  then show ?thesis using same by (simp add: sim')
qed

lemma process_unit_timeline:
  assumes tl: "timeline sim" and item: "item_timed (sb_symbols sim) T \<lparr>qi_timestamp = sb_timestamp sim, qi_unit = w\<rparr>"
    and wrap: "unat (sb_timestamp sim) + unat (ping_ns (sb_settings sim)) < 2 ^ 64"
    and run: "process_unit rng w (sb_timestamp sim) buf sim = Some (n, buf', sim')"
  shows "timeline sim' \<and> sb_timestamp sim' = sb_timestamp sim"
proof (cases w)
  case (NewTick k t)
  from new_tick_timeline [OF tl wrap item [unfolded NewTick] run [unfolded NewTick]] show ?thesis .
next
  case (ClientTick k t)
  from run ClientTick obtain s s' ss where
    s: "symbols_ix (sb_symbols sim) k = Some s" and s': "send_client t s = Some s'"
    and ss: "symbols_set (sb_symbols sim) k s' = Some ss" and sim': "sim' = sim\<lparr>sb_symbols := ss\<rparr>"
    by (auto simp: bind_Some_iff)
  from s' have "sy_next_tick s' = sy_next_tick s" "sy_input_iter s' = sy_input_iter s"
    by (auto simp: send_client_def bind_Some_iff)
  from timeline_symbols(1) [OF tl s ss this] show ?thesis by (simp add: sim')
next
  case (ActionComplete future action)
  from action_complete_timeline [OF tl wrap run [unfolded ActionComplete]] show ?thesis .
qed (use run tl in \<open>auto simp: bind_Some_iff timeline_def Let_def\<close>)

lemma tick_sim_loop_timeline:
  assumes tl: "timeline sim" and wrap: "no_wrap sim"
    and run: "tick_sim_loop rng m buf sim = Some (n, buf', sim')"
  shows "timeline sim' \<and> sb_timestamp sim \<le> sb_timestamp sim'"
proof -
  from run obtain sim1 item q where
    rc: "recv_actions m sim = Some sim1" and pop: "sq_pop (sb_pq sim1) = Some (item, q)"
    and pu: "process_unit rng (qi_unit item) (qi_timestamp item) buf
      (sim1\<lparr>sb_pq := q, sb_timestamp := qi_timestamp item\<rparr>) = Some (n, buf', sim')"
    by (auto simp: tick_sim_loop_def bind_Some_iff)
  let ?d = "execution_delay_ns (sb_settings sim)" and ?p = "ping_ns (sb_settings sim)"
  have d: "unat (sb_timestamp sim) + unat ?d < 2 ^ 64"
    using wrap by (auto simp: no_wrap_def)
  note r = recv_actions_timeline [OF tl d rc]
  then have t1: "timeline sim1" by blast
  then have heap: "is_heap qi_timestamp (sb_pq sim1)" by (simp add: timeline_def)
  note pop = pop [unfolded sq_pop_def]
  let ?s = "sim1\<lparr>sb_pq := q, sb_timestamp := qi_timestamp item\<rparr>"
  have it: "item \<in># mset (sb_pq sim1)" by (rule heap.pop_in [OF heap pop])
  then have timed: "item_timed (sb_symbols sim1) (sb_timestamp sim1) item"
    using t1 by (simp add: timeline_def)
  have rest: "item_timed (sb_symbols sim1) (qi_timestamp item) x" if x: "x \<in># mset q" for x
    using t1 heap.pop_keeps [OF heap pop x] heap.pop_later [OF heap pop x]
    by (auto simp: timeline_def item_timed_def)
  have t2: "timeline ?s"
    using t1 rest heap.ok_pop [OF heap pop] by (simp add: timeline_def)
  have "unat (qi_timestamp item) + unat ?p < 2 ^ 64"
  proof (cases "item \<in> set (sb_pq sim)")
    case True
    then show ?thesis using wrap by (auto simp: no_wrap_def)
  next
    case False
    with r it have i: "qi_timestamp item = sb_timestamp sim + ?d" by auto
    have "unat (sb_timestamp sim + ?d) = unat (sb_timestamp sim) + unat ?d"
      using d by (simp add: unat_word_ariths)
    with i wrap show ?thesis by (auto simp: no_wrap_def)
  qed
  then have "timeline sim' \<and> sb_timestamp sim' = qi_timestamp item"
    using process_unit_timeline [OF t2, of "sb_timestamp sim1" "qi_unit item"] timed pu r
    by (simp add: item_timed_def)
  with timed r show ?thesis by (simp add: item_timed_def)
qed

section \<open>Runs of the event loop\<close>

text \<open>
  Between two turns of the loop the client may send an action. A turn whose times would wrap
  is not a step.
\<close>

inductive sim_step :: "'g rng \<Rightarrow> 'g sim_broker \<Rightarrow> 'g sim_broker \<Rightarrow> bool" for rng where
  sim_step_turn: "no_wrap sim \<Longrightarrow> tick_sim_loop rng m buf sim = Some (n, buf', sim') \<Longrightarrow> sim_step rng sim sim'"
| sim_step_send: "sim_step rng sim (sim\<lparr>sb_client_rx := sb_client_rx sim @ [(action, c)]\<rparr>)"

inductive_cases sim_stepE: "sim_step rng sim sim'"

lemma timeline_client_rx [simp]: "timeline (sim\<lparr>sb_client_rx := rx\<rparr>) = timeline sim"
  by (simp add: timeline_def)

interpretation sim_clock: clocked "sim_step rng" timeline sb_timestamp
  for rng :: "'g rng"
proof
  show "timeline sim'" if "timeline sim" "sim_step rng sim sim'" for sim sim'
    using that(2,1)
    by cases (auto dest: tick_sim_loop_timeline)
  show "sb_timestamp sim \<le> sb_timestamp sim'" if "timeline sim" "sim_step rng sim sim'" for sim sim'
    using that(2,1) by cases (auto dest: tick_sim_loop_timeline)
qed

section \<open>A new broker\<close>

text \<open>The definitions of tick streams a broker can start from.\<close>

definition def_wf :: "string \<times> (string + (unit + tick) iter) \<times> bool \<times> nat \<Rightarrow> bool" where
  "def_wf d = (case d of (name, strm, is_fx, decimals) \<Rightarrow> (is_fx \<longrightarrow> 3 \<le> length name) \<and> decimals < 64)"

definition def_timed :: "string \<times> (string + (unit + tick) iter) \<times> bool \<times> nat \<Rightarrow> bool" where
  "def_timed d = (case d of (name, strm, is_fx, decimals) \<Rightarrow> \<forall>it. strm = Inr it \<longrightarrow> iter_from 0 it)"

lemma symbol_synced_old:
  "ix < length (acc_positions accs) \<Longrightarrow> symbol_synced (add_symbol accs) ix = symbol_synced accs ix"
  by (simp add: symbol_synced_def add_symbol_def nth_append)

lemma accounts_wf_add_symbol:
  assumes "accounts_wf accs"
  shows "accounts_wf (add_symbol accs)"
proof -
  let ?n = "length (acc_positions accs)"
  note parts = accounts_wf_parts [OF assms]
  have none: "ledger_view pending_positions accs a u = Some p \<Longrightarrow> p_symbol_id p \<noteq> ?n"
    "ledger_view open_positions accs a u = Some p \<Longrightarrow> p_symbol_id p \<noteq> ?n" for a u p
    using parts(2) unfolding symbols_known_def by (metis nat_neq_iff)+
  have new: "symbol_synced (add_symbol accs) ?n"
    using none by (auto simp: symbol_synced_def add_symbol_def positions_new_def cached_as_def nth_append)
  have "symbol_synced (add_symbol accs) ix" if "ix < Suc ?n" for ix
    using that new accounts_wf_synced [OF assms, of ix] symbol_synced_old [of ix accs]
    by (cases "ix = ?n") auto
  moreover have "symbols_known (add_symbol accs)"
    using parts(2) unfolding symbols_known_def add_symbol_def ledger_view_positions
    by (auto dest: less_SucI)
  ultimately show ?thesis using parts(1) by (simp add: accounts_wf_def add_symbol_def)
qed

lemma register_tickstream_Some:
  assumes "register_tickstream name it is_fx decimals sim = Some (r, sim')"
  obtains t0 t1 rest where "it = Yield (Inr t0) (Yield (Inr t1) rest)"
    "(r, sb_symbols sim') = symbols_add (sb_symbols sim) name
       \<lparr>sy_name = name, sy_input_iter = Some rest, sy_client_sender = Some [], sy_client_receiver = True,
        sy_is_fx = is_fx, sy_decimal_precision = decimals, sy_price = (0, 0), sy_next_tick = Some t1\<rparr>"
    "sim' = sim\<lparr>sb_accounts := add_symbol (sb_accounts sim), sb_symbols := sb_symbols sim'\<rparr>"
  using assms
  by (auto simp: register_tickstream_def bind_Some_iff Let_def new_from_stream_def symbol_next_def
      iter_next_def unwrap_ok_def split_beta split: iter.splits sum.splits)

lemma register_tickstream_wf:
  assumes wf: "broker_wf sim" and d: "def_wf (name, Inr it, is_fx, decimals)"
    and len: "Suc (length (sy_data (sb_symbols sim))) < 2 ^ 63"
    and run: "register_tickstream name it is_fx decimals sim = Some (Inr m, sim')"
  shows "broker_wf sim'" and "length (sy_data (sb_symbols sim')) = Suc (length (sy_data (sb_symbols sim)))"
    and "timeline sim \<Longrightarrow> iter_from 0 it \<Longrightarrow> sb_pq sim = [] \<Longrightarrow> timeline sim' \<and> sb_pq sim' = []"
proof -
  from run obtain t0 t1 rest where it: "it = Yield (Inr t0) (Yield (Inr t1) rest)"
    and add: "(Inr m, sb_symbols sim') = symbols_add (sb_symbols sim) name
       \<lparr>sy_name = name, sy_input_iter = Some rest, sy_client_sender = Some [], sy_client_receiver = True,
        sy_is_fx = is_fx, sy_decimal_precision = decimals, sy_price = (0, 0), sy_next_tick = Some t1\<rparr>"
    and sim': "sim' = sim\<lparr>sb_accounts := add_symbol (sb_accounts sim), sb_symbols := sb_symbols sim'\<rparr>"
    by (rule register_tickstream_Some)
  let ?s = "\<lparr>sy_name = name, sy_input_iter = Some rest, sy_client_sender = Some [],
    sy_client_receiver = True, sy_is_fx = is_fx, sy_decimal_precision = decimals, sy_price = (0, 0),
    sy_next_tick = Some t1\<rparr>"
  have ss: "sb_symbols sim' = (sb_symbols sim)\<lparr>sy_data := sy_data (sb_symbols sim) @ [?s],
      sy_hm := (sy_hm (sb_symbols sim))(name \<mapsto> length (sy_data (sb_symbols sim)))\<rparr>"
    using add by (auto simp: symbols_add_def Let_def split: if_splits)
  have other: "sb_accounts sim' = add_symbol (sb_accounts sim)" "sb_pq sim' = sb_pq sim"
    "sb_timestamp sim' = sb_timestamp sim"
    by (subst sim', simp)+
  have sw: "symbol_wf ?s" using d by (simp add: symbol_wf_def def_wf_def)
  have old: "symbols_wf (sb_symbols sim)" using wf by (simp add: broker_wf_def)
  have "symbols_wf (sb_symbols sim')"
    using old len sw unfolding symbols_wf_def ss by (auto split: if_splits dest: less_SucI)
  moreover have "accounts_wf (sb_accounts sim')"
    unfolding other by (rule accounts_wf_add_symbol [OF broker_wf_accounts [OF wf]])
  ultimately show "broker_wf sim'"
    using wf by (simp add: broker_wf_def other) (simp add: ss add_symbol_def)
  show "length (sy_data (sb_symbols sim')) = Suc (length (sy_data (sb_symbols sim)))"
    by (simp add: ss)
  show "timeline sim' \<and> sb_pq sim' = []" if "timeline sim" "iter_from 0 it" "sb_pq sim = []"
    using that it by (auto simp: timeline_def other ss symbols_timed_def symbol_timed_def)
qed

lemma register_all_wf:
  assumes "broker_wf sim" and "\<forall>d\<in>set defs. def_wf d"
    and "length (sy_data (sb_symbols sim)) + length defs < 2 ^ 63"
    and "register_all defs sim = Some (Inr sim')"
  shows "broker_wf sim' \<and>
    (timeline sim \<and> sb_pq sim = [] \<and> (\<forall>d\<in>set defs. def_timed d) \<longrightarrow> timeline sim' \<and> sb_pq sim' = [])"
  using assms
proof (induction defs sim rule: register_all.induct)
  case (2 name strm is_fx decimals defs sim)
  from "2.prems"(4) obtain it where strm: "strm = Inr it" by (cases strm) auto
  with "2.prems"(4) obtain res sim1 where reg': "register_tickstream name it is_fx decimals sim = Some (res, sim1)"
    and c: "(case res of Inl e \<Rightarrow> ret (Inl e) | Inr _ \<Rightarrow> register_all defs sim1) = Some (Inr sim')"
    by (auto simp: bind_Some_iff)
  from c obtain m where res: "res = Inr m" and all: "register_all defs sim1 = Some (Inr sim')"
    by (cases res) auto
  note reg = reg' [unfolded res]
  have d: "def_wf (name, Inr it, is_fx, decimals)" using "2.prems"(2) strm by simp
  have len: "Suc (length (sy_data (sb_symbols sim))) < 2 ^ 63" using "2.prems"(3) by simp
  note r = register_tickstream_wf [OF "2.prems"(1) d len reg]
  have "broker_wf sim' \<and> (timeline sim1 \<and> sb_pq sim1 = [] \<and> (\<forall>d\<in>set defs. def_timed d) \<longrightarrow>
      timeline sim' \<and> sb_pq sim' = [])"
    using "2.IH" [OF strm reg' refl res r(1) _ _ all] "2.prems"(2,3) r(2) by auto
  then show ?case using r(3) strm by (auto simp: def_timed_def)
qed simp

lemma sim_new_wf:
  assumes run: "sim_new rng g settings (Some defs) = Some (Inr sim)"
    and defs: "\<forall>d\<in>set defs. def_wf d" and len: "length defs < 2 ^ 63"
  shows "broker_wf sim" and "\<forall>d\<in>set defs. def_timed d \<Longrightarrow> timeline sim"
proof -
  obtain u g' where u: "gen_uuid rng g = (u, g')" by fastforce
  let ?acct = "\<lparr>acct_uuid = u, acct_ledger = ledger_new (starting_balance settings), acct_live = False\<rparr>"
  let ?accs = "accounts_insert u ?acct accounts_new"
  let ?sim = "\<lparr>sb_accounts = ?accs, sb_settings = settings, sb_symbols = symbols_new, sb_pq = [],
    sb_timestamp = 0, sb_client_rx = [], sb_prng = g', sb_completed = []\<rparr>"
  have all: "register_all defs ?sim = Some (Inr sim)"
    using run u by (simp add: sim_new_def)
  have get: "accounts_get ?accs a = (if a = u then Some ?acct else None)" for a
    by (simp add: accounts_new_def accounts_get_def accounts_insert_def)
  have view: "ledger_view f ?accs a v = (if a = u then f (ledger_new (starting_balance settings)) v else None)" for f a v
    unfolding ledger_view_def get by simp
  have "ledgers_wf ?accs"
    unfolding ledgers_wf_def get
    by (auto simp: accounts_insert_def accounts_new_def ledger_wf_new split: if_splits)
  moreover have "symbols_known ?accs" unfolding symbols_known_def view by (simp add: ledger_new_def)
  ultimately have "accounts_wf ?accs" by (simp add: accounts_wf_def accounts_new_def)
  then have wf: "broker_wf ?sim"
    by (simp add: broker_wf_def symbols_wf_def symbols_new_def accounts_new_def)
  have tl: "timeline ?sim" by (simp add: timeline_def symbols_timed_def symbols_new_def)
  show "broker_wf sim" and "\<forall>d\<in>set defs. def_timed d \<Longrightarrow> timeline sim"
    using register_all_wf [OF wf defs _ all] len tl by (simp_all add: symbols_new_def)
qed

lemma sq_init_loop_timeline:
  "timeline sim \<Longrightarrow> sb_timestamp sim = 0 \<Longrightarrow>
     sq_init_loop n (sb_pq sim) (sb_symbols sim) = Some (q, ss) \<Longrightarrow>
     timeline (sim\<lparr>sb_pq := q, sb_symbols := ss\<rparr>)"
proof (induction n arbitrary: sim)
  case (Suc n)
  from Suc.prems(3) obtain ix t ss1 where nt: "next_tick (sb_symbols sim) = Some (Some (ix, t), ss1)"
    and rest: "sq_init_loop n (sq_push \<lparr>qi_timestamp = t_timestamp t, qi_unit = NewTick ix t\<rparr> (sb_pq sim)) ss1
      = Some (q, ss)"
    by (auto simp: bind_Some_iff)
  let ?q = "sq_push \<lparr>qi_timestamp = t_timestamp t, qi_unit = NewTick ix t\<rparr> (sb_pq sim)"
  have "push_next_tick (sb_pq sim) (sb_symbols sim) = Some (?q, ss1)"
    by (simp add: push_next_tick_def nt)
  moreover have "next_from (sb_timestamp sim) (sb_symbols sim)"
    by (simp add: Suc.prems(2) next_from_def)
  ultimately have "timeline (sim\<lparr>sb_pq := ?q, sb_symbols := ss1\<rparr>)"
    using push_next_tick_timeline [OF Suc.prems(1)] by blast
  from Suc.IH [OF this] rest Suc.prems(2) show ?case by simp
qed (simp add: timeline_def)

lemma sim_init_loop_timeline:
  assumes "timeline sim" and "sb_timestamp sim = 0" and "sim_init_loop sim = Some sim'"
  shows "timeline sim'"
  using assms sq_init_loop_timeline [OF assms(1,2)]
  by (auto simp: sim_init_loop_def sq_init_def bind_Some_iff)

end
