(* ===== verification/Tg_SimProps.thy ===== *)
theory Tg_SimProps
  imports Tg_SimTick Tg_SimTime
begin

text \<open>
  The properties of the simulated broker, with an example broker on which their hypotheses
  are seen to hold: one symbol quoted at 100 to 102, one account with 1000 to spend, a long
  order waiting at 101 and an open long position of 10 units with its stop at 95.
\<close>

definition ex_order :: position where
  "ex_order = \<lparr>p_creation_time = 5, p_symbol_id = 0, p_size = 20, p_price = Some 101,
     p_long = True, p_stop = None, p_take_profit = None, p_execution_time = None,
     p_execution_price = None, p_exit_price = None, p_exit_time = None\<rparr>"

definition ex_position :: position where
  "ex_position = \<lparr>p_creation_time = 3, p_symbol_id = 0, p_size = 10, p_price = Some 100,
     p_long = True, p_stop = Some 95, p_take_profit = None, p_execution_time = Some 4,
     p_execution_price = Some 100, p_exit_price = None, p_exit_time = None\<rparr>"

definition ex_ledger :: ledger where
  "ex_ledger = \<lparr>buying_power = 1000, pending_positions = [7 \<mapsto> ex_order],
     open_positions = [8 \<mapsto> ex_position], closed_positions = Map.empty\<rparr>"

definition ex_settings :: sim_settings where
  "ex_settings = (settings_default [])\<lparr>fx := False, ping_ns := 50\<rparr>"

definition ex_symbol :: symbol where
  "ex_symbol = \<lparr>sy_name = ''TEST'', sy_input_iter = Some (iter_of_list [Inr \<lparr>t_bid = 94, t_ask = 96, t_timestamp = 30\<rparr>]),
     sy_client_sender = Some [], sy_client_receiver = True, sy_is_fx = False,
     sy_decimal_precision = 0, sy_price = (100, 102),
     sy_next_tick = Some \<lparr>t_bid = 90, t_ask = 91, t_timestamp = 20\<rparr>\<rparr>"

definition ex_accounts :: accounts where
  "ex_accounts = \<lparr>acc_data = [(1, \<lparr>acct_uuid = 1, acct_ledger = ex_ledger, acct_live = False\<rparr>)],
     acc_positions = [\<lparr>pending_cache = [\<lparr>cp_uuid = 7, cp_acct = 1, cp_pos = ex_order\<rparr>],
                       open_cache = [\<lparr>cp_uuid = 8, cp_acct = 1, cp_pos = ex_position\<rparr>]\<rparr>]\<rparr>"

definition ex_sim :: "nat sim_broker" where
  "ex_sim = \<lparr>sb_accounts = ex_accounts, sb_settings = ex_settings,
     sb_symbols = \<lparr>sy_data = [ex_symbol], sy_hm = [''TEST'' \<mapsto> 0]\<rparr>,
     sb_pq = [\<lparr>qi_timestamp = 15, qi_unit = NewTick 0 \<lparr>t_bid = 90, t_ask = 91, t_timestamp = 15\<rparr>\<rparr>],
     sb_timestamp = 10, sb_client_rx = [], sb_prng = 40, sb_completed = []\<rparr>"

definition ex_rng :: "nat rng" where
  "ex_rng n lo hi = (9, n)"

lemma ex_wf: "broker_wf ex_sim"
proof -
  have l: "ledger_wf ex_ledger"
    by (auto simp: ledger_wf_def ex_ledger_def ex_order_def ex_position_def pending_wf_def open_wf_def
        split: if_splits)
  have g: "accounts_get ex_accounts a =
      (if a = 1 then Some \<lparr>acct_uuid = 1, acct_ledger = ex_ledger, acct_live = False\<rparr> else None)" for a
    by (simp add: ex_accounts_def accounts_get_def hm_get_def)
  have v: "ledger_view f ex_accounts a u = (if a = 1 then f ex_ledger u else None)" for f a u
    by (simp add: ledger_view_def g)
  have sync: "symbol_synced ex_accounts 0"
    unfolding symbol_synced_def cached_as_def v
    by (auto simp: ex_accounts_def ex_ledger_def ex_order_def ex_position_def cached_position_eq split: if_splits)
  have known: "symbols_known ex_accounts"
    unfolding symbols_known_def v
    by (auto simp: ex_accounts_def ex_ledger_def ex_order_def ex_position_def split: if_splits)
  have "ledgers_wf ex_accounts"
    using l by (auto simp: ledgers_wf_def g split: if_splits) (simp add: ex_accounts_def hm_ok_def)
  with sync known have "accounts_wf ex_accounts"
    by (auto simp: accounts_wf_def ex_accounts_def)
  then show ?thesis
    by (auto simp: broker_wf_def ex_sim_def symbols_wf_def symbol_wf_def ex_symbol_def ex_accounts_def
        is_heap_def split: if_splits)
qed

section \<open>Price ticks\<close>

text \<open>C1. A price tick on a well-formed broker returns, keeps it well formed, and acts on
  each ledger as the specification says: every pending order of the symbol the price
  reaches is filled, every open position whose stop or take-profit the price reaches is
  moved to the closed ones and its value credited, and nothing else changes. A buffer of
  three entries for each pending and two for each open position of the symbol is enough.\<close>

theorem tick_positions_refines:
  assumes "broker_wf sim" and "k < length (acc_positions (sb_accounts sim))"
    and "valued sim k val"
    and "m + 3 * length (pending_cache (acc_positions (sb_accounts sim) ! k)) +
      2 * length (open_cache (acc_positions (sb_accounts sim) ! k)) \<le> length buf"
  shows "\<exists>n buf' accs. tick_positions k (b, a) m buf sim = Some (n, buf', sim\<lparr>sb_accounts := accs\<rparr>) \<and>
    broker_wf (sim\<lparr>sb_accounts := accs\<rparr>) \<and> length buf' = length buf \<and>
    ledgers_of (sim\<lparr>sb_accounts := accs\<rparr>) =
      map_option (close_phase k b a val \<circ> open_phase k b a (sb_timestamp sim)) \<circ> ledgers_of sim"
  using tick_positions_spec [OF assms] by blast

lemma ex_valued: "valued ex_sim 0 p_size"
  by (simp add: valued_def get_position_value_def ex_sim_def symbols_ix_def ex_symbol_def)

theorem tick_positions_refines_witness:
  "\<exists>n buf' accs. tick_positions 0 (94, 96) 0 (replicate 5 (TickOut 0 tick_null)) ex_sim =
      Some (n, buf', ex_sim\<lparr>sb_accounts := accs\<rparr>) \<and>
    broker_wf (ex_sim\<lparr>sb_accounts := accs\<rparr>) \<and> length buf' = length (replicate 5 (TickOut 0 tick_null)) \<and>
    ledgers_of (ex_sim\<lparr>sb_accounts := accs\<rparr>) =
      map_option (close_phase 0 94 96 p_size \<circ> open_phase 0 94 96 (sb_timestamp ex_sim)) \<circ> ledgers_of ex_sim"
  by (rule tick_positions_refines [OF ex_wf _ ex_valued]) (simp_all add: ex_sim_def ex_accounts_def)

section \<open>Actions\<close>

text \<open>C2. Every action but a market close keeps the broker well formed: the ledgers are
  consistent and the cache holds exactly the pending and open positions of the ledgers.
  The uuid drawn for a new position must be new.\<close>

theorem exec_action_preserves:
  assumes "broker_wf sim" and "next_uuid_fresh rng sim" and "\<not> is_market_close cmd"
    and "exec_action rng cmd sim = Some (r, sim')"
  shows "broker_wf sim'"
  by (rule exec_action_wf [OF assms(1,2,4,3)])

lemma ex_accounts_get: "accounts_get (sb_accounts ex_sim) a =
    (if a = 1 then Some \<lparr>acct_uuid = 1, acct_ledger = ex_ledger, acct_live = False\<rparr> else None)"
  by (simp add: ex_sim_def ex_accounts_def accounts_get_def hm_get_def)

lemma ex_fresh: "next_uuid_fresh ex_rng ex_sim"
proof -
  have "gen_uuid ex_rng 40 = (0x09090909090909090909090909090909, 40)" by code_simp
  then have "gen_uuid ex_rng (sb_prng ex_sim) = (0x09090909090909090909090909090909, 40)"
    by (simp add: ex_sim_def)
  then show ?thesis
    by (auto simp: next_uuid_fresh_def fresh_uuid_def ex_accounts_get unused_in_def ex_ledger_def split: if_splits)
qed

definition ex_cancel :: broker_action where
  "ex_cancel = TradingAction 1 (CancelOrder 7)"

lemma ex_cancel_ok: "action_ok ex_sim ex_cancel" "\<not> is_market_close ex_cancel"
  by (simp_all add: action_ok_def is_market_close_def ex_cancel_def)

theorem exec_action_preserves_witness:
  "\<exists>r sim'. exec_action ex_rng ex_cancel ex_sim = Some (r, sim') \<and> broker_wf sim'"
  using exec_action_returns [OF ex_wf ex_cancel_ok(1)]
    exec_action_preserves [OF ex_wf ex_fresh ex_cancel_ok(2)] by blast

text \<open>C3. On a well-formed broker every action returns a result, whatever its arguments, but
  for a disconnection, a market close and the change of an order the market would fill.\<close>

theorem exec_action_never_panics:
  assumes "broker_wf sim" and "action_ok sim cmd"
  shows "\<exists>r sim'. exec_action rng cmd sim = Some (r, sim')"
  by (rule exec_action_returns [OF assms])

theorem exec_action_never_panics_witness:
  "\<exists>r sim'. exec_action ex_rng (TradingAction 1 (ModifyPosition 8 (Some 90) None)) ex_sim = Some (r, sim')"
  by (rule exec_action_never_panics [OF ex_wf]) (simp add: action_ok_def is_market_close_def)

section \<open>The clock\<close>

text \<open>C4. The broker's clock never runs backwards: in every state the event loop and the
  client's sends can reach, the time is at least that of the start, and every event still
  queued is due no earlier than the clock.\<close>

theorem clock_monotone:
  assumes "timeline sim" and "(sim_step rng)\<^sup>*\<^sup>* sim sim'"
  shows "sb_timestamp sim \<le> sb_timestamp sim' \<and>
    (\<forall>x\<in>set (sb_pq sim'). sb_timestamp sim' \<le> qi_timestamp x)"
proof -
  have "timeline sim'" by (rule sim_clock.run_inv [OF assms(2,1)])
  then show ?thesis
    using sim_clock.run_clock [OF assms(2,1)] by (auto simp: timeline_def item_timed_def)
qed

lemma ex_timeline: "timeline ex_sim"
  by (simp add: timeline_def ex_sim_def is_heap_def item_timed_def symbols_timed_def symbol_timed_def
      ex_symbol_def next_from_def)

lemma ex_turn: "\<exists>n buf sim'. tick_sim_loop ex_rng 0 (replicate 5 (TickOut 0 tick_null)) ex_sim = Some (n, buf, sim')"
proof -
  have "tick_sim_loop ex_rng 0 (replicate 5 (TickOut 0 tick_null)) ex_sim \<noteq> None" by code_simp
  then show ?thesis by auto
qed

lemma ex_no_wrap: "no_wrap ex_sim"
  by (simp add: no_wrap_def ex_sim_def ex_settings_def settings_default_def)

theorem clock_monotone_witness:
  "\<exists>sim'. (sim_step ex_rng)\<^sup>*\<^sup>* ex_sim sim' \<and> sb_timestamp ex_sim \<le> sb_timestamp sim' \<and>
    (\<forall>x\<in>set (sb_pq sim'). sb_timestamp sim' \<le> qi_timestamp x)"
proof -
  obtain n buf sim' where "tick_sim_loop ex_rng 0 (replicate 5 (TickOut 0 tick_null)) ex_sim = Some (n, buf, sim')"
    using ex_turn by blast
  with ex_no_wrap have "(sim_step ex_rng)\<^sup>*\<^sup>* ex_sim sim'"
    by (blast intro: sim_step_turn)
  with clock_monotone [OF ex_timeline this] show ?thesis by blast
qed

text \<open>C5. A broker made from definitions whose exchange rates have names of at least three
  characters is well formed, and if the streams are in order so is its timeline, before and
  after the queue is filled.\<close>

theorem sim_new_establishes:
  assumes "sim_new rng g settings (Some defs) = Some (Inr sim)"
    and "\<forall>d\<in>set defs. def_wf d" and "length defs < 2 ^ 63"
  shows "broker_wf sim \<and> ((\<forall>d\<in>set defs. def_timed d) \<longrightarrow> timeline sim)"
  using sim_new_wf [OF assms] by blast

definition ex_defs :: "(string \<times> (string + (unit + tick) iter) \<times> bool \<times> nat) list" where
  "ex_defs = [(''TEST'', Inr (iter_of_list (map Inr [\<lparr>t_bid = 1, t_ask = 2, t_timestamp = 5\<rparr>,
     \<lparr>t_bid = 2, t_ask = 3, t_timestamp = 9\<rparr>])), False, 0)]"

theorem sim_new_establishes_witness:
  "\<exists>sim. sim_new ex_rng 0 ex_settings (Some ex_defs) = Some (Inr sim) \<and> broker_wf sim \<and> timeline sim"
proof -
  obtain u g where u: "gen_uuid ex_rng 0 = (u, g)" by fastforce
  obtain sim where sim: "sim_new ex_rng 0 ex_settings (Some ex_defs) = Some (Inr sim)"
    by (auto simp: u sim_new_def ex_defs_def register_tickstream_def new_from_stream_def iter_next_def
        unwrap_ok_def symbol_next_def symbols_add_def symbols_contains_def symbols_new_def Let_def)
  have "broker_wf sim \<and> ((\<forall>d\<in>set ex_defs. def_timed d) \<longrightarrow> timeline sim)"
    by (rule sim_new_establishes [OF sim]) (simp_all add: ex_defs_def def_wf_def)
  with sim show ?thesis by (simp add: ex_defs_def def_timed_def)
qed

section \<open>Money\<close>


lemma ex_ix: "0 < length (sy_data (sb_symbols ex_sim))"
  by (simp add: ex_sim_def)


text \<open>Cancelling a pending order returns success and takes the order out of the ledger,
  but gives nothing back: the buying power it reserved when it was placed stays spent.\<close>

theorem cancel_order_refunds_nothing:
  assumes "broker_wf sim" and "accounts_get (sb_accounts sim) a = Some acct"
    and "pending_positions (acct_ledger acct) u = Some p"
  shows "\<exists>sim'. cancel_order a u sim = Some (Inr (OrderCancelled u p (sb_timestamp sim)), sim') \<and>
    ledgers_of sim' = (ledgers_of sim)(a \<mapsto> (acct_ledger acct)
      \<lparr>pending_positions := (pending_positions (acct_ledger acct))(u := None)\<rparr>)"
proof -
  obtain ps where "cancel_order a u sim = Some (Inr (OrderCancelled u p (sb_timestamp sim)),
      buying_power_changed a (buying_power (acct_ledger acct))
        (sim\<lparr>sb_accounts := (accounts_insert a (acct\<lparr>acct_ledger := (acct_ledger acct)
          \<lparr>pending_positions := (pending_positions (acct_ledger acct))(u := None)\<rparr>\<rparr>)
          (sb_accounts sim))\<lparr>acc_positions := ps\<rparr>\<rparr>))"
    using cancel_order_step [OF assms] by blast
  then show ?thesis
    by (auto simp: ledgers_of_def buying_power_changed_def fun_eq_iff)
qed

lemma ex_get: "accounts_get (sb_accounts ex_sim) 1 =
    Some \<lparr>acct_uuid = 1, acct_ledger = ex_ledger, acct_live = False\<rparr>"
  by (simp add: ex_accounts_get)

theorem cancel_order_refunds_nothing_witness:
  "\<exists>sim'. cancel_order 1 7 ex_sim = Some (Inr (OrderCancelled 7 ex_order 10), sim') \<and>
    ledgers_of sim' = (ledgers_of ex_sim)(1 \<mapsto> ex_ledger
      \<lparr>pending_positions := (pending_positions ex_ledger)(7 := None)\<rparr>)"
  using cancel_order_refunds_nothing [OF ex_wf ex_get, of 7 ex_order]
  by (simp add: ex_ledger_def ex_sim_def)



section \<open>Where the code does not do what it means to\<close>

text \<open>C17. Closing the whole of an open position at the market never works: the ledger answers
  that there is no such position, the position is gone from its open ones without having
  been added to the closed ones, no value is credited, and the cache still holds the entry.\<close>

theorem market_close_full_loses_position:
  assumes "broker_wf sim" and "accounts_get (sb_accounts sim) a = Some acct"
    and "open_positions (acct_ledger acct) u = Some p" and "p_size p \<noteq> 0"
    and "get_position_value sim p = Some (Inr v)"
  shows "\<exists>sim'. market_close a u (p_size p) sim = Some (Inl NoSuchPosition, sim') \<and>
    ledgers_of sim' = (ledgers_of sim)(a \<mapsto> (acct_ledger acct)
      \<lparr>open_positions := (open_positions (acct_ledger acct))(u := None)\<rparr>) \<and>
    acc_positions (sb_accounts sim') = acc_positions (sb_accounts sim) \<and>
    (\<exists>c\<in>set (open_cache (acc_positions (sb_accounts sim') ! p_symbol_id p)).
       cp_uuid c = u \<and> cp_acct c = a) \<and>
    \<not> accounts_wf (sb_accounts sim')"
proof -
  let ?l = "(acct_ledger acct)\<lparr>open_positions := (open_positions (acct_ledger acct))(u := None)\<rparr>"
  let ?sim = "set_ledger a acct ?l sim" and ?c = "\<lparr>cp_uuid = u, cp_acct = a, cp_pos = p\<rparr>"
  have k: "p_symbol_id p < length (acc_positions (sb_accounts sim))"
    using accounts_wf_known [OF broker_wf_accounts [OF assms(1)] assms(2)] assms(3) by blast
  note s = symbol_synced_parts [OF accounts_wf_synced [OF broker_wf_accounts [OF assms(1)] k]]
  have cin: "?c \<in> set (open_cache (acc_positions (sb_accounts sim) ! p_symbol_id p))"
    by (simp add: cached_as_mem [OF s(2)] ledger_view_get [OF assms(2)] assms(3))
  have run: "market_close a u (p_size p) sim = Some (Inl NoSuchPosition, ?sim)"
    using assms ledger_resize_to_zero [OF assms(3)] by (simp add: market_close_def Let_def)
  have "\<not> accounts_wf (sb_accounts ?sim)"
  proof
    assume wf: "accounts_wf (sb_accounts ?sim)"
    have k': "p_symbol_id p < length (acc_positions (sb_accounts ?sim))" using k by simp
    note s' = symbol_synced_parts [OF accounts_wf_synced [OF wf k']]
    have "?c \<in> set (open_cache (acc_positions (sb_accounts ?sim) ! p_symbol_id p))" using cin by simp
    from cached_as_mem [OF s'(2), THEN iffD1, OF this]
    have "ledger_view open_positions (sb_accounts ?sim) a u = Some p" by simp
    then show False by (simp add: ledger_view_def set_ledger_def)
  qed
  moreover have "ledgers_of ?sim = (ledgers_of sim)(a \<mapsto> ?l)"
    by (simp add: set_ledger_def ledgers_of_insert)
  ultimately show ?thesis using run cin by (intro exI [of _ ?sim] conjI bexI [of _ ?c]) simp_all
qed

lemma ex_value: "get_position_value ex_sim p = (if p_symbol_id p = 0 then Some (Inr (p_size p)) else None)"
  by (simp add: get_position_value_def ex_sim_def symbols_ix_def ex_symbol_def)

theorem market_close_full_loses_position_witness:
  "\<exists>sim'. market_close 1 8 10 ex_sim = Some (Inl NoSuchPosition, sim') \<and>
    ledgers_of sim' = (ledgers_of ex_sim)(1 \<mapsto> ex_ledger
      \<lparr>open_positions := (open_positions ex_ledger)(8 := None)\<rparr>) \<and>
    acc_positions (sb_accounts sim') = acc_positions (sb_accounts ex_sim) \<and>
    (\<exists>c\<in>set (open_cache (acc_positions (sb_accounts sim') ! 0)). cp_uuid c = 8 \<and> cp_acct c = 1) \<and>
    \<not> accounts_wf (sb_accounts sim')"
  using market_close_full_loses_position [OF ex_wf ex_get, of 8 ex_position 10] ex_value [of ex_position]
  by (simp add: ex_ledger_def ex_position_def)

text \<open>C18. A cached open position the ledger no longer knows, as a full close leaves it, makes
  the next tick that reaches its stop or take-profit panic (it is the first entry here).\<close>

theorem stale_cache_panics:
  assumes "k < length (acc_positions (sb_accounts sim))"
    and "pending_cache (acc_positions (sb_accounts sim) ! k) = []"
    and "open_cache (acc_positions (sb_accounts sim) ! k) = c # cs"
    and "open_wf (cp_pos c)" and "stop_hit (cp_pos c) b a \<or> take_profit_hit (cp_pos c) b a"
    and "\<forall>acct. accounts_get (sb_accounts sim) (cp_acct c) = Some acct \<longrightarrow>
      open_positions (acct_ledger acct) (cp_uuid c) = None"
  shows "tick_positions k (b, a) m buf sim = None"
proof -
  obtain pr reason where sat: "is_close_satisfied (cp_pos c) b a = Some (Some (pr, reason))"
    using assms(5) is_close_satisfied_open [OF assms(4), of b a] by (auto split: if_splits)
  have "tick_open_step k (b, a) m 0 (sim, buf, 0) = None"
  proof (rule ccontr)
    assume "tick_open_step k (b, a) m 0 (sim, buf, 0) \<noteq> None"
    with assms(1,3,6) sat show False
      by (auto simp: tick_open_step_def bind_Some_iff Let_def split_beta ledger_close_position_def
          split: option.splits)
  qed
  then show ?thesis
    using assms(1-3)
    by (simp add: tick_positions_def tick_pending_loop.simps pending_len_def
        tick_open_loop.simps [of _ _ _ _ "(sim, buf, 0)"] open_len_def)
qed

definition ex_stale :: "nat sim_broker" where
  "ex_stale = ex_sim\<lparr>sb_accounts := ex_accounts
     \<lparr>acc_data := [(1, \<lparr>acct_uuid = 1, acct_ledger = ex_ledger\<lparr>open_positions := Map.empty\<rparr>, acct_live = False\<rparr>)],
      acc_positions := [\<lparr>pending_cache = [], open_cache = [\<lparr>cp_uuid = 8, cp_acct = 1, cp_pos = ex_position\<rparr>]\<rparr>]\<rparr>\<rparr>"

theorem stale_cache_panics_witness:
  "tick_positions 0 (94, 96) 0 (replicate 5 (TickOut 0 tick_null)) ex_stale = None"
proof (rule stale_cache_panics)
  show "open_wf (cp_pos \<lparr>cp_uuid = 8, cp_acct = 1, cp_pos = ex_position\<rparr>)"
    by (simp add: open_wf_def ex_position_def)
  show "stop_hit (cp_pos \<lparr>cp_uuid = 8, cp_acct = 1, cp_pos = ex_position\<rparr>) 94 96 \<or>
      take_profit_hit (cp_pos \<lparr>cp_uuid = 8, cp_acct = 1, cp_pos = ex_position\<rparr>) 94 96"
    by (simp add: stop_hit_def ex_position_def)
qed (simp_all add: ex_stale_def ex_sim_def accounts_get_def hm_get_def)

text \<open>C19. Changing a pending order panics exactly when the market already reaches the order's
  present price, whatever the new one; otherwise the change is made.\<close>

theorem modify_order_panics_iff:
  assumes "broker_wf sim" and "accounts_get (sb_accounts sim) a = Some acct"
    and "pending_positions (acct_ledger acct) u = Some p"
  shows "modify_order a u sz price sl tp sim = None \<longleftrightarrow> marketable sim p"
  using modify_order_eq [OF assms] modify_order_step [OF assms]
  by (metis option.distinct(1))

theorem modify_order_panics_iff_witness:
  "modify_order 1 7 20 90 None None ex_sim = None \<longleftrightarrow> marketable ex_sim ex_order"
  by (rule modify_order_panics_iff [OF ex_wf ex_get]) (simp add: ex_ledger_def)

text \<open>Asking for the price of a symbol never answers that there is none: an index in range
  has a price and one out of range panics, so the error for an unknown symbol is never
  given on this path.\<close>

theorem get_price_never_missing:
  assumes "broker_wf sim" and "ix < 2 ^ 62"
  shows "get_price sim ix = (if ix < length (sy_data (sb_symbols sim))
    then Some (Some (sy_price (sy_data (sb_symbols sim) ! ix))) else None)"
proof (cases "ix < length (sy_data (sb_symbols sim))")
  case False
  have "length (sy_data (sb_symbols sim)) < 2 ^ 63"
    using assms(1) by (simp add: broker_wf_def symbols_wf_def)
  with assms(2) have "not (word_of_nat (symbols_len (sb_symbols sim)) :: usize) > word_of_nat ix"
    by (intro not_word_of_nat_gt) (simp add: symbols_len_def)
  with False show ?thesis by (simp add: get_price_def symbols_ix_def)
qed (simp add: get_price_in_range [OF assms(1)])

theorem get_price_never_missing_witness:
  "get_price ex_sim 3 = (if 3 < length (sy_data (sb_symbols ex_sim))
    then Some (Some (sy_price (sy_data (sb_symbols ex_sim) ! 3))) else None)"
  by (rule get_price_never_missing [OF ex_wf]) simp

text \<open>Registering a tick stream drops the stream's first tick: the first tick the broker
  will process is the second.\<close>

theorem register_drops_first_tick:
  assumes "register_tickstream name it is_fx decimals sim = Some (Inr m, sim')"
  shows "\<exists>t0 t1 rest s. it = Yield (Inr t0) (Yield (Inr t1) rest) \<and>
    sy_data (sb_symbols sim') = sy_data (sb_symbols sim) @ [s] \<and>
    sy_next_tick s = Some t1 \<and> sy_input_iter s = Some rest"
  by (rule register_tickstream_Some [OF assms])
    (auto simp: symbols_add_def Let_def split: if_splits)

theorem register_drops_first_tick_witness:
  "\<exists>sim' t0 t1 rest s. register_tickstream ''EURUSD'' (iter_of_list (map Inr [\<lparr>t_bid = 1, t_ask = 2, t_timestamp = 5\<rparr>,
     \<lparr>t_bid = 2, t_ask = 3, t_timestamp = 9\<rparr>])) True 4 ex_sim = Some (Inr Success, sim') \<and>
    iter_of_list (map Inr [\<lparr>t_bid = 1, t_ask = 2, t_timestamp = 5\<rparr>,
     \<lparr>t_bid = 2, t_ask = 3, t_timestamp = 9\<rparr>]) = Yield (Inr t0) (Yield (Inr t1) rest) \<and>
    sy_data (sb_symbols sim') = sy_data (sb_symbols ex_sim) @ [s] \<and>
    sy_next_tick s = Some t1 \<and> sy_input_iter s = Some rest"
proof -
  let ?it = "iter_of_list (map Inr [\<lparr>t_bid = 1, t_ask = 2, t_timestamp = 5\<rparr>,
     \<lparr>t_bid = 2, t_ask = 3, t_timestamp = 9\<rparr>]) :: (unit + tick) iter"
  obtain sim' where run: "register_tickstream ''EURUSD'' ?it True 4 ex_sim = Some (Inr Success, sim')"
    by (auto simp: register_tickstream_def new_from_stream_def iter_next_def
        unwrap_ok_def symbol_next_def symbols_add_def symbols_contains_def ex_sim_def Let_def)
  with register_drops_first_tick [OF run] show ?thesis by blast
qed

end
