(* ===== verification/Tg_SimLimits.thy ===== *)
theory Tg_SimLimits
  imports Tg_SimBroker
begin

text \<open>
  Corner cases of the simulated broker and its objects: arithmetic that wraps, the conditions
  of orders and positions on both sides, the ledger after a close or a partial close, and
  symbols without a stream.
\<close>

section \<open>Arithmetic\<close>

text \<open>Ten to the power of 64 is a multiple of the size of the word: dividing by it panics.\<close>

lemma pow10_wraps: "64 \<le> k \<Longrightarrow> k < 2 ^ 32 \<Longrightarrow> pow10 k = 0"
proof -
  assume k: "64 \<le> k" "k < 2 ^ 32"
  have zero: "(10 :: usize) ^ 64 = 0" by simp
  have "pow10 k = 10 ^ (64 + (k - 64))" using k by (simp add: pow10_def)
  then show "pow10 k = 0" by (simp only: power_add zero mult_zero_left)
qed

lemma convert_decimals_panics:
  "64 \<le> k \<Longrightarrow> k < 2 ^ 32 \<Longrightarrow> convert_decimals p (out_decimals + k) out_decimals = panic"
  by (simp add: convert_decimals_def pow10_wraps require_def)

section \<open>Conditions\<close>

text \<open>A long order is also filled above its price, at the bid.\<close>

lemma long_order_opens_above:
  assumes "p_execution_price pos = None" and "p_price pos = Some price" and "price < a" and "price \<le> b"
  shows "is_open_satisfied pos b a = ret (Some b)"
  using assms by (simp add: is_open_satisfied_def require_def not_le [symmetric])

text \<open>The reason of a close tells the side of the position, not what was reached.\<close>

lemma close_reason_is_side:
  "is_close_satisfied pos b a = Some (Some (price, reason)) \<Longrightarrow>
     reason = (if p_long pos then StopLoss else TakeProfit)"
  by (auto simp: is_close_satisfied_def bind_Some_iff split: if_splits)

section \<open>Ledger\<close>

text \<open>A closed position is filed as it was, without the price and the time of its exit.\<close>

lemma closed_without_exit:
  "ledger_close_position l u v ts reason = (Inr m, l') \<Longrightarrow> closed_positions l' u = open_positions l u"
  by (auto simp: ledger_close_position_def split: option.splits)

text \<open>Every resize that succeeds takes its cost, even one that closes a part.\<close>

lemma resize_charges:
  assumes "ledger_resize_position l u n c ts = Some (Inr m, l')"
  shows "c \<le> buying_power l \<and> buying_power l' = buying_power l - c"
  using assms by (cases rule: ledger_resize_result) auto

section \<open>Symbols without a stream\<close>

text \<open>
  A price that is set once adds a symbol, but no cache of positions for it; an order placed on
  it then panics.
\<close>

lemma oneshot_adds_no_cache:
  "oneshot_price_set name price is_fx decimals sim = Some sim' \<Longrightarrow> sb_accounts sim' = sb_accounts sim"
  by (auto simp: oneshot_price_set_def bind_Some_iff split: if_splits prod.splits)

lemma order_without_cache_panics:
  "length (acc_positions a) \<le> p_symbol_id order \<Longrightarrow> order_placed order u acct a = panic"
  by (simp add: order_placed_def with_positions_def vec_get_def)

text \<open>When the stream of the first symbol is missing, asking for the next tick panics at the end.\<close>

lemma next_tick_oneshot_panics:
  assumes "sy_data ss = [s]" and "sy_input_iter s = None"
  shows "next_tick ss = panic"
  using assms by (simp add: next_tick_def symbols_ix_def vec_get_def symbol_next_def)

end
