(* ===== verification/Tg_SimClient.thy ===== *)
theory Tg_SimClient
  imports Tg_SimLoop
begin

text \<open>
  The client of the simulated broker (\<open>broker_shims/simbroker/src/client.rs\<close>): it holds the
  broker, executes actions at once or queues them for the event loop, and hands out copies
  of the push stream and of the tick streams by forking them. Every holder of a stream is
  assumed to drive it, as the code's comments say.
\<close>

section \<open>Forked streams\<close>

text \<open>
  Each fork adds a stream to a chain: node \<open>0\<close> is the original, node \<open>i + 1\<close> gets what node
  \<open>i\<close> gets while the flag behind the gate between them is set. The last node is the stream
  kept by the client, with its own flag. Flags are shared, so they are kept in a store.
\<close>

record chain =
  ch_flags :: "bool list"
  ch_gates :: "nat list"
  ch_stored :: nat
  ch_handed :: "nat list"

definition chain_new :: chain where
  "chain_new = \<lparr>ch_flags = [False], ch_gates = [], ch_stored = 0, ch_handed = []\<rparr>"

text \<open>The kept stream is handed out; its fork is kept instead, behind a new flag.\<close>

definition fork_out :: "chain \<Rightarrow> chain" where
  "fork_out c =
     \<lparr>ch_flags = (ch_flags c)[ch_stored c := True] @ [False],
      ch_gates = ch_gates c @ [length (ch_flags c)],
      ch_stored = length (ch_flags c),
      ch_handed = ch_handed c @ [length (ch_gates c)]\<rparr>"

text \<open>The kept stream is driven by a thread of the client; its fork is kept with the same flag.\<close>

definition fork_in :: "chain \<Rightarrow> chain" where
  "fork_in c = c\<lparr>ch_gates := ch_gates c @ [ch_stored c]\<rparr>"

definition receives :: "chain \<Rightarrow> nat \<Rightarrow> bool" where
  "receives c n \<longleftrightarrow> list_all (\<lambda>g. ch_flags c ! g) (take n (ch_gates c))"

datatype chain_op = Handed_out | Loop_started

fun chain_step :: "chain_op \<Rightarrow> chain \<Rightarrow> chain" where
  "chain_step Handed_out c = fork_out c"
| "chain_step Loop_started c = fork_in c"

section \<open>The client\<close>

record 'g sim_client =
  cl_sim :: "'g sim_broker"
  cl_push :: chain
  cl_ticks :: "string \<rightharpoonup> chain"
  cl_in_loop :: bool

text \<open>The receivers of the symbols are taken out of the broker; a symbol without one panics.\<close>

fun take_receivers :: "symbol list \<Rightarrow> (string \<rightharpoonup> chain) \<Rightarrow> (symbol list \<times> (string \<rightharpoonup> chain)) run" where
  "take_receivers [] hm = ret ([], hm)"
| "take_receivers (s # ss) hm = do {
     require (sy_client_receiver s);
     (ss', hm') \<leftarrow> take_receivers ss (hm(sy_name s \<mapsto> chain_new));
     ret (s\<lparr>sy_client_receiver := False\<rparr> # ss', hm')
   }"

definition client_init ::
  "'g rng \<Rightarrow> 'g \<Rightarrow> sim_settings \<Rightarrow> (string \<times> (string + (unit + tick) iter) \<times> bool \<times> nat) list option \<Rightarrow>
     (broker_error + 'g sim_client) run" where
  "client_init rng g settings defs = do {
     r \<leftarrow> sim_new rng g settings defs;
     case r of
       Inl err \<Rightarrow> ret (Inl err)
     | Inr sim \<Rightarrow> do {
         (ss, hm) \<leftarrow> take_receivers (sy_data (sb_symbols sim)) Map.empty;
         ret (Inr \<lparr>cl_sim = sim\<lparr>sb_symbols := (sb_symbols sim)\<lparr>sy_data := ss\<rparr>\<rparr>, cl_push = chain_new,
                   cl_ticks = hm, cl_in_loop = False\<rparr>)
       }
   }"

text \<open>The channel to the event loop holds 32 actions; sending to a full one panics.\<close>

definition inner_capacity :: nat where
  "inner_capacity = 32"

definition client_execute ::
  "'g rng \<Rightarrow> completion \<Rightarrow> broker_action \<Rightarrow> 'g sim_client \<Rightarrow> 'g sim_client run" where
  "client_execute rng complete action cl =
     (if \<not> cl_in_loop cl then do {
        (res, sim) \<leftarrow> exec_action rng action (cl_sim cl);
        ret (cl\<lparr>cl_sim := sim\<lparr>sb_completed := sb_completed sim @ [(complete, res)]\<rparr>\<rparr>)
      }
      else do {
        require (length (sb_client_rx (cl_sim cl)) < inner_capacity);
        ret (cl\<lparr>cl_sim := (cl_sim cl)\<lparr>sb_client_rx := sb_client_rx (cl_sim cl) @ [(action, complete)]\<rparr>\<rparr>)
      })"

definition client_get_stream :: "'g sim_client \<Rightarrow> 'g sim_client" where
  "client_get_stream cl = cl\<lparr>cl_push := fork_out (cl_push cl)\<rparr>"

definition client_sub_ticks :: "string \<Rightarrow> 'g sim_client \<Rightarrow> (broker_error + unit) \<times> 'g sim_client" where
  "client_sub_ticks name cl =
     (case cl_ticks cl name of
        None \<Rightarrow> (Inl NoSuchSymbol, cl)
      | Some c \<Rightarrow> (Inr (), cl\<lparr>cl_ticks := (cl_ticks cl)(name \<mapsto> fork_out c)\<rparr>))"

definition client_init_loop :: "'g sim_client \<Rightarrow> (broker_result \<times> 'g sim_client) run" where
  "client_init_loop cl = do {
     sim \<leftarrow> sim_init_loop (cl_sim cl);
     ret (Inr Success, cl\<lparr>cl_sim := sim, cl_push := fork_in (cl_push cl),
            cl_ticks := map_option fork_in \<circ> cl_ticks cl, cl_in_loop := True\<rparr>)
   }"

definition client_tick ::
  "'g rng \<Rightarrow> nat \<Rightarrow> tick_output list \<Rightarrow> 'g sim_client \<Rightarrow> (nat \<times> tick_output list \<times> 'g sim_client) run" where
  "client_tick rng num_last_actions buffer cl = do {
     (n, buffer', sim) \<leftarrow> tick_sim_loop rng num_last_actions buffer (cl_sim cl);
     ret (n, buffer', cl\<lparr>cl_sim := sim\<rparr>)
   }"

definition client_price_set ::
  "string \<Rightarrow> usize \<times> usize \<Rightarrow> bool \<Rightarrow> nat \<Rightarrow> 'g sim_client \<Rightarrow> (broker_result \<times> 'g sim_client) run" where
  "client_price_set name price is_fx decimal_precision cl = do {
     sim \<leftarrow> oneshot_price_set name price is_fx decimal_precision (cl_sim cl);
     ret (Inr Success, cl\<lparr>cl_sim := sim\<rparr>)
   }"

section \<open>The chain of forks\<close>

definition chain_wf :: "chain \<Rightarrow> bool" where
  "chain_wf c \<longleftrightarrow> ch_stored c < length (ch_flags c) \<and>
     (\<forall>g\<in>set (ch_gates c). g < length (ch_flags c) \<and> (ch_flags c ! g \<or> g = ch_stored c)) \<and>
     (\<forall>n\<in>set (ch_handed c). n \<le> length (ch_gates c) \<and> receives c n)"

lemma chain_wf_new [wf_intros]: "chain_wf chain_new"
  by (simp add: chain_wf_def chain_new_def)

lemma receives_flags:
  assumes "receives c n" and "\<forall>g\<in>set (ch_gates c). g < length (ch_flags c)"
    and "n \<le> length (ch_gates c)"
    and "\<And>g. g < length (ch_flags c) \<Longrightarrow> ch_flags c ! g \<Longrightarrow> ch_flags c' ! g"
    and "ch_gates c' = ch_gates c @ gs"
  shows "receives c' n"
  using assms by (auto simp: receives_def list_all_iff dest: in_set_takeD)

lemma chain_wf_fork_out [wf_intros]:
  assumes wf: "chain_wf c"
  shows "chain_wf (fork_out c)"
proof -
  have keep: "ch_flags (fork_out c) ! g" if "g < length (ch_flags c)" "ch_flags c ! g" for g
    using that by (cases "g = ch_stored c") (simp_all add: fork_out_def nth_append)
  have gates: "ch_flags (fork_out c) ! g" if "g \<in> set (ch_gates c)" for g
    using wf keep that by (cases "g = ch_stored c") (auto simp: chain_wf_def fork_out_def nth_append)
  have new: "receives (fork_out c) (length (ch_gates c))"
    using gates by (simp add: receives_def list_all_iff) (simp add: fork_out_def)
  have old: "receives (fork_out c) n" if "n \<in> set (ch_handed c)" for n
    by (rule receives_flags [of c n _ "[length (ch_flags c)]"])
      (use wf that keep in \<open>auto simp: chain_wf_def fork_out_def\<close>)
  have "g < length (ch_flags (fork_out c)) \<and> (ch_flags (fork_out c) ! g \<or> g = ch_stored (fork_out c))"
    if "g \<in> set (ch_gates (fork_out c))" for g
    using that gates [of g] wf by (auto simp: fork_out_def chain_wf_def)
  moreover have "n \<le> length (ch_gates (fork_out c)) \<and> receives (fork_out c) n"
    if "n \<in> set (ch_handed (fork_out c))" for n
    using that new old [of n] wf by (auto simp: fork_out_def chain_wf_def)
  moreover have "ch_stored (fork_out c) < length (ch_flags (fork_out c))" by (simp add: fork_out_def)
  ultimately show ?thesis unfolding chain_wf_def by blast
qed

lemma chain_wf_fork_in [wf_intros]:
  assumes wf: "chain_wf c"
  shows "chain_wf (fork_in c)"
proof -
  have "receives (fork_in c) n" if "n \<in> set (ch_handed c)" for n
    by (rule receives_flags [of c n _ "[ch_stored c]"]) (use wf that in \<open>auto simp: chain_wf_def fork_in_def\<close>)
  with wf show ?thesis by (auto simp: chain_wf_def fork_in_def)
qed

lemma chain_wf_steps: "chain_wf c \<Longrightarrow> chain_wf (fold chain_step ops c)"
proof (induction ops arbitrary: c)
  case (Cons op ops)
  then show ?case by (cases op) (simp_all add: chain_wf_fork_out chain_wf_fork_in)
qed simp

lemma handed_fork_in: "ch_handed (fork_in c) = ch_handed c"
  by (simp add: fork_in_def)

section \<open>Properties\<close>



text \<open>Once the event loop runs, an action is never executed by the call: it waits in a channel of
  32 places, which no call overfills, and the call that finds the channel full panics.\<close>

theorem client_execute_bounds:
  assumes "cl_in_loop cl"
  shows "(client_execute rng u a cl = None \<longleftrightarrow> 32 \<le> length (sb_client_rx (cl_sim cl))) \<and>
    (\<forall>cl'. client_execute rng u a cl = Some cl' \<longrightarrow>
      sb_client_rx (cl_sim cl') = sb_client_rx (cl_sim cl) @ [(a, u)] \<and>
      length (sb_client_rx (cl_sim cl')) \<le> 32 \<and>
      sb_accounts (cl_sim cl') = sb_accounts (cl_sim cl) \<and> sb_pq (cl_sim cl') = sb_pq (cl_sim cl))"
  using assms by (auto simp: client_execute_def inner_capacity_def bind_Some_iff require_def)

definition ex_client :: "unit sim_client" where
  "ex_client = \<lparr>cl_sim = \<lparr>sb_accounts = accounts_new, sb_settings = settings_default [],
     sb_symbols = symbols_new, sb_pq = [], sb_timestamp = 0, sb_client_rx = [(Ping, 0)], sb_prng = (),
     sb_completed = []\<rparr>, cl_push = chain_new, cl_ticks = Map.empty, cl_in_loop = True\<rparr>"

theorem client_execute_bounds_witness:
  "\<exists>cl'. client_execute (\<lambda>g a b. (a, g)) 1 ListAccounts ex_client = Some cl' \<and>
     sb_client_rx (cl_sim cl') = [(Ping, 0), (ListAccounts, 1)]"
proof -
  have "cl_in_loop ex_client" by (simp add: ex_client_def)
  note bounds = client_execute_bounds [OF this, of "\<lambda>g a b. (a, g)" 1 ListAccounts]
  have "sb_client_rx (cl_sim ex_client) = [(Ping, 0)]" by (simp add: ex_client_def)
  with bounds show ?thesis by (cases "client_execute (\<lambda>g a b. (a, g)) 1 ListAccounts ex_client") auto
qed

end
