(* ===== verification/Tg_Strategies.thy ===== *)
theory Tg_Strategies
  imports Tg_Objects Tg_Ticks
begin

text \<open>
  The strategy system of \<open>util/src/strategies.rs\<close>: the table of contingency handlers, the
  manager that feeds them with ticks, the state-machine handler and the wrapper around a
  user's strategy; and the data field of \<open>util/src/trading/datafield.rs\<close>. A handler is a
  value of the type \<open>'h\<close> with its \<open>tick\<close> method a parameter, the executor of the actions a
  value of \<open>'e\<close> with its method \<open>exec\<close>; a uuid drawn at random is an argument. Of
  the servers of the helper only what they are started with is kept.
\<close>

datatype contingency_action = Contingency_broker broker_action | Contingency_message string

datatype ('h, 'c) strategy_action =
    AddContingencyHandler 'h
  | RemoveContingencyManager uuid
  | Strategy_broker broker_action
  | PlatformCommand 'c

datatype 't merged = BrokerPushstream broker_result | BrokerTick nat tick | Merged_T 't

record 'd gen_tick =
  gt_timestamp :: u64
  gt_data :: 'd

record tickstream =
  ts_name :: string
  ts_is_fx :: bool
  ts_decimal_precision :: nat

type_synonym 'h handler_tick = "'h \<Rightarrow> nat \<Rightarrow> tick \<Rightarrow> contingency_action list \<times> 'h"

section \<open>The table of handlers\<close>

record 'h handlers =
  h_hm :: "(uuid, nat) hash_map"
  h_data :: "'h list"

definition handlers_new :: "'h handlers" where
  "handlers_new = \<lparr>h_hm = hm_new, h_data = []\<rparr>"

definition handlers_insert :: "uuid \<Rightarrow> 'h \<Rightarrow> 'h handlers \<Rightarrow> 'h handlers" where
  "handlers_insert u h hs =
     \<lparr>h_hm = hm_insert u (length (h_data hs)) (h_hm hs), h_data = h_data hs @ [h]\<rparr>"

definition handlers_remove :: "uuid \<Rightarrow> 'h handlers \<Rightarrow> ('h \<times> 'h handlers) run" where
  "handlers_remove u hs = do {
     ix \<leftarrow> hm_get (h_hm hs) u;
     let hm = map (\<lambda>(k, v). (k, if v > ix then v - 1 else v)) (hm_remove u (h_hm hs));
     (h, d) \<leftarrow> vec_remove (h_data hs) ix;
     ret (h, \<lparr>h_hm = hm, h_data = d\<rparr>)
   }"

definition handlers_get :: "'h handlers \<Rightarrow> uuid \<Rightarrow> 'h run" where
  "handlers_get hs u = do { ix \<leftarrow> hm_get (h_hm hs) u; vec_get (h_data hs) ix }"

definition handlers_ix :: "'h handlers \<Rightarrow> nat \<Rightarrow> 'h run" where
  "handlers_ix hs ix = vec_get (h_data hs) ix"

definition handlers_set_ix :: "'h handlers \<Rightarrow> nat \<Rightarrow> 'h \<Rightarrow> 'h handlers run" where
  "handlers_set_ix hs ix h = do { d \<leftarrow> vec_set (h_data hs) ix h; ret (hs\<lparr>h_data := d\<rparr>) }"

text \<open>Indexing by a uuid, to read and to write; an unknown uuid panics.\<close>

definition handlers_at :: "'h handlers \<Rightarrow> uuid \<Rightarrow> 'h run" where
  "handlers_at hs index =
     (case hm_get (h_hm hs) index of
        Some ix \<Rightarrow> vec_get (h_data hs) ix
      | None \<Rightarrow> panic)"

definition handlers_set_at :: "'h handlers \<Rightarrow> uuid \<Rightarrow> 'h \<Rightarrow> 'h handlers run" where
  "handlers_set_at hs index h =
     (case hm_get (h_hm hs) index of
        Some ix \<Rightarrow> do { d \<leftarrow> vec_set (h_data hs) ix h; ret (hs\<lparr>h_data := d\<rparr>) }
      | None \<Rightarrow> panic)"

definition handlers_len :: "'h handlers \<Rightarrow> nat" where
  "handlers_len hs = length (h_data hs)"

section \<open>The manager\<close>

record ('h, 'e) handler_manager =
  m_tickstreams :: "tickstream list"
  m_subscriptions :: "nat list list"
  m_handlers :: "'h handlers"
  m_executor :: 'e

definition manager_new :: "'e \<Rightarrow> ('h, 'e) handler_manager" where
  "manager_new executor =
     \<lparr>m_tickstreams = [], m_subscriptions = [], m_handlers = handlers_new, m_executor = executor\<rparr>"

fun manager_tick_each ::
  "'h handler_tick \<Rightarrow> (contingency_action \<Rightarrow> 'e \<Rightarrow> 'e) \<Rightarrow> nat \<Rightarrow> tick \<Rightarrow> nat list \<Rightarrow>
     ('h, 'e) handler_manager \<Rightarrow> ('h, 'e) handler_manager run" where
  "manager_tick_each ht exec data_ix t [] m = ret m"
| "manager_tick_each ht exec data_ix t (ix # ixs) m = do {
     h \<leftarrow> handlers_ix (m_handlers m) ix;
     let (actions, h') = ht h data_ix t;
     hs \<leftarrow> handlers_set_ix (m_handlers m) ix h';
     manager_tick_each ht exec data_ix t ixs
       (m\<lparr>m_handlers := hs, m_executor := fold exec actions (m_executor m)\<rparr>)
   }"

definition manager_tick ::
  "'h handler_tick \<Rightarrow> (contingency_action \<Rightarrow> 'e \<Rightarrow> 'e) \<Rightarrow> nat \<Rightarrow> tick \<Rightarrow>
     ('h, 'e) handler_manager \<Rightarrow> ('h, 'e) handler_manager run" where
  "manager_tick ht exec data_ix t m = do {
     ixs \<leftarrow> vec_get (m_subscriptions m) data_ix;
     manager_tick_each ht exec data_ix t ixs m
   }"

text \<open>\<open>u\<close> is the uuid drawn; the assertion is one of the debug profile.\<close>

definition add_handler ::
  "uuid \<Rightarrow> 'h \<Rightarrow> nat list \<Rightarrow> ('h, 'e) handler_manager \<Rightarrow> uuid \<times> ('h, 'e) handler_manager" where
  "add_handler u h subscriptions m =
     (u, m\<lparr>m_subscriptions := m_subscriptions m @ [subscriptions],
           m_handlers := handlers_insert u h (m_handlers m)\<rparr>)"

definition get_mut_handler :: "uuid \<Rightarrow> ('h, 'e) handler_manager \<Rightarrow> 'h run" where
  "get_mut_handler u m = handlers_get (m_handlers m) u"

definition remove_handler ::
  "uuid \<Rightarrow> ('h, 'e) handler_manager \<Rightarrow> ('h \<times> ('h, 'e) handler_manager) run" where
  "remove_handler u m = do {
     (h, hs) \<leftarrow> handlers_remove u (m_handlers m);
     ret (h, m\<lparr>m_handlers := hs\<rparr>)
   }"

section \<open>State-machine handlers\<close>

record ('s, 'i) fsm_handler =
  fsm_pubstate :: 's
  fsm_inner :: 'i

definition fsm_tick ::
  "('i \<Rightarrow> 's \<Rightarrow> nat \<Rightarrow> tick \<Rightarrow> ('s \<times> contingency_action list) \<times> 'i) \<Rightarrow> ('s, 'i) fsm_handler handler_tick" where
  "fsm_tick inner_tick h data_ix t =
     (let ((new_state, actions), inner) = inner_tick (fsm_inner h) (fsm_pubstate h) data_ix t
      in (actions, \<lparr>fsm_pubstate = new_state, fsm_inner = inner\<rparr>))"

section \<open>The wrapper around a strategy\<close>

type_synonym ('s, 't, 'h, 'c) strategy_tick =
  "'s \<Rightarrow> 't merged gen_tick \<Rightarrow> ('h, 'c) strategy_action option \<times> 's"

definition t_tick :: "('s, 't, 'h, 'c) strategy_tick \<Rightarrow> 's \<Rightarrow> 't gen_tick \<Rightarrow>
    ('h, 'c) strategy_action option \<times> 's" where
  "t_tick strat s t = strat s \<lparr>gt_timestamp = gt_timestamp t, gt_data = Merged_T (gt_data t)\<rparr>"

definition broker_tick :: "('s, 't, 'h, 'c) strategy_tick \<Rightarrow> 's \<Rightarrow> nat \<Rightarrow> tick \<Rightarrow>
    ('h, 'c) strategy_action option \<times> 's" where
  "broker_tick strat s data_ix t =
     strat s \<lparr>gt_timestamp = t_timestamp t, gt_data = BrokerTick data_ix t\<rparr>"

definition pushstream_tick :: "('s, 't, 'h, 'c) strategy_tick \<Rightarrow> 's \<Rightarrow> broker_result \<Rightarrow> u64 \<Rightarrow>
    ('h, 'c) strategy_action option \<times> 's" where
  "pushstream_tick strat s msg timestamp =
     strat s \<lparr>gt_timestamp = timestamp, gt_data = BrokerPushstream msg\<rparr>"

text \<open>
  The helper holds the servers, of which the uuid of the one and the number of workers of the
  other are kept, and the broker.
\<close>

record 'b helper =
  hl_cs_uuid :: uuid
  hl_qs_workers :: nat
  hl_broker :: 'b

definition helper_new :: "uuid \<Rightarrow> 'b \<Rightarrow> 'b helper" where
  "helper_new u broker = \<lparr>hl_cs_uuid = u, hl_qs_workers = 4, hl_broker = broker\<rparr>"

record ('b, 's) strategy_manager =
  sm_helper :: "'b helper"
  sm_subscriptions :: "tickstream list"
  sm_strategy :: 's
  sm_tickstream_definitions :: "tickstream list"

definition strategy_manager_new :: "uuid \<Rightarrow> 's \<Rightarrow> 'b \<Rightarrow> tickstream list \<Rightarrow> ('b, 's) strategy_manager" where
  "strategy_manager_new u strategy broker tickstream_definitions =
     \<lparr>sm_helper = helper_new u broker, sm_subscriptions = [], sm_strategy = strategy,
      sm_tickstream_definitions = tickstream_definitions\<rparr>"

text \<open>The three methods through which an executor drives a strategy; the strategy's own are arguments.\<close>

definition strategy_init ::
  "('b helper \<Rightarrow> tickstream list \<Rightarrow> 's \<Rightarrow> 's \<times> 'b helper) \<Rightarrow> ('b, 's) strategy_manager \<Rightarrow> ('b, 's) strategy_manager" where
  "strategy_init init m =
     (let (strat, h) = init (sm_helper m) (sm_subscriptions m) (sm_strategy m)
      in m\<lparr>sm_strategy := strat, sm_helper := h\<rparr>)"

definition managed_tick ::
  "('b helper \<Rightarrow> 't merged gen_tick \<Rightarrow> 's \<Rightarrow> ('h, 'c) strategy_action option \<times> 's \<times> 'b helper) \<Rightarrow>
     't merged gen_tick \<Rightarrow> ('b, 's) strategy_manager \<Rightarrow> ('h, 'c) strategy_action option \<times> ('b, 's) strategy_manager" where
  "managed_tick tick t m =
     (let (action, strat, h) = tick (sm_helper m) t (sm_strategy m)
      in (action, m\<lparr>sm_strategy := strat, sm_helper := h\<rparr>))"

definition strategy_abort :: "('s \<Rightarrow> 's) \<Rightarrow> ('b, 's) strategy_manager \<Rightarrow> ('b, 's) strategy_manager" where
  "strategy_abort abort m = m\<lparr>sm_strategy := abort (sm_strategy m)\<rparr>"

text \<open>A strategy is never told of a stream: those it is constructed with are put aside.\<close>

lemma strategy_told_of_no_stream:
  "sm_subscriptions (strategy_manager_new u strategy broker defs) = [] \<and>
   sm_subscriptions (strategy_init init m) = sm_subscriptions m \<and>
   sm_subscriptions (snd (managed_tick tick t m)) = sm_subscriptions m \<and>
   sm_subscriptions (strategy_abort abort m) = sm_subscriptions m"
  by (simp add: strategy_manager_new_def strategy_init_def managed_tick_def strategy_abort_def split_beta)

section \<open>Data fields\<close>

record 'd data_field =
  df_data :: "'d list"

definition df_new :: "'d data_field" where
  "df_new = \<lparr>df_data = []\<rparr>"

definition df_push :: "'d \<Rightarrow> 'd data_field \<Rightarrow> 'd data_field" where
  "df_push d df = df\<lparr>df_data := df_data df @ [d]\<rparr>"

definition df_first :: "'d data_field \<Rightarrow> 'd option" where
  "df_first df = (case df_data df of [] \<Rightarrow> None | d # _ \<Rightarrow> Some d)"

definition df_last :: "'d data_field \<Rightarrow> 'd option" where
  "df_last df = (if df_data df = [] then None else Some (last (df_data df)))"

definition df_len :: "'d data_field \<Rightarrow> nat" where
  "df_len df = length (df_data df)"

definition df_is_empty :: "'d data_field \<Rightarrow> bool" where
  "df_is_empty df \<longleftrightarrow> df_data df = []"

definition df_index :: "'d data_field \<Rightarrow> nat \<Rightarrow> 'd run" where
  "df_index df i = vec_get (df_data df) i"

section \<open>The table as a map\<close>

text \<open>What a user of a table of named values relies on.\<close>

locale registry =
  fixes lookup :: "'s \<Rightarrow> 'k \<Rightarrow> 'v option"
    and add :: "'k \<Rightarrow> 'v \<Rightarrow> 's \<Rightarrow> 's"
    and del :: "'k \<Rightarrow> 's \<Rightarrow> ('v \<times> 's) option"
    and ok :: "'s \<Rightarrow> bool"
  assumes ok_add: "ok s \<Longrightarrow> lookup s k = None \<Longrightarrow> ok (add k v s)"
    and lookup_add: "ok s \<Longrightarrow> lookup s k = None \<Longrightarrow> lookup (add k v s) = (lookup s)(k \<mapsto> v)"
    and drop_known: "ok s \<Longrightarrow> lookup s k = Some v \<Longrightarrow>
      \<exists>s'. del k s = Some (v, s') \<and> ok s' \<and> lookup s' = (lookup s)(k := None)"
    and drop_unknown: "ok s \<Longrightarrow> lookup s k = None \<Longrightarrow> del k s = None"
begin

lemma drop_Some:
  "ok s \<Longrightarrow> del k s = Some (v, s') \<Longrightarrow> lookup s k = Some v \<and> ok s' \<and> lookup s' = (lookup s)(k := None)"
  using drop_known [of s k] drop_unknown [of s k] by (cases "lookup s k") auto

lemma drop_add:
  assumes "ok s" and "lookup s k = None"
  shows "\<exists>s'. del k (add k v s) = Some (v, s') \<and> ok s' \<and> lookup s' = lookup s"
proof -
  have "lookup (add k v s) k = Some v" using assms by (simp add: lookup_add)
  then obtain s' where "del k (add k v s) = Some (v, s')" "ok s'"
    "lookup s' = (lookup (add k v s))(k := None)"
    using drop_known [OF ok_add [OF assms]] by blast
  with assms show ?thesis by (auto simp: lookup_add fun_eq_iff)
qed

end

definition handlers_lookup :: "'h handlers \<Rightarrow> uuid \<Rightarrow> 'h option" where
  "handlers_lookup hs u = map_option (\<lambda>i. h_data hs ! i) (hm_get (h_hm hs) u)"

definition handlers_wf :: "'h handlers \<Rightarrow> bool" where
  "handlers_wf hs \<longleftrightarrow>
     (\<forall>u i. hm_get (h_hm hs) u = Some i \<longrightarrow> i < length (h_data hs)) \<and>
     (\<forall>u v i. hm_get (h_hm hs) u = Some i \<longrightarrow> hm_get (h_hm hs) v = Some i \<longrightarrow> u = v)"

lemma hm_get_map: "hm_get (map (\<lambda>(k, v). (k, f v)) m) k = map_option f (hm_get m k)"
  by (simp add: hm_get_def map_of_map)

lemma nth_remove_nth:
  "ix < length xs \<Longrightarrow> i < length xs \<Longrightarrow> i \<noteq> ix \<Longrightarrow>
     remove_nth ix xs ! (if i > ix then i - 1 else i) = xs ! i"
  by (auto simp: remove_nth_def nth_append)

lemma handlers_remove_known:
  assumes wf: "handlers_wf hs" and h: "handlers_lookup hs u = Some h"
  shows "\<exists>hs'. handlers_remove u hs = Some (h, hs') \<and> handlers_wf hs' \<and>
    handlers_lookup hs' = (handlers_lookup hs)(u := None)"
proof -
  from h obtain ix where ix: "hm_get (h_hm hs) u = Some ix" and hd: "h = h_data hs ! ix"
    by (auto simp: handlers_lookup_def)
  have lt: "ix < length (h_data hs)" using wf ix by (auto simp: handlers_wf_def)
  define f where "f v = (if v > ix then v - 1 else v)" for v
  define hs' where "hs' = \<lparr>h_hm = map (\<lambda>(k, v). (k, f v)) (hm_remove u (h_hm hs)),
    h_data = remove_nth ix (h_data hs)\<rparr>"
  have run: "handlers_remove u hs = Some (h, hs')"
    using ix lt hd by (simp add: handlers_remove_def hs'_def f_def vec_remove_def)
  have get: "hm_get (h_hm hs') v = (if v = u then None else map_option f (hm_get (h_hm hs) v))" for v
    by (simp add: hs'_def hm_get_map)
  have other: "i < length (h_data hs)" "i \<noteq> ix" if "hm_get (h_hm hs) v = Some i" "v \<noteq> u" for v i
    using wf ix that unfolding handlers_wf_def by blast+
  have dat: "h_data hs' = remove_nth ix (h_data hs)" by (simp add: hs'_def)
  have low: "f i < length (h_data hs')" if "hm_get (h_hm hs) v = Some i" "v \<noteq> u" for v i
    using other [OF that] lt by (auto simp: f_def hs'_def)
  have inj: "i = j" if "f i = f j" "i \<noteq> ix" "j \<noteq> ix" for i j
    using that by (auto simp: f_def split: if_splits)
  have src: "\<exists>j. hm_get (h_hm hs) v = Some j \<and> v \<noteq> u \<and> i = f j" if "hm_get (h_hm hs') v = Some i" for v i
    using that by (auto simp: get split: if_splits)
  have uniq: "v = w" if "hm_get (h_hm hs) v = Some i" "hm_get (h_hm hs) w = Some i" for v w i
    using wf that unfolding handlers_wf_def by blast
  have "handlers_wf hs'"
    unfolding handlers_wf_def
  proof (intro conjI allI impI)
    show "i < length (h_data hs')" if "hm_get (h_hm hs') v = Some i" for v i
      using src [OF that] low by blast
    show "v = w" if "hm_get (h_hm hs') v = Some i" "hm_get (h_hm hs') w = Some i" for v w i
      using src [OF that(1)] src [OF that(2)] inj other(2) uniq by metis
  qed
  moreover have "handlers_lookup hs' v = ((handlers_lookup hs)(u := None)) v" for v
  proof (cases "hm_get (h_hm hs) v")
    case (Some i)
    then show ?thesis
      using other [of v i] nth_remove_nth [OF lt, of i]
      by (auto simp: handlers_lookup_def get f_def dat)
  qed (simp add: handlers_lookup_def get)
  ultimately show ?thesis using run by blast
qed

interpretation handler_table: registry handlers_lookup handlers_insert handlers_remove handlers_wf
proof
  fix hs :: "'h handlers" and u h
  assume wf: "handlers_wf hs" and new: "handlers_lookup hs u = None"
  then have none: "hm_get (h_hm hs) u = None" by (simp add: handlers_lookup_def)
  show "handlers_wf (handlers_insert u h hs)"
    using wf unfolding handlers_wf_def handlers_insert_def
    by (auto simp: less_Suc_eq split: if_splits)
  show "handlers_lookup (handlers_insert u h hs) = (handlers_lookup hs)(u \<mapsto> h)"
  proof
    show "handlers_lookup (handlers_insert u h hs) v = ((handlers_lookup hs)(u \<mapsto> h)) v" for v
      using wf by (cases "hm_get (h_hm hs) v")
        (auto simp: handlers_lookup_def handlers_insert_def handlers_wf_def nth_append)
  qed
  show "handlers_remove u hs = None" using none by (simp add: handlers_remove_def)
qed (rule handlers_remove_known)

section \<open>Properties\<close>

text \<open>C22. The table of handlers is a map from uuids to handlers: removing a known uuid returns
  its handler and leaves every other uuid with its own, although the handlers behind it
  in the vector move; an unknown uuid panics; and inserting under a new uuid and removing
  it again gives the handler back.\<close>

theorem handlers_table:
  assumes "handlers_wf hs"
  shows "(\<forall>h. handlers_lookup hs u = Some h \<longrightarrow> (\<exists>hs'. handlers_remove u hs = Some (h, hs') \<and>
      handlers_wf hs' \<and> handlers_lookup hs' = (handlers_lookup hs)(u := None))) \<and>
    (handlers_lookup hs u = None \<longrightarrow> handlers_remove u hs = None \<and>
      (\<forall>h. handlers_wf (handlers_insert u h hs) \<and>
        (\<exists>hs'. handlers_remove u (handlers_insert u h hs) = Some (h, hs') \<and>
          handlers_lookup hs' = handlers_lookup hs)))"
  using assms handler_table.drop_known handler_table.drop_unknown handler_table.ok_add
    handler_table.drop_add by metis

definition ex_handlers :: "nat handlers" where
  "ex_handlers = \<lparr>h_hm = [(5, 0), (6, 1)], h_data = [50, 60]\<rparr>"

lemma ex_handlers_wf: "handlers_wf ex_handlers"
  by (auto simp: handlers_wf_def ex_handlers_def hm_get_def split: if_splits)

theorem handlers_table_witness:
  "(\<exists>hs'. handlers_remove 5 ex_handlers = Some (50, hs') \<and> handlers_wf hs' \<and>
      handlers_lookup hs' = (handlers_lookup ex_handlers)(5 := None)) \<and>
    handlers_remove 7 ex_handlers = None \<and>
    handlers_wf (handlers_insert 7 70 ex_handlers) \<and>
    (\<exists>hs'. handlers_remove 7 (handlers_insert 7 70 ex_handlers) = Some (70, hs') \<and>
      handlers_lookup hs' = handlers_lookup ex_handlers)"
proof -
  have "handlers_lookup ex_handlers 5 = Some 50" "handlers_lookup ex_handlers 7 = None"
    by (simp_all add: handlers_lookup_def ex_handlers_def hm_get_def)
  then show ?thesis
    using handlers_table [OF ex_handlers_wf, of 5] handlers_table [OF ex_handlers_wf, of 7] by simp
qed

text \<open>\<open>add_handler\<close> files the streams a handler subscribes to in a table that \<open>tick\<close>
  reads as the handlers subscribed to a stream. The first handler, subscribed to any
  stream but the one of index 0, is therefore never ticked: a tick of its own stream
  panics, and so does a tick of stream 0.\<close>

lemma first_handler_never_ticked:
  assumes "0 < stream"
  shows "manager_tick ht exec stream t (snd (add_handler u h [stream] (manager_new e))) = None \<and>
    manager_tick ht exec 0 t (snd (add_handler u h [stream] (manager_new e))) = None"
  using assms
  by (simp add: manager_tick_def add_handler_def manager_new_def handlers_ix_def handlers_insert_def
      handlers_new_def)

lemma first_handler_never_ticked_witness:
  "manager_tick (\<lambda>h i t. ([], h)) (\<lambda>a e. e) 1 tick_null (snd (add_handler 9 True [1] (manager_new ()))) = None \<and>
   manager_tick (\<lambda>h i t. ([], h)) (\<lambda>a e. e) 0 tick_null (snd (add_handler 9 True [1] (manager_new ()))) = None"
  by (rule first_handler_never_ticked) simp

end
