(* ===== verification/Tg_Fuzzer.thy ===== *)
theory Tg_Fuzzer
  imports Tg_SimClient Tg_SimTime Tg_Strategies
begin

text \<open>
  The fuzzing strategy (\<open>private/src/strategies/fuzzer/mod.rs\<close>) and the driver that runs it
  against the simulated broker (\<open>scripts/fuzz/src/main.rs\<close>). The fuzzer keeps a copy of
  its account's ledger from the broker's messages and draws its actions at random from
  it. The generator is the parameter \<open>rng\<close>; the order in which a map is enumerated is the
  parameter \<open>entries\<close>. The text log the fuzzer writes is left out.
\<close>

record fuzzer_state =
  fz_account_uuid :: "uuid option"
  fz_account :: "account option"

definition fuzzer_state_new :: fuzzer_state where
  "fuzzer_state_new = \<lparr>fz_account_uuid = None, fz_account = None\<rparr>"

definition fz_ledger :: "fuzzer_state \<Rightarrow> ledger run" where
  "fz_ledger st = map_option acct_ledger (fz_account st)"

definition fz_set_ledger :: "ledger \<Rightarrow> fuzzer_state \<Rightarrow> fuzzer_state run" where
  "fz_set_ledger l st = do { acct \<leftarrow> fz_account st; ret (st\<lparr>fz_account := Some (acct\<lparr>acct_ledger := l\<rparr>)\<rparr>) }"

text \<open>\<open>drawn\<close> is the seed of the mode that is not deterministic.\<close>

definition fuzzer_seed :: "bool \<Rightarrow> string \<Rightarrow> u32 \<Rightarrow> u32" where
  "fuzzer_seed deterministic_rng seed_string drawn = (if deterministic_rng then seed_of seed_string else drawn)"

text \<open>The broker's answer to the listing of accounts; the last account listed is kept.\<close>

definition fuzzer_init :: "broker_result \<Rightarrow> fuzzer_state \<Rightarrow> fuzzer_state run" where
  "fuzzer_init res st =
     (case res of
        Inr (AccountListing accs) \<Rightarrow>
          ret (fold (\<lambda>a st. st\<lparr>fz_account_uuid := Some (acct_uuid a), fz_account := Some a\<rparr>) accs st)
      | _ \<Rightarrow> panic)"

section \<open>Drawing an action\<close>

definition random_bool :: "'g rng \<Rightarrow> 'g \<Rightarrow> bool \<times> 'g" where
  "random_bool rng g = (let (v, g) = rng g 0 1 in (v = 1, g))"

text \<open>A level at most five above the price, in half of the cases.\<close>

definition random_level :: "'g rng \<Rightarrow> usize \<Rightarrow> 'g \<Rightarrow> usize option \<times> 'g" where
  "random_level rng price g =
     (let (b, g) = random_bool rng g
      in if b then let (v, g) = rng g 0 5 in (Some (price + ucast v), g) else (None, g))"

type_synonym 'g drawn = "(broker_action option \<times> 'g) run"

definition fuzz_market_order :: "'g rng \<Rightarrow> fuzzer_state \<Rightarrow> 'g \<Rightarrow> 'g drawn" where
  "fuzz_market_order rng st g = do {
     let (price, g) = rng g 25 75;
     let (long, g) = random_bool rng g;
     let (sz, g) = rng g 0 5;
     let (stop, g) = random_level rng (ucast price) g;
     let (take_profit, g) = random_level rng (ucast price) g;
     account_uuid \<leftarrow> fz_account_uuid st;
     ret (Some (TradingAction account_uuid (MarketOrder ''TEST'' long (ucast sz) stop take_profit None)), g)
   }"

definition fuzz_limit_order :: "'g rng \<Rightarrow> fuzzer_state \<Rightarrow> 'g \<Rightarrow> 'g drawn" where
  "fuzz_limit_order rng st g = do {
     let (price, g) = rng g 25 75;
     let (long, g) = random_bool rng g;
     let (sz, g) = rng g 0 5;
     let (stop, g) = random_level rng (ucast price) g;
     let (take_profit, g) = random_level rng (ucast price) g;
     account_uuid \<leftarrow> fz_account_uuid st;
     ret (Some (TradingAction account_uuid
        (LimitOrder ''TEST'' long (ucast sz) stop take_profit (ucast price))), g)
   }"

type_synonym enumeration = "(uuid \<rightharpoonup> position) \<Rightarrow> (uuid \<times> position) list"

text \<open>How many positions are open.\<close>

definition open_count :: "enumeration \<Rightarrow> ledger \<Rightarrow> nat" where
  "open_count entries l = length (entries (open_positions l))"

text \<open>The position to close is looked for among the pending ones, as in the code.\<close>

definition fuzz_market_close :: "'g rng \<Rightarrow> enumeration \<Rightarrow> fuzzer_state \<Rightarrow> 'g \<Rightarrow> 'g drawn" where
  "fuzz_market_close rng entries st g = do {
     account_uuid \<leftarrow> fz_account_uuid st;
     l \<leftarrow> fz_ledger st;
     let n = open_count entries l;
     let (roll, g) = rng g 0 (word_of_nat (n + 1));
     if unat roll \<ge> n then ret (None, g)
     else if unat roll < length (entries (pending_positions l)) then do {
       let (u, pos) = entries (pending_positions l) ! unat roll;
       let (sz, g) = rng g 0 (ucast (p_size pos) + 2);
       ret (Some (TradingAction account_uuid (MarketClose u (ucast sz))), g)
     }
     else ret (None, g)
   }"

definition fuzz_exit_price :: "'g rng \<Rightarrow> tick \<Rightarrow> u32 \<Rightarrow> 'g \<Rightarrow> usize \<times> 'g" where
  "fuzz_exit_price rng t roll g =
     (let b = ucast (t_bid t) :: u32
      in if sint b \<ge> sint roll
         then let (c, g) = random_bool rng g in (scast (if c then b - roll else b + roll), g)
         else (scast (b + roll), g))"

definition fuzz_limit_close :: "'g rng \<Rightarrow> enumeration \<Rightarrow> tick \<Rightarrow> fuzzer_state \<Rightarrow> 'g \<Rightarrow> 'g drawn" where
  "fuzz_limit_close rng entries t st g = do {
     account_uuid \<leftarrow> fz_account_uuid st;
     l \<leftarrow> fz_ledger st;
     let n = open_count entries l;
     let (roll, g) = rng g 0 (word_of_nat (n + 5));
     if unat roll \<ge> n then ret (None, g)
     else do {
       let (roll, g) = rng g 0 15;
       if unat roll < length (entries (pending_positions l)) then do {
         let (u, pos) = entries (pending_positions l) ! unat roll;
         let (sz, g) = rng g 0 (ucast (p_size pos) + 1);
         let (exit_price, g) = fuzz_exit_price rng t roll g;
         ret (Some (TradingAction account_uuid (LimitClose u (ucast sz) exit_price)), g)
       }
       else ret (None, g)
     }
   }"

definition fuzz_cancel :: "'g rng \<Rightarrow> enumeration \<Rightarrow> fuzzer_state \<Rightarrow> 'g \<Rightarrow> 'g drawn" where
  "fuzz_cancel rng entries st g = do {
     let (b, g) = random_bool rng g;
     if b then ret (None, g)
     else do {
       account_uuid \<leftarrow> fz_account_uuid st;
       l \<leftarrow> fz_ledger st;
       ret (case entries (pending_positions l) of
              [] \<Rightarrow> (None, g)
            | (u, pos) # _ \<Rightarrow> (Some (TradingAction account_uuid (CancelOrder u)), g))
     }
   }"

text \<open>
  The draw of an action calls itself again in one of its branches, as often as the
  generator says so: not returning is \<^term>\<open>None\<close>, as a panic is.
\<close>

partial_function (option) get_action ::
  "'g rng \<Rightarrow> enumeration \<Rightarrow> tick \<Rightarrow> fuzzer_state \<Rightarrow> 'g \<Rightarrow> (broker_action option \<times> 'g) option" where
  "get_action rng entries t st g =
     (let r = rng g 0 20; rand = fst r; g = snd r
      in if rand = 0 then ret (Some Ping, g)
         else if rand = 1 then fuzz_market_order rng st g
         else if rand = 2 then
           (let s = rng g 0 5
            in if fst s > 3 then get_action rng entries t st (snd s) else ret (None, snd s))
         else if rand = 3 then fuzz_limit_order rng st g
         else if 8 \<le> rand \<and> rand \<le> 11 then fuzz_market_close rng entries st g
         else if 12 \<le> rand \<and> rand \<le> 15 then fuzz_limit_close rng entries t st g
         else if rand = 16 then fuzz_cancel rng entries st g
         else if rand = 17 then do { u \<leftarrow> fz_account_uuid st; ret (Some (GetLedger u), g) }
         else if rand = 18 then ret (Some ListAccounts, g)
         else ret (None, g))"

section \<open>The copy of the ledger\<close>

fun fuzz_message :: "broker_message \<Rightarrow> ledger \<Rightarrow> ledger run" where
  "fuzz_message (OrderPlaced order_id order ts) l =
     ret (l\<lparr>pending_positions := (pending_positions l)(order_id \<mapsto> order)\<rparr>)"
| "fuzz_message (OrderModified order_id order ts) l = do {
     require (pending_positions l order_id \<noteq> None);
     ret (l\<lparr>pending_positions := (pending_positions l)(order_id \<mapsto> order)\<rparr>)
   }"
| "fuzz_message (OrderCancelled order_id order ts) l = do {
     cancelled_order \<leftarrow> pending_positions l order_id;
     require (cancelled_order = order);
     ret (l\<lparr>pending_positions := (pending_positions l)(order_id := None)\<rparr>)
   }"
| "fuzz_message (PositionOpened position_id position ts) l =
     ret (l\<lparr>pending_positions := (pending_positions l)(position_id := None),
            open_positions := (open_positions l)(position_id \<mapsto> position)\<rparr>)"
| "fuzz_message (PositionModified position_id position ts) l = do {
     require (open_positions l position_id \<noteq> None);
     ret (l\<lparr>open_positions := (open_positions l)(position_id \<mapsto> position)\<rparr>)
   }"
| "fuzz_message (PositionClosed position_id position reason ts) l = do {
     _ \<leftarrow> open_positions l position_id;
     ret (l\<lparr>open_positions := (open_positions l)(position_id := None),
            closed_positions := (closed_positions l)(position_id \<mapsto> position)\<rparr>)
   }"
| "fuzz_message (Ledger_msg ledger) l = do { require (ledger = l); ret l }"
| "fuzz_message msg l = ret l"

text \<open>Whether a message touches the ledger, so that an unknown account panics.\<close>

fun needs_ledger :: "broker_message \<Rightarrow> bool" where
  "needs_ledger (OrderPlaced _ _ _) = True"
| "needs_ledger (OrderModified _ _ _) = True"
| "needs_ledger (OrderCancelled _ _ _) = True"
| "needs_ledger (PositionOpened _ _ _) = True"
| "needs_ledger (PositionModified _ _ _) = True"
| "needs_ledger (PositionClosed _ _ _ _) = True"
| "needs_ledger (Ledger_msg _) = True"
| "needs_ledger _ = False"

definition fuzz_update :: "(ledger \<Rightarrow> ledger run) \<Rightarrow> fuzzer_state \<Rightarrow> fuzzer_state run" where
  "fuzz_update f st = do { l \<leftarrow> fz_ledger st; l' \<leftarrow> f l; fz_set_ledger l' st }"

definition handle_pushstream :: "fuzzer_state \<Rightarrow> broker_result \<Rightarrow> fuzzer_state run" where
  "handle_pushstream st msg =
     (case msg of
        Inl _ \<Rightarrow> ret st
      | Inr (LedgerBalanceChange account_uuid new_buying_power) \<Rightarrow> do {
          own \<leftarrow> fz_account_uuid st;
          if account_uuid = own then fuzz_update (\<lambda>l. ret (l\<lparr>buying_power := new_buying_power\<rparr>)) st
          else ret st
        }
      | Inr evt \<Rightarrow> if needs_ledger evt then fuzz_update (fuzz_message evt) st else ret st)"

section \<open>A tick of the strategy and the driver\<close>

text \<open>A user tick panics: the fuzzer defines no type of its own.\<close>

definition fuzzer_tick ::
  "'g rng \<Rightarrow> enumeration \<Rightarrow> unit merged gen_tick \<Rightarrow> fuzzer_state \<times> 'g \<Rightarrow>
     (broker_action option \<times> fuzzer_state \<times> 'g) run" where
  "fuzzer_tick rng entries gt = (\<lambda>(st, g).
     case gt_data gt of
       BrokerTick ix t \<Rightarrow> do { (a, g') \<leftarrow> get_action rng entries t st g; ret (a, st, g') }
     | BrokerPushstream res \<Rightarrow> do { st' \<leftarrow> handle_pushstream st res; ret (None, st', g) }
     | Merged_T _ \<Rightarrow> panic)"

text \<open>The event a message of the broker becomes (\<open>broker_tick\<close> and \<open>pushstream_tick\<close>).\<close>

fun output_event :: "tick_output \<Rightarrow> unit merged gen_tick" where
  "output_event (TickOut ix t) = \<lparr>gt_timestamp = t_timestamp t, gt_data = BrokerTick ix t\<rparr>"
| "output_event (Pushstream timestamp res) = \<lparr>gt_timestamp = timestamp, gt_data = BrokerPushstream res\<rparr>"

text \<open>
  One turn of the driver: the broker's loop is ticked and told how many actions were sent
  since the last turn, then each message goes to the fuzzer, and an action it returns is
  sent. \<open>c\<close> numbers the completions.
\<close>

fun handle_outputs ::
  "'g rng \<Rightarrow> enumeration \<Rightarrow> completion \<Rightarrow> tick_output list \<Rightarrow> 'g sim_client \<times> fuzzer_state \<times> 'g \<Rightarrow>
     (nat \<times> 'g sim_client \<times> fuzzer_state \<times> 'g) run" where
  "handle_outputs rng entries c [] (cl, fz, g) = ret (0, cl, fz, g)"
| "handle_outputs rng entries c (out # outs) (cl, fz, g) = do {
     (response, fz', g') \<leftarrow> fuzzer_tick rng entries (output_event out) (fz, g);
     case response of
       None \<Rightarrow> handle_outputs rng entries c outs (cl, fz', g')
     | Some action \<Rightarrow> do {
         cl' \<leftarrow> client_execute rng c action cl;
         (n, rest) \<leftarrow> handle_outputs rng entries (Suc c) outs (cl', fz', g');
         ret (Suc n, rest)
       }
   }"

definition driver_turn ::
  "'g rng \<Rightarrow> enumeration \<Rightarrow> completion \<Rightarrow> nat \<Rightarrow> tick_output list \<Rightarrow> 'g sim_client \<times> fuzzer_state \<times> 'g \<Rightarrow>
     (nat \<times> tick_output list \<times> 'g sim_client \<times> fuzzer_state \<times> 'g) run" where
  "driver_turn rng entries c client_res_count buffer = (\<lambda>(cl, fz, g). do {
     (client_msg_count, buffer', cl') \<leftarrow> client_tick rng client_res_count buffer cl;
     require (client_msg_count \<le> length buffer');
     (n, rest) \<leftarrow> handle_outputs rng entries c (take client_msg_count buffer') (cl', fz, g);
     ret (n, buffer', rest)
   })"

end
