(* ===== verification/Tg_FuzzProps.thy ===== *)
theory Tg_FuzzProps
  imports Tg_Fuzzer Tg_SimProps
begin

text \<open>
  The fuzzer and the broker together: the copy of the ledger the fuzzer keeps follows the
  broker's as long as the messages arrive in the order of the events, the closes it draws
  are always refused, the draw of an action returns, and the driver never waits for an
  action that was not sent.
\<close>

section \<open>What an action tells the client\<close>

text \<open>
  An action on an account is answered by its result and, when the balance has changed, by
  one notification: applied to a copy of the ledger they give the new ledger.
\<close>

definition told :: "uuid \<Rightarrow> ledger \<Rightarrow> 'g sim_broker \<Rightarrow> broker_result \<Rightarrow> 'g sim_broker \<Rightarrow> bool" where
  "told a l sim r sim' \<longleftrightarrow> (\<exists>l'. ledgers_of sim' a = Some l' \<and>
     (case r of Inl e \<Rightarrow> l' = l
      | Inr msg \<Rightarrow> needs_ledger msg \<and> fuzz_message msg l = Some (l'\<lparr>buying_power := buying_power l\<rparr>)) \<and>
     (sb_pq sim' = sb_pq sim \<and> buying_power l' = buying_power l \<or>
      sb_pq sim' = sq_push \<lparr>qi_timestamp = sb_timestamp sim + ping_ns (sb_settings sim),
        qi_unit = Notification (Inr (LedgerBalanceChange a (buying_power l')))\<rparr> (sb_pq sim)))"

lemma told_error: "ledgers_of sim a = Some l \<Longrightarrow> told a l sim (Inl e) (sim\<lparr>sb_prng := g\<rparr>)"
  by (simp add: told_def ledgers_of_def)

lemma told_refused: "ledgers_of sim a = Some l \<Longrightarrow> told a l sim (Inl e) sim"
  using told_error [of sim a l e "sb_prng sim"] by simp

lemma with_positions_accounts: "with_positions ix f accs = Some accs' \<Longrightarrow> accounts_get accs' = accounts_get accs"
  by (auto simp: with_positions_eq_Some)

lemma ledgers_of_changed:
  "ledgers_of (buying_power_changed a v sim) = ledgers_of sim"
  "ledgers_of (sim\<lparr>sb_accounts := accs\<rparr>) u = map_option acct_ledger (accounts_get accs u)"
  by (simp_all add: ledgers_of_def buying_power_changed_def fun_eq_iff)

lemma pq_changed:
  "sb_pq (buying_power_changed a v sim) = sq_push
     \<lparr>qi_timestamp = sb_timestamp sim + ping_ns (sb_settings sim),
      qi_unit = Notification (Inr (LedgerBalanceChange a v))\<rparr> (sb_pq sim)"
  by (simp add: buying_power_changed_def)

lemma ledgers_of_get: "ledgers_of sim a = Some l \<Longrightarrow> \<exists>acct. accounts_get (sb_accounts sim) a = Some acct \<and> acct_ledger acct = l"
  by (auto simp: ledgers_of_def)

lemma fresh_pending:
  "fresh_uuid u (sb_accounts sim) \<Longrightarrow> ledgers_of sim a = Some l \<Longrightarrow> pending_positions l u = None"
  using ledgers_of_get [of sim a l] by (auto simp: fresh_uuid_def unused_in_def)

lemma market_open_told:
  assumes wf: "broker_wf sim" and ix: "ix < length (sy_data (sb_symbols sim))"
    and fresh: "fresh_uuid (fst (gen_uuid rng (sb_prng sim))) (sb_accounts sim)"
    and l: "ledgers_of sim a = Some l"
    and run: "market_open rng a ix long sz sl tp mr sim = Some (r, sim')"
  shows "told a l sim r sim'"
proof -
  obtain bid ask where ba: "sy_price (sy_data (sb_symbols sim) ! ix) = (bid, ask)" by fastforce
  from run get_price_in_range [OF wf ix, unfolded ba] show ?thesis
  proof (cases rule: market_open_cases)
    case (error e g)
    with l show ?thesis by (simp add: told_error)
  next
    case (opened acct v u g accs pos)
    have acct: "acct_ledger acct = l" using ledgers_of_get [OF l] opened(5) by simp
    have none: "(pending_positions l)(u := None) = pending_positions l"
      using fresh_pending [OF _ l, of u] fresh opened(4) by (auto simp: fun_eq_iff)
    have "accounts_get accs a = Some (acct\<lparr>acct_ledger := l\<lparr>buying_power := buying_power l - v,
        open_positions := (open_positions l)(u \<mapsto> pos)\<rparr>\<rparr>)"
      using opened(7) acct by (auto simp: position_opened_immediate_def bind_Some_iff dest!: with_positions_accounts)
    then show ?thesis
      using opened(8,9) acct none by (simp add: told_def ledgers_of_changed pq_changed)
  qed
qed

lemma place_order_told:
  assumes wf: "broker_wf sim" and ix: "ix < length (sy_data (sb_symbols sim))"
    and fresh: "fresh_uuid (fst (gen_uuid rng (sb_prng sim))) (sb_accounts sim)"
    and l: "ledgers_of sim a = Some l"
    and run: "place_order rng a ix price long sz sl tp sim = Some (r, sim')"
  shows "told a l sim r sim'"
proof -
  obtain bid ask where ba: "sy_price (sy_data (sb_symbols sim) ! ix) = (bid, ask)" by fastforce
  from run get_price_in_range [OF wf ix, unfolded ba] show ?thesis
  proof (cases rule: place_order_cases)
    case (error e g)
    with l show ?thesis by (simp add: told_error)
  next
    case filled
    with market_open_told [OF wf ix fresh l] show ?thesis by blast
  next
    case (placed acct v u g accs pos)
    have acct: "acct_ledger acct = l" using ledgers_of_get [OF l] placed(7) by simp
    have accs: "accounts_get accs a = Some (acct\<lparr>acct_ledger := l\<lparr>buying_power := buying_power l - v,
        pending_positions := (pending_positions l)(u \<mapsto> pos)\<rparr>\<rparr>)"
      using placed(9) acct by (auto simp: order_placed_def dest!: with_positions_accounts)
    then show ?thesis
      using placed(10,11) by (auto simp: told_def ledgers_of_changed pq_changed)
  qed
qed

lemma modify_order_told:
  assumes wf: "broker_wf sim" and l: "ledgers_of sim a = Some l"
    and run: "modify_order a u sz price sl tp sim = Some (r, sim')"
  shows "told a l sim r sim'"
proof -
  obtain acct where get: "accounts_get (sb_accounts sim) a = Some acct" and acct: "acct_ledger acct = l"
    using ledgers_of_get [OF l] by blast
  show ?thesis
  proof (cases "pending_positions (acct_ledger acct) u")
    case None
    with run get l show ?thesis by (auto simp: modify_order_def told_refused)
  next
    case (Some p)
    have m: "\<not> marketable sim p" using run modify_order_eq [OF wf get Some] by auto
    show ?thesis
      by (rule modify_order_step [OF wf get Some m, of sz price sl tp])
        (use run acct Some in \<open>auto simp: told_def ledgers_of_changed\<close>)
  qed
qed

lemma cancel_order_told:
  assumes wf: "broker_wf sim" and l: "ledgers_of sim a = Some l"
    and run: "cancel_order a u sim = Some (r, sim')"
  shows "told a l sim r sim'"
proof -
  obtain acct where get: "accounts_get (sb_accounts sim) a = Some acct" and acct: "acct_ledger acct = l"
    using ledgers_of_get [OF l] by blast
  show ?thesis
  proof (cases "pending_positions (acct_ledger acct) u")
    case None
    with run get l show ?thesis
      by (auto simp: cancel_order_def ledger_cancel_order_def set_ledger_same told_refused)
  next
    case (Some p)
    show ?thesis
      by (rule cancel_order_step [OF wf get Some])
        (use run acct Some in \<open>auto simp: told_def ledgers_of_changed pq_changed\<close>)
  qed
qed

lemma modify_position_told:
  assumes wf: "broker_wf sim" and l: "ledgers_of sim a = Some l"
    and run: "modify_position a u sl tp sim = Some (r, sim')"
  shows "told a l sim r sim'"
proof -
  obtain acct where get: "accounts_get (sb_accounts sim) a = Some acct" and acct: "acct_ledger acct = l"
    using ledgers_of_get [OF l] by blast
  show ?thesis
  proof (cases "open_positions (acct_ledger acct) u")
    case None
    with run get l show ?thesis
      by (auto simp: modify_position_def ledger_modify_position_def set_ledger_same told_refused)
  next
    case (Some p)
    show ?thesis
      by (rule modify_position_step [OF wf get Some, of sl tp])
        (use run acct Some in \<open>auto simp: told_def ledgers_of_changed\<close>)
  qed
qed

lemma exec_trading_action_told:
  assumes wf: "broker_wf sim" and fresh: "next_uuid_fresh rng sim" and l: "ledgers_of sim a = Some l"
    and run: "exec_trading_action rng a act sim = Some (r, sim')"
    and mc: "\<And>u sz. act \<noteq> MarketClose u sz"
  shows "told a l sim r sim'"
proof -
  note fresh = fresh [unfolded next_uuid_fresh_def]
  have ix: "ix < length (sy_data (sb_symbols sim))" if "get_index (sb_symbols sim) n = Some ix" for n ix
    using that broker_wf_hm [OF wf] by (simp add: get_index_def)
  show ?thesis
    using run l mc
    by (cases act)
      (auto split: option.splits simp: told_refused dest: ix modify_order_told [OF wf l]
        cancel_order_told [OF wf l] modify_position_told [OF wf l] market_open_told [OF wf ix fresh l]
        place_order_told [OF wf ix fresh l])
qed

section \<open>The copy of the ledger\<close>

definition mirrors :: "uuid \<Rightarrow> fuzzer_state \<Rightarrow> 'g sim_broker \<Rightarrow> bool" where
  "mirrors a st sim \<longleftrightarrow> fz_account_uuid st = Some a \<and> fz_ledger st \<noteq> None \<and> fz_ledger st = ledgers_of sim a"

lemma fuzz_update_known:
  assumes "fz_ledger st = Some l" and "f l = Some l'"
  shows "\<exists>st'. fuzz_update f st = Some st' \<and> fz_ledger st' = Some l' \<and> fz_account_uuid st' = fz_account_uuid st"
  using assms by (auto simp: fuzz_update_def fz_ledger_def fz_set_ledger_def)

lemma handle_evt:
  "needs_ledger evt \<Longrightarrow> handle_pushstream st (Inr evt) = fuzz_update (fuzz_message evt) st"
  by (cases evt) (simp_all add: handle_pushstream_def)

lemma handle_balance:
  assumes "fz_ledger st = Some l" and "fz_account_uuid st = Some a"
  shows "\<exists>st'. handle_pushstream st (Inr (LedgerBalanceChange a v)) = Some st' \<and>
    fz_ledger st' = Some (l\<lparr>buying_power := v\<rparr>) \<and> fz_account_uuid st' = Some a"
  using fuzz_update_known [OF assms(1), of "\<lambda>l. ret (l\<lparr>buying_power := v\<rparr>)"] assms(2)
  by (auto simp: handle_pushstream_def)

lemma sq_push_differs: "sq_push x q \<noteq> q"
  using heap_push_mset [of qi_timestamp x q] unfolding sq_push_def
  by (metis multi_self_add_other_not_self)

text \<open>Handling the answer and then the balance of the account.\<close>

lemma told_mirrors:
  assumes told: "told a l sim r sim'" and m: "mirrors a st sim" and l: "ledgers_of sim a = Some l"
  shows "\<exists>st1 st2. handle_pushstream st r = Some st1 \<and>
    handle_pushstream st1 (Inr (LedgerBalanceChange a (buying_power (the (ledgers_of sim' a))))) = Some st2 \<and>
    mirrors a st2 sim' \<and> (sb_pq sim' = sb_pq sim \<longrightarrow> mirrors a st1 sim')"
proof -
  have st: "fz_ledger st = Some l" "fz_account_uuid st = Some a" using m l by (simp_all add: mirrors_def)
  obtain l' where l': "ledgers_of sim' a = Some l'"
    and r: "case r of Inl e \<Rightarrow> l' = l
      | Inr msg \<Rightarrow> needs_ledger msg \<and> fuzz_message msg l = Some (l'\<lparr>buying_power := buying_power l\<rparr>)"
    and q: "sb_pq sim' = sb_pq sim \<Longrightarrow> buying_power l' = buying_power l"
    using told unfolding told_def
    by (auto simp: sq_push_differs sq_push_differs [symmetric])
  obtain st1 where st1: "handle_pushstream st r = Some st1" "fz_account_uuid st1 = Some a"
    "fz_ledger st1 = Some (l'\<lparr>buying_power := buying_power l\<rparr>)"
  proof (cases r)
    case (Inl e)
    with r st show ?thesis by (intro that [of st]) (simp_all add: handle_pushstream_def)
  next
    case (Inr msg)
    with r have "needs_ledger msg" "fuzz_message msg l = Some (l'\<lparr>buying_power := buying_power l\<rparr>)" by auto
    with fuzz_update_known [OF st(1), of "fuzz_message msg"] st(2) Inr that show ?thesis
      by (auto simp: handle_evt)
  qed
  obtain st2 where st2: "handle_pushstream st1 (Inr (LedgerBalanceChange a (buying_power l'))) = Some st2"
    "fz_ledger st2 = Some l'" "fz_account_uuid st2 = Some a"
    using handle_balance [OF st1(3,2), of "buying_power l'"] by auto
  have "mirrors a st2 sim'" using st2 l' by (simp add: mirrors_def)
  moreover have "mirrors a st1 sim'" if "sb_pq sim' = sb_pq sim"
    using st1 l' q [OF that] by (simp add: mirrors_def)
  ultimately show ?thesis using st1 st2 l' by auto
qed

section \<open>The closes that are drawn\<close>

text \<open>A close names one of the pending orders of the copy.\<close>

definition closes :: "uuid \<Rightarrow> trading_action \<Rightarrow> bool" where
  "closes u act \<longleftrightarrow> (\<exists>sz. act = MarketClose u sz) \<or> (\<exists>sz p. act = LimitClose u sz p)"

definition pending_close :: "enumeration \<Rightarrow> fuzzer_state \<Rightarrow> broker_action option \<Rightarrow> bool" where
  "pending_close entries st a \<longleftrightarrow> (\<forall>acct act u. a = Some (TradingAction acct act) \<longrightarrow> closes u act \<longrightarrow>
     fz_account_uuid st = Some acct \<and>
     (\<exists>l pos. fz_ledger st = Some l \<and> (u, pos) \<in> set (entries (pending_positions l))))"

lemma pending_close_none [simp]: "pending_close entries st None"
  by (simp add: pending_close_def)

lemma fuzz_market_order_close: "fuzz_market_order rng st g = Some (a, g') \<Longrightarrow> pending_close entries st a"
  by (auto simp: fuzz_market_order_def pending_close_def closes_def bind_Some_iff split_beta)

lemma fuzz_limit_order_close: "fuzz_limit_order rng st g = Some (a, g') \<Longrightarrow> pending_close entries st a"
  by (auto simp: fuzz_limit_order_def pending_close_def closes_def bind_Some_iff split_beta)

lemma fuzz_cancel_close: "fuzz_cancel rng entries st g = Some (a, g') \<Longrightarrow> pending_close entries st a"
  by (auto simp: fuzz_cancel_def pending_close_def closes_def bind_Some_iff split_beta
      neq_Nil_conv split: if_splits list.splits)

lemma nth_pair_mem: "i < length xs \<Longrightarrow> (fst (xs ! i), snd (xs ! i)) \<in> set xs"
  by simp

lemma fuzz_market_close_close:
  "fuzz_market_close rng entries st g = Some (a, g') \<Longrightarrow> pending_close entries st a"
  by (auto simp: fuzz_market_close_def pending_close_def closes_def bind_Some_iff split_beta Let_def
      split: if_splits intro: nth_pair_mem)

lemma fuzz_limit_close_close:
  "fuzz_limit_close rng entries t st g = Some (a, g') \<Longrightarrow> pending_close entries st a"
  by (auto simp: fuzz_limit_close_def pending_close_def closes_def bind_Some_iff split_beta Let_def
      split: if_splits intro: nth_pair_mem)

lemmas draw_closes = fuzz_market_order_close fuzz_limit_order_close fuzz_cancel_close
  fuzz_market_close_close fuzz_limit_close_close

text \<open>One draw, with what follows a draw that is thrown away as a parameter.\<close>

definition one_draw ::
  "('g \<Rightarrow> 'g drawn) \<Rightarrow> 'g rng \<Rightarrow> enumeration \<Rightarrow> tick \<Rightarrow> fuzzer_state \<Rightarrow> 'g \<Rightarrow> 'g drawn" where
  "one_draw f rng entries t st g =
     (let r = rng g 0 20; rand = fst r; g = snd r
      in if rand = 0 then ret (Some Ping, g)
         else if rand = 1 then fuzz_market_order rng st g
         else if rand = 2 then (let s = rng g 0 5 in if fst s > 3 then f (snd s) else ret (None, snd s))
         else if rand = 3 then fuzz_limit_order rng st g
         else if 8 \<le> rand \<and> rand \<le> 11 then fuzz_market_close rng entries st g
         else if 12 \<le> rand \<and> rand \<le> 15 then fuzz_limit_close rng entries t st g
         else if rand = 16 then fuzz_cancel rng entries st g
         else if rand = 17 then do { u \<leftarrow> fz_account_uuid st; ret (Some (GetLedger u), g) }
         else if rand = 18 then ret (Some ListAccounts, g)
         else ret (None, g))"

lemma get_action_draws: "get_action rng entries t st g = one_draw (get_action rng entries t st) rng entries t st g"
  by (subst get_action.simps) (simp add: one_draw_def)

lemma get_action_induct:
  assumes run: "get_action rng entries t st g = Some y"
    and step: "\<And>f rng entries t st g y.
      (\<And>rng entries t st g y. f rng entries t st g = Some y \<Longrightarrow> P rng entries t st g y) \<Longrightarrow>
      one_draw (f rng entries t st) rng entries t st g = Some y \<Longrightarrow> P rng entries t st g y"
  shows "P rng entries t st g y"
  by (rule get_action.raw_induct [OF _ run]) (rule step, assumption, simp only: one_draw_def)

lemma get_action_close:
  fixes rng :: "'g rng"
  assumes "get_action rng entries t st g = Some y"
  shows "pending_close entries st (fst y)"
proof (rule get_action_induct [OF assms, where P = "\<lambda>rng entries t st g y. pending_close entries st (fst y)"])
  fix f :: "'g rng \<Rightarrow> enumeration \<Rightarrow> tick \<Rightarrow> fuzzer_state \<Rightarrow> 'g \<Rightarrow> 'g drawn" and rng entries t st g y
  assume IH: "\<And>rng entries t st g y. f rng entries t st g = Some y \<Longrightarrow> pending_close entries st (fst y)"
    and draw: "one_draw (f rng entries t st) rng entries t st g = Some y"
  obtain a g' where y: "y = (a, g')" by fastforce
  have simple: "pending_close entries st (Some b)" if "\<And>acct act. b \<noteq> TradingAction acct act" for b
    using that by (simp add: pending_close_def)
  show "pending_close entries st (fst y)"
    using draw y by (auto simp: one_draw_def Let_def bind_Some_iff split: if_splits
        dest: draw_closes IH intro: simple)
qed

section \<open>Drawing again\<close>

text \<open>Whether a draw is thrown away for another, and the generator then.\<close>

definition rerolls :: "'g rng \<Rightarrow> 'g \<Rightarrow> bool" where
  "rerolls rng g \<longleftrightarrow> fst (rng g 0 20) = 2 \<and> fst (rng (snd (rng g 0 20)) 0 5) > 3"

definition reroll :: "'g rng \<Rightarrow> 'g \<Rightarrow> 'g" where
  "reroll rng g = snd (rng (snd (rng g 0 20)) 0 5)"

lemma get_action_reroll:
  "rerolls rng g \<Longrightarrow> get_action rng entries t st g = get_action rng entries t st (reroll rng g)"
  by (subst get_action_draws) (simp add: one_draw_def rerolls_def reroll_def Let_def)

lemma draw_returns:
  assumes "fz_account_uuid st \<noteq> None" and "fz_account st \<noteq> None" and "\<not> rerolls rng g"
  shows "get_action rng entries t st g \<noteq> None"
  using assms
  by (subst get_action_draws)
    (auto simp: one_draw_def rerolls_def Let_def fuzz_market_order_def fuzz_limit_order_def fuzz_market_close_def
      fuzz_limit_close_def fuzz_cancel_def fz_ledger_def split_beta)

lemma get_action_rerolls:
  fixes rng :: "'g rng"
  assumes "get_action rng entries t st g = Some y"
  shows "\<exists>k. \<not> rerolls rng ((reroll rng ^^ k) g)"
proof (rule get_action_induct [OF assms,
      where P = "\<lambda>rng entries t st g y. \<exists>k. \<not> rerolls rng ((reroll rng ^^ k) g)"])
  fix f :: "'g rng \<Rightarrow> enumeration \<Rightarrow> tick \<Rightarrow> fuzzer_state \<Rightarrow> 'g \<Rightarrow> 'g drawn" and rng entries t st g y
  assume IH: "\<And>rng entries t st g y. f rng entries t st g = Some y \<Longrightarrow> \<exists>k. \<not> rerolls rng ((reroll rng ^^ k) g)"
    and draw: "one_draw (f rng entries t st) rng entries t st g = Some y"
  show "\<exists>k. \<not> rerolls rng ((reroll rng ^^ k) g)"
  proof (cases "rerolls rng g")
    case True
    then have "f rng entries t st (reroll rng g) = Some y"
      using draw by (simp add: one_draw_def rerolls_def reroll_def Let_def)
    from IH [OF this] obtain k where "\<not> rerolls rng ((reroll rng ^^ k) (reroll rng g))" by (elim exE)
    then show ?thesis by (intro exI [of _ "Suc k"]) (simp add: funpow_swap1)
  next
    case False
    then show ?thesis by (intro exI [of _ 0]) simp
  qed
qed

section \<open>The driver's count of actions\<close>

lemma recv_actions_rx:
  "recv_actions n sim = Some sim' \<Longrightarrow> sb_client_rx sim' = drop n (sb_client_rx sim)"
  by (induction n sim rule: recv_actions.induct) (auto split: list.splits)

lemma recv_actions_returns: "n \<le> length (sb_client_rx sim) \<Longrightarrow> recv_actions n sim \<noteq> None"
  by (induction n sim rule: recv_actions.induct) (auto split: list.splits)

lemma process_unit_rx:
  assumes "process_unit rng w ts buf sim = Some (n, buf', sim')"
  shows "sb_client_rx sim' = sb_client_rx sim"
proof (cases w)
  case (NewTick ix t)
  with assms show ?thesis
    by (auto simp: bind_Some_iff Let_def split_beta elim!: tick_positions_frame)
next
  case (ActionComplete future action)
  with assms show ?thesis
    by (auto simp: bind_Some_iff Let_def split_beta action_frame_def dest!: exec_action_frame)
qed (use assms in \<open>auto simp: bind_Some_iff Let_def\<close>)

lemma tick_sim_loop_rx:
  "tick_sim_loop rng n buf sim = Some (m, buf', sim') \<Longrightarrow> sb_client_rx sim' = drop n (sb_client_rx sim)"
  by (auto simp: tick_sim_loop_def bind_Some_iff dest!: process_unit_rx recv_actions_rx)

lemma client_tick_rx:
  assumes "client_tick rng n buf cl = Some (m, buf', cl')"
  shows "cl_in_loop cl' = cl_in_loop cl \<and> sb_client_rx (cl_sim cl') = drop n (sb_client_rx (cl_sim cl))"
  using assms by (auto simp: client_tick_def bind_Some_iff dest!: tick_sim_loop_rx)

lemma client_execute_rx:
  assumes "client_execute rng c a cl = Some cl'" and "cl_in_loop cl"
  shows "cl_in_loop cl' \<and> length (sb_client_rx (cl_sim cl')) = Suc (length (sb_client_rx (cl_sim cl))) \<and>
    length (sb_client_rx (cl_sim cl')) \<le> 32"
  using assms by (auto simp: client_execute_def inner_capacity_def bind_Some_iff)

lemma handle_outputs_rx:
  assumes "handle_outputs rng entries c outs (cl, fz, g) = Some (n, cl', fz', g')" and "cl_in_loop cl"
    and "length (sb_client_rx (cl_sim cl)) \<le> 32"
  shows "cl_in_loop cl' \<and> length (sb_client_rx (cl_sim cl')) = length (sb_client_rx (cl_sim cl)) + n \<and>
    length (sb_client_rx (cl_sim cl')) \<le> 32"
  using assms
proof (induction outs arbitrary: c cl fz g n)
  case (Cons out outs)
  from Cons.prems(1) obtain resp fz1 g1 where
    tick: "fuzzer_tick rng entries (output_event out) (fz, g) = Some (resp, fz1, g1)"
    by (auto simp: bind_Some_iff)
  show ?case
  proof (cases resp)
    case None
    with Cons.prems(1) tick have "handle_outputs rng entries c outs (cl, fz1, g1) = Some (n, cl', fz', g')"
      by (simp add: bind_Some_iff)
    from Cons.IH [OF this Cons.prems(2,3)] show ?thesis .
  next
    case (Some action)
    with Cons.prems(1) tick obtain cl1 m where ex: "client_execute rng c action cl = Some cl1"
      and rest: "handle_outputs rng entries (Suc c) outs (cl1, fz1, g1) = Some (m, cl', fz', g')"
      and n: "n = Suc m"
      by (auto simp: bind_Some_iff)
    from Cons.IH [OF rest] client_execute_rx [OF ex Cons.prems(2)] n show ?thesis by simp
  qed
qed simp

section \<open>Properties\<close>

text \<open>C28. The fuzzer's copy follows the broker: when it equals the account's ledger, and an action on
  the account that is no market close is executed, then the copy that has handled the answer
  and the account's new balance equals the new ledger, without a failed assertion on the
  way; and when the action queued no balance notification, the answer alone is enough.\<close>

theorem fuzzer_mirrors_broker:
  assumes "broker_wf sim" and "next_uuid_fresh rng sim" and "mirrors a st sim"
    and "exec_action rng (TradingAction a act) sim = Some (r, sim')"
    and "\<not> is_market_close (TradingAction a act)"
  shows "\<exists>st1 st2. handle_pushstream st r = Some st1 \<and>
    handle_pushstream st1 (Inr (LedgerBalanceChange a (buying_power (the (ledgers_of sim' a))))) = Some st2 \<and>
    mirrors a st2 sim' \<and> (sb_pq sim' = sb_pq sim \<longrightarrow> mirrors a st1 sim')"
proof -
  obtain l where l: "ledgers_of sim a = Some l"
    using assms(3) by (cases "ledgers_of sim a") (auto simp: mirrors_def)
  have "act \<noteq> MarketClose u sz" for u sz using assms(5) by (auto simp: is_market_close_def)
  with exec_trading_action_told [OF assms(1,2) l] assms(4) have "told a l sim r sim'" by simp
  with told_mirrors assms(3) l show ?thesis by blast
qed

definition ex_copy :: fuzzer_state where
  "ex_copy = \<lparr>fz_account_uuid = Some 1,
     fz_account = Some \<lparr>acct_uuid = 1, acct_ledger = ex_ledger, acct_live = False\<rparr>\<rparr>"

lemma ex_mirrors: "mirrors 1 ex_copy ex_sim"
  by (simp add: mirrors_def ex_copy_def fz_ledger_def ledgers_of_def ex_accounts_get)

theorem fuzzer_mirrors_broker_witness:
  "\<exists>r sim' st1 st2. exec_action ex_rng ex_cancel ex_sim = Some (r, sim') \<and>
    handle_pushstream ex_copy r = Some st1 \<and>
    handle_pushstream st1 (Inr (LedgerBalanceChange 1 (buying_power (the (ledgers_of sim' 1))))) = Some st2 \<and>
    mirrors 1 st2 sim'"
proof -
  obtain r sim' where run: "exec_action ex_rng ex_cancel ex_sim = Some (r, sim')"
    using exec_action_returns [OF ex_wf ex_cancel_ok(1)] by blast
  from fuzzer_mirrors_broker [OF ex_wf ex_fresh ex_mirrors run [unfolded ex_cancel_def]]
  show ?thesis using run ex_cancel_ok(2) unfolding ex_cancel_def by blast
qed

text \<open>C30. The copy depends on the order of the messages. A fill that is reported before the order it
  fills (the event loop reports fills at once, but answers a ping later) leaves the order
  pending in the copy for ever, and the comparison with the broker's ledger then panics.\<close>

theorem overtaken_fill_diverges:
  assumes "fz_ledger st = Some l"
  shows "\<exists>st1 st2. handle_pushstream st (Inr (PositionOpened u pos t)) = Some st1 \<and>
    handle_pushstream st1 (Inr (OrderPlaced u order t0)) = Some st2 \<and>
    map_option (\<lambda>l. (pending_positions l u, open_positions l u)) (fz_ledger st2) = Some (Some order, Some pos) \<and>
    (\<forall>l'. pending_positions l' u = None \<longrightarrow> handle_pushstream st2 (Inr (Ledger_msg l')) = None)"
proof -
  obtain st1 where st1: "handle_pushstream st (Inr (PositionOpened u pos t)) = Some st1"
    "fz_ledger st1 = Some (l\<lparr>pending_positions := (pending_positions l)(u := None),
       open_positions := (open_positions l)(u \<mapsto> pos)\<rparr>)"
    using fuzz_update_known [OF assms, of "fuzz_message (PositionOpened u pos t)"] by (auto simp: handle_evt)
  obtain st2 where st2: "handle_pushstream st1 (Inr (OrderPlaced u order t0)) = Some st2"
    "fz_ledger st2 = Some (l\<lparr>pending_positions := (pending_positions l)(u \<mapsto> order),
       open_positions := (open_positions l)(u \<mapsto> pos)\<rparr>)"
    using fuzz_update_known [OF st1(2), of "fuzz_message (OrderPlaced u order t0)"] by (auto simp: handle_evt)
  have "handle_pushstream st2 (Inr (Ledger_msg l')) = None" if "pending_positions l' u = None" for l'
    using that st2(2) by (auto simp: handle_evt fuzz_update_def require_def)
  with st1 st2 show ?thesis by (auto simp: comp_def)
qed

theorem overtaken_fill_diverges_witness:
  "\<exists>st1 st2. handle_pushstream ex_copy (Inr (PositionOpened 9 ex_position 15)) = Some st1 \<and>
    handle_pushstream st1 (Inr (OrderPlaced 9 ex_order 10)) = Some st2 \<and>
    map_option (\<lambda>l. (pending_positions l 9, open_positions l 9)) (fz_ledger st2) = Some (Some ex_order, Some ex_position) \<and>
    (\<forall>l'. pending_positions l' 9 = None \<longrightarrow> handle_pushstream st2 (Inr (Ledger_msg l')) = None)"
  by (rule overtaken_fill_diverges [of _ ex_ledger]) (simp add: ex_copy_def fz_ledger_def)

text \<open>The closes the fuzzer draws never reach an open position: it looks for the position to close
  among the pending orders of its copy, so a well-formed broker it mirrors refuses each one
  and stays as it is.\<close>

theorem drawn_closes_refused:
  assumes "broker_wf sim" and "mirrors a st sim"
    and "\<forall>m u p. (u, p) \<in> set (entries m) \<longrightarrow> m u = Some p"
    and "get_action rng entries t st g = Some (Some (TradingAction b act), g')"
    and "closes u act"
  shows "exec_action rng' (TradingAction b act) sim = Some (Inl NoSuchPosition, sim)"
proof -
  from get_action_close [OF assms(4)] assms(5) obtain l p where l: "fz_ledger st = Some l"
    and ab: "fz_account_uuid st = Some b" and mem: "(u, p) \<in> set (entries (pending_positions l))"
    by (auto simp: pending_close_def)
  have pending: "pending_positions l u = Some p" using assms(3) mem by blast
  have b: "b = a" using ab assms(2) by (simp add: mirrors_def)
  have "ledgers_of sim a = Some l" using l assms(2) by (simp add: mirrors_def)
  then obtain acct where get: "accounts_get (sb_accounts sim) a = Some acct" and acct: "acct_ledger acct = l"
    using ledgers_of_get by blast
  have none: "open_positions l u = None"
    using accounts_wf_ledger [OF broker_wf_accounts [OF assms(1)] get] ledger_wf_apart [of l u p] pending acct
    by simp
  show ?thesis
    using assms(5) get acct none b set_ledger_same [OF get]
    by (auto simp: closes_def market_close_def modify_position_def ledger_modify_position_def)
qed

definition ex_entries :: enumeration where
  "ex_entries m = (case m 7 of None \<Rightarrow> [] | Some p \<Rightarrow> [(7, p)]) @ (case m 8 of None \<Rightarrow> [] | Some p \<Rightarrow> [(8, p)])"

text \<open>A generator that draws a close, and then zeros.\<close>

definition ex_closing :: "nat rng" where
  "ex_closing n lo hi = (if n = 0 then 8 else 0, Suc n)"

theorem drawn_closes_refused_witness:
  "exec_action ex_rng (TradingAction 1 (MarketClose 7 0)) ex_sim = Some (Inl NoSuchPosition, ex_sim)"
proof (rule drawn_closes_refused [OF ex_wf ex_mirrors])
  show "\<forall>m u p. (u, p) \<in> set (ex_entries m) \<longrightarrow> m u = Some p"
    by (auto simp: ex_entries_def split: option.splits)
  have "ex_entries (pending_positions ex_ledger) = [(7, ex_order)]"
    "ex_entries (open_positions ex_ledger) = [(8, ex_position)]"
    by (simp_all add: ex_entries_def ex_ledger_def)
  then show "get_action ex_closing ex_entries tick_null ex_copy 0 = Some (Some (TradingAction 1 (MarketClose 7 0)), 3)"
    by (subst get_action.simps)
      (simp add: ex_closing_def fuzz_market_close_def ex_copy_def fz_ledger_def open_count_def)
  show "closes 7 (MarketClose 7 0)" by (simp add: closes_def)
qed

text \<open>C29. The draw of an action returns exactly when the generator at some point no longer asks for
  another draw, given that the fuzzer knows its account.\<close>

theorem get_action_returns_iff:
  assumes "fz_account_uuid st \<noteq> None" and "fz_account st \<noteq> None"
  shows "(\<exists>a g'. get_action rng entries t st g = Some (a, g')) \<longleftrightarrow> (\<exists>k. \<not> rerolls rng ((reroll rng ^^ k) g))"
proof
  assume "\<exists>a g'. get_action rng entries t st g = Some (a, g')"
  then obtain a g' where "get_action rng entries t st g = Some (a, g')" by (elim exE)
  from get_action_rerolls [OF this] show "\<exists>k. \<not> rerolls rng ((reroll rng ^^ k) g)" .
next
  assume "\<exists>k. \<not> rerolls rng ((reroll rng ^^ k) g)"
  then obtain k where "\<not> rerolls rng ((reroll rng ^^ k) g)" by blast
  then have "get_action rng entries t st g \<noteq> None"
  proof (induction k arbitrary: g)
    case 0
    with draw_returns [OF assms] show ?case by simp
  next
    case (Suc k)
    show ?case
    proof (cases "rerolls rng g")
      case True
      with Suc show ?thesis by (simp add: get_action_reroll funpow_swap1)
    qed (rule draw_returns [OF assms])
  qed
  then show "\<exists>a g'. get_action rng entries t st g = Some (a, g')" by auto
qed

theorem get_action_returns_iff_witness:
  "(\<exists>a g'. get_action ex_rng ex_entries tick_null ex_copy 40 = Some (a, g')) \<longleftrightarrow>
    (\<exists>k. \<not> rerolls ex_rng ((reroll ex_rng ^^ k) 40))"
  by (rule get_action_returns_iff) (simp_all add: ex_copy_def)

text \<open>The driver tells the broker's loop exactly how many actions wait for it, so the loop never
  blocks on the channel of actions, and the channel never holds more than its 32 places.\<close>

theorem driver_in_step:
  assumes "cl_in_loop cl" and "length (sb_client_rx (cl_sim cl)) = n"
  shows "recv_actions n (cl_sim cl) \<noteq> None \<and>
    (\<forall>n' buf' cl' fz' g'. driver_turn rng entries c n buf (cl, fz, g) = Some (n', buf', cl', fz', g') \<longrightarrow>
      cl_in_loop cl' \<and> length (sb_client_rx (cl_sim cl')) = n' \<and> n' \<le> 32)"
proof (intro conjI allI impI)
  show "recv_actions n (cl_sim cl) \<noteq> None" using recv_actions_returns [of n "cl_sim cl"] assms(2) by simp
  fix n' buf' cl' fz' g'
  assume "driver_turn rng entries c n buf (cl, fz, g) = Some (n', buf', cl', fz', g')"
  then obtain m buf1 cl1 where tick: "client_tick rng n buf cl = Some (m, buf1, cl1)"
    and rest: "handle_outputs rng entries c (take m buf1) (cl1, fz, g) = Some (n', cl', fz', g')"
    by (auto simp: driver_turn_def bind_Some_iff)
  from client_tick_rx [OF tick] assms have rx: "cl_in_loop cl1" "sb_client_rx (cl_sim cl1) = []" by simp_all
  from handle_outputs_rx [OF rest rx(1)] rx(2)
  show "cl_in_loop cl'" "length (sb_client_rx (cl_sim cl')) = n'" "n' \<le> 32" by simp_all
qed

definition ex_driven :: "nat sim_client" where
  "ex_driven = \<lparr>cl_sim = ex_sim\<lparr>sb_client_rx := [(Ping, 0)]\<rparr>, cl_push = chain_new, cl_ticks = Map.empty,
     cl_in_loop = True\<rparr>"

lemma ex_driven_turn:
  "\<exists>buf cl fz g. driver_turn ex_rng ex_entries 1 1 (replicate 5 (TickOut 0 tick_null)) (ex_driven, ex_copy, 40) =
    Some (0, buf, cl, fz, g)"
proof -
  have "map_option fst (client_tick ex_rng 1 (replicate 5 (TickOut 0 tick_null)) ex_driven) = Some 0"
    by code_simp
  then obtain buf cl where "client_tick ex_rng 1 (replicate 5 (TickOut 0 tick_null)) ex_driven = Some (0, buf, cl)"
    by auto
  then show ?thesis by (simp add: driver_turn_def)
qed

theorem driver_in_step_witness:
  "\<exists>n buf cl fz g. driver_turn ex_rng ex_entries 1 1 (replicate 5 (TickOut 0 tick_null))
      (ex_driven, ex_copy, 40) = Some (n, buf, cl, fz, g) \<and>
    cl_in_loop cl \<and> length (sb_client_rx (cl_sim cl)) = n \<and> n \<le> 32"
proof -
  have "cl_in_loop ex_driven" "length (sb_client_rx (cl_sim ex_driven)) = 1" by (simp_all add: ex_driven_def)
  from driver_in_step [OF this] ex_driven_turn show ?thesis by blast
qed

end
