(* ===== verification/Tg_Textlog.thy ===== *)
theory Tg_Textlog
  imports Tg_Fuzzer Tg_Text
begin

text \<open>
  The logs kept in text files (\<open>util/src/transport/textlog.rs\<close>) and their two users: the
  events of the simulated broker (\<open>simbroker/src/superlog.rs\<close>) and of the fuzzing strategy
  (\<open>EventLogger\<close> in \<open>private/src/strategies/fuzzer/mod.rs\<close>). Lines are buffered in memory
  and written in chunks. The directory listing, the date and \<open>Debug\<close> printing are parameters.
\<close>

section \<open>Finding a file name\<close>

definition log_name :: "nat \<Rightarrow> nat \<Rightarrow> nat \<Rightarrow> string" where
  "log_name mon mday attempts =
     show_nat mon @ ''-'' @ show_nat mday @ ''_'' @ show_nat attempts @ ''.log''"

text \<open>The attempts are counted up until no file has the name; \<open>used\<close> tells which names are taken.\<close>

partial_function (option) find_log_name :: "(string \<Rightarrow> bool) \<Rightarrow> nat \<Rightarrow> nat \<Rightarrow> nat \<Rightarrow> string option" where
  "find_log_name used mon mday attempts =
     (if used (log_name mon mday attempts) then find_log_name used mon mday (attempts + 1)
      else Some (log_name mon mday attempts))"

section \<open>Writing in chunks\<close>

definition newline :: string where
  "newline = [CHR 0x0A]"

record text_log =
  tl_chunk :: nat
  tl_lines :: "string list"
  tl_file :: string

text \<open>The stream of chunks asks for chunks of at least one line.\<close>

definition get_logger_handle :: "nat \<Rightarrow> text_log run" where
  "get_logger_handle chunk_size = do {
     require (0 < chunk_size);
     ret \<lparr>tl_chunk = chunk_size, tl_lines = [], tl_file = []\<rparr>
   }"

definition chunk_text :: "string list \<Rightarrow> string" where
  "chunk_text lines = join_str newline lines @ newline"

definition log_line :: "string \<Rightarrow> text_log \<Rightarrow> text_log" where
  "log_line l lg =
     (let lines = tl_lines lg @ [l]
      in if tl_chunk lg \<le> length lines
         then lg\<lparr>tl_lines := [], tl_file := tl_file lg @ chunk_text lines\<rparr>
         else lg\<lparr>tl_lines := lines\<rparr>)"

fun log_lines :: "string list \<Rightarrow> text_log \<Rightarrow> text_log" where
  "log_lines [] lg = lg"
| "log_lines (l # ls) lg = log_lines ls (log_line l lg)"

text \<open>When all senders are gone, the lines that are left make a last, shorter chunk.\<close>

definition log_end :: "text_log \<Rightarrow> text_log" where
  "log_end lg =
     (if tl_lines lg = [] then lg
      else lg\<lparr>tl_lines := [], tl_file := tl_file lg @ chunk_text (tl_lines lg)\<rparr>)"

section \<open>The lines of the simulated broker\<close>

text \<open>
  The constructors of \<open>CacheAction\<close>, whose names are those of messages of the broker. A
  logger does something only when the broker is built with the feature \<open>superlog\<close>.
\<close>

datatype cache_action =
    Cache_OrderPlaced
  | Cache_OrderModified position
  | Cache_OrderCancelled
  | Cache_OrderFilled
  | Cache_PositionOpenedImmediate
  | Cache_PositionModified position
  | Cache_PositionClosed

definition superlogger_new :: "bool \<Rightarrow> text_log option run" where
  "superlogger_new superlog =
     (if superlog then do { lg \<leftarrow> get_logger_handle 50; ret (Some lg) } else ret None)"

definition event_log :: "u64 \<Rightarrow> string \<Rightarrow> text_log option \<Rightarrow> text_log option" where
  "event_log timestamp event = map_option (log_line (show_word timestamp @ '': '' @ event))"

definition cache_log ::
  "(cache_action \<Rightarrow> string) \<Rightarrow> (uuid \<Rightarrow> string) \<Rightarrow> (position \<Rightarrow> string) \<Rightarrow> cache_action \<Rightarrow> uuid \<Rightarrow> uuid \<Rightarrow> position \<Rightarrow>
     text_log option \<Rightarrow> text_log option" where
  "cache_log debug_action show_uuid debug_position action account_uuid pos_uuid pos =
     map_option (log_line (''CACHE - '' @ debug_action action @ '', AccountID: '' @ show_uuid account_uuid @
       '', PosID: '' @ show_uuid pos_uuid @ '', pos: '' @ debug_position pos))"

definition error_log :: "string \<Rightarrow> text_log option \<Rightarrow> text_log option" where
  "error_log err_msg = map_option (log_line (''ERROR - '' @ err_msg))"

section \<open>The lines of the fuzzing strategy\<close>

record fuzz_printer =
  pr_action :: "broker_action \<Rightarrow> string"
  pr_result :: "broker_result \<Rightarrow> string"
  pr_tick :: "tick \<Rightarrow> string"

definition log_request :: "fuzz_printer \<Rightarrow> broker_action \<Rightarrow> u64 \<Rightarrow> string" where
  "log_request pr action timestamp = show_word timestamp @ '' - REQUEST: '' @ pr_action pr action"

text \<open>A listing of accounts and a ledger are left out, with the parenthesis that is missing.\<close>

definition log_pushtream :: "fuzz_printer \<Rightarrow> u64 \<Rightarrow> broker_result \<Rightarrow> string" where
  "log_pushtream pr timestamp res =
     (case res of
        Inr (AccountListing accounts) \<Rightarrow> show_word timestamp @ '' - PUSHSTREAM: Ok(AccountListing{_}''
      | Inr (Ledger_msg l) \<Rightarrow> show_word timestamp @ '' - PUSHSTREAM: Ok(Ledger{_}''
      | _ \<Rightarrow> show_word timestamp @ '' - PUSHSTREAM: '' @ pr_result pr res)"

definition log_response :: "fuzz_printer \<Rightarrow> broker_result \<Rightarrow> nat \<Rightarrow> string" where
  "log_response pr res i = show_nat i @ '' - RESPONSE: '' @ pr_result pr res"

definition log_tick :: "fuzz_printer \<Rightarrow> tick \<Rightarrow> nat \<Rightarrow> string" where
  "log_tick pr t i = ''Received tick from symbol with index '' @ show_nat i @ '': '' @ pr_tick pr t"

text \<open>A tick of the strategy with the lines it logs.\<close>

definition fuzzer_tick_logged ::
  "fuzz_printer \<Rightarrow> 'g rng \<Rightarrow> enumeration \<Rightarrow> unit merged gen_tick \<Rightarrow> text_log \<Rightarrow> fuzzer_state \<times> 'g \<Rightarrow>
     (broker_action option \<times> text_log \<times> fuzzer_state \<times> 'g) run" where
  "fuzzer_tick_logged pr rng entries gt lg st = do {
     (action, st', g') \<leftarrow> fuzzer_tick rng entries gt st;
     let lg' = (case gt_data gt of
         BrokerTick ix t \<Rightarrow>
           log_lines (log_tick pr t ix #
             (case action of None \<Rightarrow> [] | Some a \<Rightarrow> [log_request pr a (t_timestamp t)])) lg
       | BrokerPushstream res \<Rightarrow> log_line (log_pushtream pr (gt_timestamp gt) res) lg
       | Merged_T u \<Rightarrow> lg);
     ret (action, lg', st', g')
   }"

section \<open>What is written\<close>

lemma chunk_text_lines: "ls \<noteq> [] \<Longrightarrow> chunk_text ls = concat (map (\<lambda>l. l @ newline) ls)"
proof (induction ls rule: induct_list012)
  case (3 x y zs)
  then show ?case by (simp add: chunk_text_def)
qed (simp_all add: chunk_text_def)

text \<open>The invariant of a log after the lines \<open>xs\<close>: full chunks are in the file, the rest waits.\<close>

definition text_log_inv :: "nat \<Rightarrow> string list \<Rightarrow> text_log \<Rightarrow> bool" where
  "text_log_inv n xs lg \<longleftrightarrow> tl_chunk lg = n \<and> length (tl_lines lg) < n \<and>
     (\<exists>ys. xs = ys @ tl_lines lg \<and> n dvd length ys \<and> tl_file lg = concat (map (\<lambda>l. l @ newline) ys))"

lemma text_log_inv_line:
  assumes "text_log_inv n xs lg"
  shows "text_log_inv n (xs @ [l]) (log_line l lg)"
proof -
  from assms obtain ys where ys: "xs = ys @ tl_lines lg" "tl_file lg = concat (map (\<lambda>l. l @ newline) ys)"
    and n: "tl_chunk lg = n" "n dvd length ys" "length (tl_lines lg) < n"
    by (auto simp: text_log_inv_def)
  show ?thesis
  proof (cases "n \<le> length (tl_lines lg @ [l])")
    case True
    with n have len: "length (tl_lines lg @ [l]) = n" by simp
    have "n dvd length (ys @ tl_lines lg @ [l])"
      using n(2) len by (metis dvd_add dvd_refl length_append)
    with True n ys len show ?thesis
      by (auto simp: text_log_inv_def log_line_def Let_def chunk_text_lines)
  next
    case False
    with n ys show ?thesis by (auto simp: text_log_inv_def log_line_def Let_def)
  qed
qed

lemma text_log_inv_lines: "text_log_inv n xs lg \<Longrightarrow> text_log_inv n (xs @ ls) (log_lines ls lg)"
proof (induction ls arbitrary: xs lg)
  case (Cons l ls)
  from Cons.IH [OF text_log_inv_line [OF Cons.prems]] show ?case by simp
qed simp

lemma text_log_result:
  assumes "get_logger_handle n = Some lg"
  shows "tl_file (log_lines ls lg) = concat (map (\<lambda>l. l @ newline) (take (length ls div n * n) ls)) \<and>
    tl_lines (log_lines ls lg) = drop (length ls div n * n) ls"
proof -
  from assms have "0 < n" "lg = \<lparr>tl_chunk = n, tl_lines = [], tl_file = []\<rparr>"
    by (auto simp: get_logger_handle_def bind_Some_iff)
  then have "text_log_inv n [] lg" by (simp add: text_log_inv_def)
  from text_log_inv_lines [OF this, of ls] obtain ys
    where ys: "ls = ys @ tl_lines (log_lines ls lg)" "tl_file (log_lines ls lg) = concat (map (\<lambda>l. l @ newline) ys)"
      and d: "n dvd length ys" "length (tl_lines (log_lines ls lg)) < n"
    by (auto simp: text_log_inv_def)
  then obtain k where k: "length ys = n * k" by (auto elim: dvdE)
  then have "length ls div n = k"
    using d(2) \<open>0 < n\<close> by (subst ys(1)) (simp add: div_eq_0_iff)
  then have "length ls div n * n = length ys" using k by simp
  then show ?thesis using ys by (metis append_eq_conv_conj)
qed

text \<open>A chunk size of zero is a panic.\<close>

lemma zero_chunk_panics: "get_logger_handle 0 = panic"
  by (simp add: get_logger_handle_def)

section \<open>The name found\<close>

lemma log_name_inj: "log_name mon mday j = log_name mon mday k \<longleftrightarrow> j = k"
  by (simp add: log_name_def show_nat_inj)

lemma find_log_name_least:
  assumes "\<not> used (log_name mon mday k)" and "i \<le> k" and "\<And>j. i \<le> j \<Longrightarrow> j < k \<Longrightarrow> used (log_name mon mday j)"
  shows "find_log_name used mon mday i = Some (log_name mon mday k)"
  using assms(2,3)
proof (induction rule: inc_induct)
  case base
  with assms(1) show ?case by (subst find_log_name.simps) simp
next
  case (step j)
  then show ?case by (subst find_log_name.simps) simp
qed



end
