(* ===== verification/Tg_Sma.thy ===== *)
theory Tg_Sma
  imports Tg_Ticks
begin

text \<open>
  The time-weighted moving average of \<open>private/src/indicators/sma.rs\<close>: the window of
  ticks, the trimming of ticks that have left it, the averages of the mid price and of bid
  and ask, and the loop of the historical query over the rows of the database. The
  connection, the query's rows and the printer of the result are parameters.
\<close>

record sma =
  sma_period :: u64
  sma_ticks :: "tick list"
  sma_ref_tick :: tick

definition sma_new :: "u64 \<Rightarrow> sma" where
  "sma_new period = \<lparr>sma_period = period, sma_ticks = [], sma_ref_tick = tick_null\<rparr>"

text \<open>Both ends of an empty queue are unwrapped.\<close>

definition is_overflown :: "u64 \<Rightarrow> tick list \<Rightarrow> bool run" where
  "is_overflown period ts =
     (if ts = [] then panic
      else ret (t_timestamp (last ts) - t_timestamp (hd ts) \<ge> period))"

text \<open>The loop of \<open>trim\<close>: the last tick taken out, and the rest.\<close>

fun sma_trim :: "u64 \<Rightarrow> tick list \<Rightarrow> tick \<Rightarrow> (tick \<times> tick list) run" where
  "sma_trim period [] t = panic"
| "sma_trim period (x # xs) t = do {
     over \<leftarrow> is_overflown period (x # xs);
     if over then sma_trim period xs x else ret (t, x # xs)
   }"

text \<open>The loop of the averages, for a price \<open>f\<close> of a tick.\<close>

fun sma_sums :: "(tick \<Rightarrow> u64) \<Rightarrow> tick \<Rightarrow> tick list \<Rightarrow> u64 \<Rightarrow> u64 \<Rightarrow> u64 \<times> u64" where
  "sma_sums f last_tick [] p_sum t_sum = (p_sum, t_sum)"
| "sma_sums f last_tick (t # ts) p_sum t_sum =
     (let t_diff = t_timestamp t - t_timestamp last_tick
      in sma_sums f t ts (p_sum + f last_tick * t_diff) (t_sum + t_diff))"

definition sma_mean :: "(tick \<Rightarrow> u64) \<Rightarrow> sma \<Rightarrow> u64 run" where
  "sma_mean f s =
     (case sma_ticks s of
        [] \<Rightarrow> panic
      | x # xs \<Rightarrow> do {
          let (p_sum, t_sum) = sma_sums f x xs 0 0;
          let (p_sum, t_sum) =
            (if t_bid (sma_ref_tick s) \<noteq> 0
             then (p_sum + (sma_period s - t_sum) * f (sma_ref_tick s), sma_period s)
             else (p_sum, t_sum));
          require (t_sum \<noteq> 0);
          ret (p_sum div t_sum)
        })"

definition sma_average :: "sma \<Rightarrow> usize run" where
  "sma_average s = sma_mean mid s"

definition sma_add :: "sma \<Rightarrow> tick \<Rightarrow> sma run" where
  "sma_add s t = do {
     require (sma_ticks s = [] \<or> t_timestamp t > t_timestamp (last (sma_ticks s)));
     let ticks = sma_ticks s @ [t];
     over \<leftarrow> is_overflown (sma_period s) ticks;
     if over then do {
       (ref, ticks') \<leftarrow> sma_trim (sma_period s) ticks tick_null;
       ret (s\<lparr>sma_ticks := ticks', sma_ref_tick := ref\<rparr>)
     }
     else ret (s\<lparr>sma_ticks := ticks\<rparr>)
   }"

definition sma_push :: "sma \<Rightarrow> tick \<Rightarrow> (usize \<times> sma) run" where
  "sma_push s t = do {
     s' \<leftarrow> sma_add s t;
     if length (sma_ticks s') = 1 then ret (mid (hd (sma_ticks s')), s')
     else do { v \<leftarrow> sma_average s'; ret (v, s') }
   }"

definition average_tick :: "sma \<Rightarrow> tick run" where
  "average_tick s =
     (if length (sma_ticks s) = 1 then ret (hd (sma_ticks s))
      else do {
        b \<leftarrow> sma_mean t_bid s;
        a \<leftarrow> sma_mean t_ask s;
        ret \<lparr>t_bid = b, t_ask = a, t_timestamp = t_timestamp (last (sma_ticks s))\<rparr>
      })"

definition sma_push_tick :: "sma \<Rightarrow> tick \<Rightarrow> (tick \<times> sma) run" where
  "sma_push_tick s t = do {
     (_, s') \<leftarrow> sma_push s t;
     v \<leftarrow> average_tick s';
     ret (v, s')
   }"

section \<open>The tests of the source\<close>

text \<open>The series of the tests of \<open>sma.rs\<close>, and the averages after each of its ticks.\<close>

fun sma_series :: "sma \<Rightarrow> tick list \<Rightarrow> (usize \<times> usize) list run" where
  "sma_series s [] = ret []"
| "sma_series s (t # ts) = do {
     (avg, s1) \<leftarrow> sma_push s t;
     (avg_t, s2) \<leftarrow> sma_push_tick s t;
     rest \<leftarrow> sma_series s1 ts;
     ret ((avg, mid avg_t) # rest)
   }"

lemma sma_accuracy:
  "sma_series (sma_new 15) [\<lparr>t_bid = 101, t_ask = 107, t_timestamp = 1\<rparr>, \<lparr>t_bid = 103, t_ask = 108, t_timestamp = 5\<rparr>,
      \<lparr>t_bid = 105, t_ask = 109, t_timestamp = 13\<rparr>, \<lparr>t_bid = 104, t_ask = 1088, t_timestamp = 18\<rparr>] =
    Some [(104, 104), (104, 104), (104, 104), (105, 105)]"
  by code_simp

section \<open>The historical query\<close>

definition no_arg_error :: "string \<Rightarrow> string" where
  "no_arg_error name = ''No argument '' @ [CHR 0x22] @ name @ [CHR 0x22] @
     '' provided in the arguments HashMap.''"

definition tick_from_row :: "db_row \<Rightarrow> tick" where
  "tick_from_row row = (case row of (tick_time, bid, ask) \<Rightarrow>
     \<lparr>t_bid = bid, t_ask = ask, t_timestamp = tick_time\<rparr>)"

fun hist_rows :: "sma \<Rightarrow> u64 \<Rightarrow> tick list \<Rightarrow> db_row list \<Rightarrow> tick list run" where
  "hist_rows s last_time res [] = ret res"
| "hist_rows s last_time res (row # rows) = do {
     let t = tick_from_row row;
     (res_t, s') \<leftarrow> sma_push_tick s t;
     if last_time = 0 \<or> t_timestamp t - last_time > sma_period s
     then hist_rows s' (t_timestamp t) (res @ [res_t]) rows
     else hist_rows s' last_time res rows
   }"

definition hist_query :: "string \<Rightarrow> u64 \<Rightarrow> u64 \<Rightarrow> string" where
  "hist_query table_name start_time end_time =
     ''SELECT (tick_time, bid, ask) FROM '' @ table_name @ '' WHERE tick_time > '' @
     show_word start_time @ '' AND tick_time < '' @ show_word end_time @ '';''"

definition hist_get ::
  "bool \<Rightarrow> (string \<Rightarrow> string + db_row list) \<Rightarrow> (tick list \<Rightarrow> string + string) \<Rightarrow>
     u64 \<Rightarrow> u64 \<Rightarrow> u64 \<Rightarrow> (string \<rightharpoonup> string) \<Rightarrow> (string + string) run" where
  "hist_get connected query to_json start_time end_time period args =
     (if \<not> connected then ret (Inl ''Unable to connect to PostgreSQL!'')
      else case args ''table_name'' of
        None \<Rightarrow> ret (Inl (no_arg_error ''table_name''))
      | Some table_name \<Rightarrow>
          (case query (hist_query table_name start_time end_time) of
             Inl err \<Rightarrow> ret (Inl err)
           | Inr rows \<Rightarrow> do {
               res \<leftarrow> hist_rows (sma_new period) 0 [] rows;
               ret (to_json res)
             }))"

section \<open>The window\<close>

definition times :: "tick list \<Rightarrow> nat list" where
  "times ts = map (unat \<circ> t_timestamp) ts"

text \<open>
  The ticks of the window are in strict order and span less than the period; the reference
  tick is set by the trimming alone.
\<close>

definition sma_wf :: "sma \<Rightarrow> bool" where
  "sma_wf s \<longleftrightarrow> 0 < sma_period s \<and> sorted_wrt (\<lambda>a b. t_timestamp a < t_timestamp b) (sma_ticks s) \<and>
     (sma_ticks s \<noteq> [] \<longrightarrow>
        t_timestamp (last (sma_ticks s)) - t_timestamp (hd (sma_ticks s)) < sma_period s)"

lemma sma_wf_new: "0 < period \<Longrightarrow> sma_wf (sma_new period)"
  by (simp add: sma_wf_def sma_new_def)

lemma in_order_last:
  "sorted_wrt (\<lambda>a b. t_timestamp a < t_timestamp b) xs \<Longrightarrow> x \<in> set xs \<Longrightarrow>
     t_timestamp x \<le> t_timestamp (last xs)"
  by (induction xs) (auto dest: less_imp_le)

lemma sma_trim_spec:
  "0 < period \<Longrightarrow> xs \<noteq> [] \<Longrightarrow>
     \<exists>r ys. sma_trim period xs t = Some (r, ys) \<and> ys \<noteq> [] \<and> last ys = last xs \<and>
       (\<exists>zs. xs = zs @ ys \<and> r = (if zs = [] then t else last zs)) \<and>
       t_timestamp (last ys) - t_timestamp (hd ys) < period"
proof (induction period xs t rule: sma_trim.induct)
  case (2 period x xs t)
  show ?case
  proof (cases "t_timestamp (last (x # xs)) - t_timestamp x \<ge> period")
    case True
    with "2.prems" have ne: "xs \<noteq> []" by (auto dest: leD)
    have over: "is_overflown period (x # xs) = Some True" using True by (simp add: is_overflown_def)
    obtain r ys zs where ih: "sma_trim period xs x = Some (r, ys)" "ys \<noteq> []" "last ys = last xs"
      "xs = zs @ ys" "r = (if zs = [] then x else last zs)"
      "t_timestamp (last ys) - t_timestamp (hd ys) < period"
      using "2.IH" [OF over _ "2.prems"(1) ne] by auto
    then show ?thesis
      using over ne by (intro exI [of _ r] exI [of _ ys] conjI exI [of _ "x # zs"]) auto
  next
    case False
    then have over: "is_overflown period (x # xs) = Some False" by (simp add: is_overflown_def)
    from False have "t_timestamp (last (x # xs)) - t_timestamp (hd (x # xs)) < period"
      by (simp only: not_le list.sel)
    with over show ?thesis
      by (intro exI [of _ t] exI [of _ "x # xs"] conjI exI [of _ "[]"]) simp_all
  qed
qed simp

lemma sma_add_spec:
  assumes "sma_wf s" and "sma_ticks s = [] \<or> t_timestamp t > t_timestamp (last (sma_ticks s))"
  obtains s' zs where "sma_add s t = Some s'" "sma_wf s'" "sma_ticks s' \<noteq> []"
    "last (sma_ticks s') = t" "sma_period s' = sma_period s"
    "sma_ticks s @ [t] = zs @ sma_ticks s'"
    "sma_ref_tick s' = (if zs = [] then sma_ref_tick s else last zs)"
proof -
  let ?xs = "sma_ticks s @ [t]" and ?P = "sma_period s"
  have P: "0 < ?P" using assms(1) by (simp add: sma_wf_def)
  have old: "sorted_wrt (\<lambda>a b. t_timestamp a < t_timestamp b) (sma_ticks s)"
    using assms(1) by (simp add: sma_wf_def)
  from in_order_last [OF old] have "t_timestamp x < t_timestamp t" if "x \<in> set (sma_ticks s)" for x
    using assms(2) that by (cases "sma_ticks s = []") (auto intro: le_less_trans)
  with old have sorted: "sorted_wrt (\<lambda>a b. t_timestamp a < t_timestamp b) ?xs"
    by (simp add: sorted_wrt_append)
  show ?thesis
  proof (cases "t_timestamp t - t_timestamp (hd ?xs) \<ge> ?P")
    case True
    then have over: "is_overflown ?P ?xs = Some True" by (simp add: is_overflown_def)
    have ne: "?xs \<noteq> []" by simp
    obtain r ys zs where tr: "sma_trim ?P ?xs tick_null = Some (r, ys)" "ys \<noteq> []" "last ys = t"
      "?xs = zs @ ys" "r = (if zs = [] then tick_null else last zs)"
      "t_timestamp (last ys) - t_timestamp (hd ys) < ?P"
      using sma_trim_spec [OF P ne, of tick_null] by auto
    have "zs \<noteq> []"
    proof
      assume "zs = []"
      with tr(3,4,6) True show False by (auto simp: not_le [symmetric])
    qed
    moreover have "sorted_wrt (\<lambda>a b. t_timestamp a < t_timestamp b) ys"
      using sorted unfolding tr(4) by (simp add: sorted_wrt_append)
    ultimately show ?thesis
      using assms(2) P tr over
      by (intro that [of "s\<lparr>sma_ticks := ys, sma_ref_tick := r\<rparr>" zs]) (simp_all add: sma_add_def sma_wf_def)
  next
    case False
    then have "is_overflown ?P ?xs = Some False" by (simp add: is_overflown_def)
    with False assms(2) P sorted show ?thesis
      by (intro that [of "s\<lparr>sma_ticks := ?xs\<rparr>" "[]"]) (simp_all add: sma_add_def sma_wf_def not_le)
  qed
qed

section \<open>What the average is\<close>

text \<open>The price held between two ticks is that of the earlier one.\<close>

fun area :: "(tick \<Rightarrow> nat) \<Rightarrow> tick \<Rightarrow> tick list \<Rightarrow> nat" where
  "area f x [] = 0"
| "area f x (y # ys) = f x * (unat (t_timestamp y) - unat (t_timestamp x)) + area f y ys"

definition span :: "tick list \<Rightarrow> nat" where
  "span ts = unat (t_timestamp (last ts)) - unat (t_timestamp (hd ts))"

definition sma_area :: "(tick \<Rightarrow> nat) \<Rightarrow> sma \<Rightarrow> nat" where
  "sma_area f s = area f (hd (sma_ticks s)) (tl (sma_ticks s)) +
     (if t_bid (sma_ref_tick s) \<noteq> 0
      then f (sma_ref_tick s) * (unat (sma_period s) - span (sma_ticks s)) else 0)"

definition sma_width :: "sma \<Rightarrow> nat" where
  "sma_width s = (if t_bid (sma_ref_tick s) \<noteq> 0 then unat (sma_period s) else span (sma_ticks s))"

lemma unat_sub_le: "a \<le> (b :: 'a::len word) \<Longrightarrow> unat (b - a) = unat b - unat a"
  by (rule unat_sub)

lemma unat_add_small: "unat a + unat b < 2 ^ 64 \<Longrightarrow> unat (a + b :: u64) = unat a + unat b"
  by (simp add: unat_word_ariths)

lemma unat_mult_small: "unat a * unat b < 2 ^ 64 \<Longrightarrow> unat (a * b :: u64) = unat a * unat b"
  by (simp add: unat_word_ariths)

lemma sma_sums_spec:
  assumes "sorted_wrt (\<lambda>a b. t_timestamp a < t_timestamp b) (x # xs)"
    and "unat p + area (unat \<circ> f) x xs < 2 ^ 64" and "unat t + span (x # xs) < 2 ^ 64"
  shows "unat (fst (sma_sums f x xs p t)) = unat p + area (unat \<circ> f) x xs \<and>
    unat (snd (sma_sums f x xs p t)) = unat t + span (x # xs)"
  using assms
proof (induction xs arbitrary: x p t)
  case (Cons y ys)
  have xy: "t_timestamp x \<le> t_timestamp y" and yl: "t_timestamp y \<le> t_timestamp (last (y # ys))"
    using Cons.prems(1) in_order_last [of "y # ys" y] by (auto dest: less_imp_le)
  have d: "unat (t_timestamp y - t_timestamp x) = unat (t_timestamp y) - unat (t_timestamp x)"
    using xy by (rule unat_sub_le)
  have sp: "span (x # y # ys) = (unat (t_timestamp y) - unat (t_timestamp x)) + span (y # ys)"
    using xy yl by (simp add: span_def word_le_nat_alt)
  have m: "unat (f x * (t_timestamp y - t_timestamp x)) =
      unat (f x) * (unat (t_timestamp y) - unat (t_timestamp x))"
    using Cons.prems(2) d by (subst unat_mult_small) auto
  have p: "unat (p + f x * (t_timestamp y - t_timestamp x)) =
      unat p + unat (f x) * (unat (t_timestamp y) - unat (t_timestamp x))"
    using Cons.prems(2) m by (subst unat_add_small) auto
  have t: "unat (t + (t_timestamp y - t_timestamp x)) =
      unat t + (unat (t_timestamp y) - unat (t_timestamp x))"
    using Cons.prems(3) d sp by (subst unat_add_small) auto
  have "sorted_wrt (\<lambda>a b. t_timestamp a < t_timestamp b) (y # ys)" using Cons.prems(1) by simp
  from Cons.IH [OF this, of "p + f x * (t_timestamp y - t_timestamp x)" "t + (t_timestamp y - t_timestamp x)"]
  show ?case
    using Cons.prems(2,3) p t sp by (simp add: Let_def add.assoc)
qed (simp add: span_def)

lemma span_pos:
  assumes "sma_wf s" and "2 \<le> length (sma_ticks s)"
  shows "0 < span (sma_ticks s)" and "span (sma_ticks s) < unat (sma_period s)"
proof -
  obtain x y zs where e: "sma_ticks s = x # y # zs"
    using assms(2) by (cases "sma_ticks s"; cases "tl (sma_ticks s)") auto
  have so: "sorted_wrt (\<lambda>a b. t_timestamp a < t_timestamp b) (x # y # zs)"
    and w: "t_timestamp (last (y # zs)) - t_timestamp x < sma_period s"
    using assms(1) e by (auto simp: sma_wf_def)
  have le: "t_timestamp y \<le> t_timestamp (last (y # zs))"
    using in_order_last [of "y # zs" y] so by simp
  have lt: "t_timestamp x < t_timestamp (last (y # zs))"
    using so le by (auto intro: less_le_trans)
  then show "0 < span (sma_ticks s)" by (simp add: span_def e word_less_nat_alt)
  have "unat (t_timestamp (last (y # zs)) - t_timestamp x) =
      unat (t_timestamp (last (y # zs))) - unat (t_timestamp x)"
    using lt by (intro unat_sub_le) simp
  with w show "span (sma_ticks s) < unat (sma_period s)" by (simp add: span_def e word_less_nat_alt)
qed

lemma sma_mean_spec:
  assumes wf: "sma_wf s" and len: "2 \<le> length (sma_ticks s)"
    and small: "sma_area (unat \<circ> f) s < 2 ^ 64"
  shows "\<exists>v. sma_mean f s = Some v \<and> unat v = sma_area (unat \<circ> f) s div sma_width s"
proof -
  obtain x xs where e: "sma_ticks s = x # xs" using len by (cases "sma_ticks s") auto
  have so: "sorted_wrt (\<lambda>a b. t_timestamp a < t_timestamp b) (x # xs)"
    using wf e by (simp add: sma_wf_def)
  have sp: "0 < span (x # xs)" "span (x # xs) < unat (sma_period s)"
    using span_pos [OF wf len] e by simp_all
  have P: "unat (sma_period s) < 2 ^ 64" using unsigned_less [of "sma_period s", where ?'a = nat] by simp
  obtain p t where pt: "sma_sums f x xs 0 0 = (p, t)" by fastforce
  have a: "area (unat \<circ> f) x xs < 2 ^ 64" using small by (simp add: sma_area_def e)
  have sums: "unat p = area (unat \<circ> f) x xs" "unat t = span (x # xs)"
    using sma_sums_spec [OF so, of 0 f 0] pt a sp(2) P by simp_all
  have tnz: "t \<noteq> 0" using sums(2) sp(1) by auto
  show ?thesis
  proof (cases "t_bid (sma_ref_tick s) = 0")
    case True
    then show ?thesis
      using e pt sums tnz by (simp add: sma_mean_def sma_area_def sma_width_def unat_div)
  next
    case False
    have le: "t \<le> sma_period s" using sums(2) sp(2) by (simp add: word_le_nat_alt)
    have old: "unat (sma_period s - t) = unat (sma_period s) - span (x # xs)"
      using unat_sub_le [OF le] sums(2) by simp
    have area: "sma_area (unat \<circ> f) s =
        area (unat \<circ> f) x xs + (unat (sma_period s) - span (x # xs)) * unat (f (sma_ref_tick s))"
      using False by (simp add: sma_area_def e mult.commute)
    have m: "unat ((sma_period s - t) * f (sma_ref_tick s)) =
        (unat (sma_period s) - span (x # xs)) * unat (f (sma_ref_tick s))"
      using small area old by (subst unat_mult_small) auto
    have "unat (p + (sma_period s - t) * f (sma_ref_tick s)) = sma_area (unat \<circ> f) s"
      using small area m sums(1) by (subst unat_add_small) auto
    moreover have "sma_period s \<noteq> 0" using wf by (auto simp: sma_wf_def)
    ultimately show ?thesis
      using False e pt by (simp add: sma_mean_def sma_width_def unat_div)
  qed
qed

text \<open>An average lies between the least and the greatest price it averages.\<close>

lemma area_bounds:
  assumes "sorted_wrt (\<lambda>a b. t_timestamp a < t_timestamp b) (x # xs)"
    and "\<And>y. y \<in> set (x # xs) \<Longrightarrow> lo \<le> f y \<and> f y \<le> hi"
  shows "lo * span (x # xs) \<le> area f x xs \<and> area f x xs \<le> hi * span (x # xs)"
  using assms
proof (induction xs arbitrary: x)
  case (Cons y ys)
  have xy: "t_timestamp x \<le> t_timestamp y" and yl: "t_timestamp y \<le> t_timestamp (last (y # ys))"
    using Cons.prems(1) in_order_last [of "y # ys" y] by (auto dest: less_imp_le)
  have sp: "span (x # y # ys) = (unat (t_timestamp y) - unat (t_timestamp x)) + span (y # ys)"
    using xy yl by (simp add: span_def word_le_nat_alt)
  have ih: "lo * span (y # ys) \<le> area f y ys \<and> area f y ys \<le> hi * span (y # ys)"
    using Cons.prems by (intro Cons.IH) auto
  have "lo \<le> f x \<and> f x \<le> hi" using Cons.prems(2) by simp
  then have "lo * (unat (t_timestamp y) - unat (t_timestamp x)) \<le> f x * (unat (t_timestamp y) - unat (t_timestamp x)) \<and>
      f x * (unat (t_timestamp y) - unat (t_timestamp x)) \<le> hi * (unat (t_timestamp y) - unat (t_timestamp x))"
    by (intro conjI mult_le_mono1) auto
  with ih show ?case unfolding sp area.simps add_mult_distrib2 by linarith
qed (simp add: span_def)

lemma sma_area_bounds:
  assumes wf: "sma_wf s" and len: "2 \<le> length (sma_ticks s)"
    and b: "\<And>t. t \<in> insert (sma_ref_tick s) (set (sma_ticks s)) \<Longrightarrow> lo \<le> f t \<and> f t \<le> hi"
  shows "lo \<le> sma_area f s div sma_width s \<and> sma_area f s div sma_width s \<le> hi"
proof -
  obtain x xs where e: "sma_ticks s = x # xs" using len by (cases "sma_ticks s") auto
  have so: "sorted_wrt (\<lambda>a b. t_timestamp a < t_timestamp b) (x # xs)"
    using wf e by (simp add: sma_wf_def)
  note sp = span_pos [OF wf len]
  have a: "lo * span (x # xs) \<le> area f x xs \<and> area f x xs \<le> hi * span (x # xs)"
    using b e by (intro area_bounds [OF so]) auto
  have w: "0 < sma_width s" using sp by (simp add: sma_width_def)
  have ab: "lo * sma_width s \<le> sma_area f s \<and> sma_area f s \<le> hi * sma_width s"
  proof (cases "t_bid (sma_ref_tick s) = 0")
    case True
    with a show ?thesis by (simp add: sma_width_def sma_area_def e)
  next
    case False
    let ?d = "unat (sma_period s) - span (x # xs)"
    have "lo * ?d \<le> f (sma_ref_tick s) * ?d \<and> f (sma_ref_tick s) * ?d \<le> hi * ?d"
      using b by (intro conjI mult_le_mono1) auto
    moreover have "unat (sma_period s) = span (x # xs) + ?d" using sp(2) e by simp
    ultimately have "lo * unat (sma_period s) \<le> area f x xs + f (sma_ref_tick s) * ?d \<and>
        area f x xs + f (sma_ref_tick s) * ?d \<le> hi * unat (sma_period s)"
      using a by (metis add_mono add_mult_distrib2)
    with False show ?thesis by (simp add: sma_width_def sma_area_def e)
  qed
  note div_le_mono [OF conjunct1 [OF ab], of "sma_width s"] div_le_mono [OF conjunct2 [OF ab], of "sma_width s"]
  moreover have "lo * sma_width s div sma_width s = lo" "hi * sma_width s div sma_width s = hi"
    using w by simp_all
  ultimately show ?thesis by metis
qed

section \<open>Properties\<close>

text \<open>C21. Adding a tick later than the last to a well-formed average returns, keeps the window
  strictly in order and shorter than the period, ends it with the new tick, drops ticks
  only from its front, and remembers the last one dropped.\<close>

theorem sma_window:
  assumes "sma_wf s" and "sma_ticks s = [] \<or> t_timestamp t > t_timestamp (last (sma_ticks s))"
  shows "\<exists>s' zs. sma_add s t = Some s' \<and> sma_wf s' \<and> sma_ticks s' \<noteq> [] \<and>
    last (sma_ticks s') = t \<and> sma_ticks s @ [t] = zs @ sma_ticks s' \<and>
    sma_ref_tick s' = (if zs = [] then sma_ref_tick s else last zs)"
  by (rule sma_add_spec [OF assms]) blast

definition ex_sma :: sma where
  "ex_sma = \<lparr>sma_period = 15,
     sma_ticks = [\<lparr>t_bid = 101, t_ask = 107, t_timestamp = 1\<rparr>, \<lparr>t_bid = 103, t_ask = 108, t_timestamp = 5\<rparr>,
       \<lparr>t_bid = 105, t_ask = 109, t_timestamp = 13\<rparr>], sma_ref_tick = tick_null\<rparr>"

theorem sma_window_witness:
  "\<exists>s' zs. sma_add ex_sma \<lparr>t_bid = 104, t_ask = 1088, t_timestamp = 18\<rparr> = Some s' \<and> sma_wf s' \<and>
    sma_ticks s' \<noteq> [] \<and> last (sma_ticks s') = \<lparr>t_bid = 104, t_ask = 1088, t_timestamp = 18\<rparr> \<and>
    sma_ticks ex_sma @ [\<lparr>t_bid = 104, t_ask = 1088, t_timestamp = 18\<rparr>] = zs @ sma_ticks s' \<and>
    sma_ref_tick s' = (if zs = [] then sma_ref_tick ex_sma else last zs)"
  by (rule sma_window) (simp_all add: ex_sma_def sma_wf_def)

text \<open>C20. On a window of at least two ticks the average never divides by zero, and as long as
  the weighted sum fits a machine word it is the mean of the mid price over the period,
  each price weighted by the time it held (the reference tick's up to the first tick of
  the window), rounded down; so it lies between the least and the greatest of the prices.\<close>

theorem sma_average_correct:
  assumes "sma_wf s" and "2 \<le> length (sma_ticks s)" and "sma_area (unat \<circ> mid) s < 2 ^ 64"
    and "\<forall>t\<in>insert (sma_ref_tick s) (set (sma_ticks s)). lo \<le> unat (mid t) \<and> unat (mid t) \<le> hi"
  shows "\<exists>v. sma_average s = Some v \<and> unat v = sma_area (unat \<circ> mid) s div sma_width s \<and>
    lo \<le> unat v \<and> unat v \<le> hi"
proof -
  obtain v where "sma_average s = Some v" "unat v = sma_area (unat \<circ> mid) s div sma_width s"
    using sma_mean_spec [OF assms(1-3)] by (auto simp: sma_average_def)
  with sma_area_bounds [OF assms(1,2), of lo "unat \<circ> mid" hi] assms(4) show ?thesis by auto
qed

definition ex_sma_full :: sma where
  "ex_sma_full = \<lparr>sma_period = 15,
     sma_ticks = [\<lparr>t_bid = 103, t_ask = 108, t_timestamp = 5\<rparr>,
       \<lparr>t_bid = 105, t_ask = 109, t_timestamp = 13\<rparr>, \<lparr>t_bid = 104, t_ask = 1088, t_timestamp = 18\<rparr>],
     sma_ref_tick = \<lparr>t_bid = 101, t_ask = 107, t_timestamp = 1\<rparr>\<rparr>"

theorem sma_average_correct_witness:
  "\<exists>v. sma_average ex_sma_full = Some v \<and>
    unat v = sma_area (unat \<circ> mid) ex_sma_full div sma_width ex_sma_full \<and> 104 \<le> unat v \<and> unat v \<le> 596"
  by (rule sma_average_correct)
    (simp_all add: ex_sma_full_def sma_wf_def sma_area_def span_def mid_def)

end
