(* ===== verification/Tg_Commands.thy ===== *)
theory Tg_Commands
  imports Tg_Prelude
begin

text \<open>
  The commands, responses and messages the modules of the platform exchange
  (\<open>util/src/transport/commands.rs\<close>) and the event loop every instance shares
  (\<open>util/src/instance.rs\<close>). Their JSON form is serde's and a parameter; sending a message
  is adding it to the list of those published on a channel.
\<close>

record instance_id =
  in_type :: string
  in_uuid :: uuid

datatype log_level = Debug | Notice | Warning | Error | Critical

datatype c_log_level = DEBUG | NOTICE | WARNING | ERR | CRITICAL

fun convert :: "c_log_level \<Rightarrow> log_level" where
  "convert DEBUG = Debug"
| "convert NOTICE = Notice"
| "convert WARNING = Warning"
| "convert ERR = Error"
| "convert CRITICAL = Critical"

record log_message =
  lm_sender :: instance_id
  lm_message_type :: string
  lm_message :: string
  lm_level :: log_level

datatype hist_tick_dst =
    Flatfile string
  | Postgres string
  | RedisChannel string string
  | RedisSet string string
  | Console

record running_download =
  rd_id :: uuid
  rd_symbol :: string
  rd_downloader :: instance_id
  rd_start_time :: u64
  rd_cur_time :: u64
  rd_end_time :: u64
  rd_dst :: hist_tick_dst

record src_document =
  sd_title :: string
  sd_body :: string
  sd_tags :: "string list"
  sd_creation_date :: string
  sd_modification_date :: string
  sd_id :: uuid

datatype command =
    Cmd_Ping
  | Shutdown
  | Kill
  | Register string
  | Cmd_Type
  | Ready string uuid
  | AddCondition string
  | RemoveCondition string
  | ListConditions
  | SubTicks string
  | Census
  | SpawnOptimizer string
  | SpawnTickParser string
  | SpawnBacktester
  | SpawnLogger
  | SpawnFxcmNativeDataDownloader
  | SpawnFxcmFlatfileDataDownloader
  | SpawnIexDataDownloader
  | SpawnPoloniexDataDownloader
  | KillInstance uuid
  | KillAllInstances
  | QueryDocumentStore string
  | InsertIntoDocumentStore string
  | GetDocument string
  | StartBacktest string
  | PauseBacktest uuid
  | ResumeBacktest uuid
  | StopBacktest uuid
  | ListBacktests
  | ListSimbrokers
  | SpawnSimbroker "string \<rightharpoonup> string"
  | DownloadTicks u64 u64 string hist_tick_dst
  | ListRunningDownloads
  | DownloadComplete running_download
  | DownloadStarted running_download
  | GetDownloadProgress uuid
  | CancelDataDownload uuid
  | TransferHistData hist_tick_dst hist_tick_dst
  | Log log_message

datatype response =
    Res_Ok
  | Res_Error string
  | Res_Pong "string list"
  | Info string
  | DocumentQueryResult "string list"
  | Document src_document
  | DownloadProgress running_download
  | RunningDownloads "running_download list"

record wrapped_command =
  wc_uuid :: uuid
  wc_cmd :: command

record wrapped_response =
  wr_uuid :: uuid
  wr_res :: response

text \<open>\<open>wrap\<close> and \<open>from_command\<close> draw a uuid, the argument \<open>u\<close>.\<close>

definition command_wrap :: "uuid \<Rightarrow> command \<Rightarrow> wrapped_command" where
  "command_wrap u cmd = \<lparr>wc_uuid = u, wc_cmd = cmd\<rparr>"

definition from_command :: "uuid \<Rightarrow> command \<Rightarrow> wrapped_command" where
  "from_command u cmd = \<lparr>wc_uuid = u, wc_cmd = cmd\<rparr>"

definition response_wrap :: "response \<Rightarrow> uuid \<Rightarrow> wrapped_response" where
  "response_wrap res u = \<lparr>wr_uuid = u, wr_res = res\<rparr>"

definition from_response :: "response \<Rightarrow> uuid \<Rightarrow> wrapped_response" where
  "from_response res u = \<lparr>wr_uuid = u, wr_res = res\<rparr>"

text \<open>Unwrapping what serde makes of a raw string.\<close>

definition parse_wrapped_command :: "(string \<Rightarrow> wrapped_command option) \<Rightarrow> string \<Rightarrow> wrapped_command run" where
  "parse_wrapped_command from_json raw = from_json raw"

definition parse_wrapped_response :: "(string \<Rightarrow> wrapped_response option) \<Rightarrow> string \<Rightarrow> wrapped_response run" where
  "parse_wrapped_response from_json raw = from_json raw"

section \<open>The loop of an instance\<close>

text \<open>
  The messages arriving on the subscribed channels are handled in order. A message that is
  no command ends the loop; a handled command may be answered under the command's uuid.
  The result is the handler's state and the responses published.
\<close>

fun listen ::
  "(string \<Rightarrow> wrapped_command option) \<Rightarrow> ('s \<Rightarrow> command \<Rightarrow> response option \<times> 's) \<Rightarrow> string list \<Rightarrow> 's \<Rightarrow>
     wrapped_response list \<times> 's" where
  "listen from_json handle [] s = ([], s)"
| "listen from_json handle (msg # msgs) s =
     (case from_json msg of
        None \<Rightarrow> ([], s)
      | Some wr_cmd \<Rightarrow>
          let (res, s') = handle s (wc_cmd wr_cmd);
              (out, s'') = listen from_json handle msgs s'
          in ((case res of None \<Rightarrow> [] | Some r \<Rightarrow> [response_wrap r (wc_uuid wr_cmd)]) @ out, s''))"

section \<open>What the platform relies on\<close>

text \<open>An instance that listens announces itself first, whatever it is, as a backtester.\<close>

definition listen_ready :: "uuid \<Rightarrow> command" where
  "listen_ready u = Ready ''Backtester'' u"

text \<open>
  The contract of a module of the platform: it answers a ping with its name as the first
  argument and the question for its type with a text, and neither changes its state. A
  handler draws a uuid, may panic and may leave a command unanswered.
\<close>

type_synonym 's handler = "uuid \<Rightarrow> command \<Rightarrow> 's \<Rightarrow> (response option \<times> 's) run"

locale platform_module =
  fixes handle :: "'s handler" and name :: "'s \<Rightarrow> string"
  assumes ping: "\<exists>args. handle u Cmd_Ping s = Some (Some (Res_Pong (name s # args)), s)"
    and asked_type: "\<exists>info. handle u Cmd_Type s = Some (Some (Info info), s)"
begin

text \<open>A ping never kills a module, and a question for the type is never refused.\<close>

lemma ping_keeps: "handle u Cmd_Ping s = Some (r, s') \<Longrightarrow> s' = s"
  using ping [of u s] by auto

lemma ping_returns: "handle u Cmd_Ping s \<noteq> panic"
  using ping [of u s] by auto

lemma type_text: "\<exists>r s'. handle u Cmd_Type s = Some (Some r, s') \<and> (\<exists>info. r = Info info)"
  using asked_type [of u s] by auto

end

text \<open>What a module publishes for a command that reached it under the uuid \<open>w\<close>.\<close>

definition reply_to :: "'s handler \<Rightarrow> uuid \<Rightarrow> uuid \<Rightarrow> command \<Rightarrow> 's \<Rightarrow> wrapped_response list" where
  "reply_to handle u w cmd s =
     (case handle u cmd s of Some (Some r, s') \<Rightarrow> [response_wrap r w] | _ \<Rightarrow> [])"

context platform_module
begin

lemma reply_to_ping: "\<exists>args. reply_to handle u w Cmd_Ping s = [response_wrap (Res_Pong (name s # args)) w]"
  using ping [of u s] by (auto simp: reply_to_def)

end

section \<open>Severities\<close>

text \<open>Severities are ordered as their declaration says: from debug to critical.\<close>

fun severity :: "log_level \<Rightarrow> nat" where
  "severity Debug = 0"
| "severity Notice = 1"
| "severity Warning = 2"
| "severity Error = 3"
| "severity Critical = 4"

lemma severity_inj: "severity a = severity b \<Longrightarrow> a = b"
  by (cases a; cases b) simp_all

instantiation log_level :: linorder
begin

definition less_eq_log_level :: "log_level \<Rightarrow> log_level \<Rightarrow> bool" where
  "less_eq_log_level a b \<longleftrightarrow> severity a \<le> severity b"

definition less_log_level :: "log_level \<Rightarrow> log_level \<Rightarrow> bool" where
  "less_log_level a b \<longleftrightarrow> severity a < severity b"

instance
  by standard (auto simp: less_eq_log_level_def less_log_level_def intro: severity_inj)

end

text \<open>A response is published only in answer to a command, and under its uuid.\<close>

lemma listen_answers:
  "r \<in> set (fst (listen from_json handle msgs s)) \<Longrightarrow>
     \<exists>msg\<in>set msgs. \<exists>c. from_json msg = Some c \<and> wr_uuid r = wc_uuid c"
proof (induction msgs arbitrary: s)
  case (Cons msg msgs)
  show ?case
  proof (cases "from_json msg")
    case None
    with Cons.prems show ?thesis by simp
  next
    case (Some c)
    obtain res s' where h: "handle s (wc_cmd c) = (res, s')" by fastforce
    from Cons.prems Some h consider "res \<noteq> None" "r = response_wrap (the res) (wc_uuid c)"
      | "r \<in> set (fst (listen from_json handle msgs s'))"
      by (auto simp: split_beta split: option.splits)
    then show ?thesis
    proof cases
      case 1
      with Some show ?thesis by (intro bexI [of _ msg] exI [of _ c]) (simp_all add: response_wrap_def)
    next
      case 2
      with Cons.IH show ?thesis by auto
    qed
  qed
qed simp

end
