(* ===== verification/Tg_CommandServer.thy ===== *)
theory Tg_CommandServer
  imports Tg_Commands
begin

text \<open>
  The command server of \<open>util/src/transport/command_server.rs\<close> and the query server of
  \<open>query_server.rs\<close>: the list of expected responses, the sending of a command with its
  retries, the broadcast, the logging shortcuts, and the pool of workers both servers
  dispatch through. A channel or one-shot handle is a number. What happens during one
  attempt (the response that arrives, or the timeout) is an argument; threads are the
  interleaving of the steps of the pool.
\<close>

section \<open>Expected responses\<close>

type_synonym chan = nat
type_synonym alert_list = "(uuid \<times> chan) list"

definition al_register :: "uuid \<Rightarrow> chan \<Rightarrow> alert_list \<Rightarrow> alert_list" where
  "al_register u c al = al @ [(u, c)]"

fun al_deregister :: "uuid \<Rightarrow> alert_list \<Rightarrow> alert_list" where
  "al_deregister u [] = []"
| "al_deregister u (x # xs) = (if fst x = u then xs else x # al_deregister u xs)"

text \<open>The channel a response is sent through, if one is registered.\<close>

fun send_messages :: "wrapped_response \<Rightarrow> alert_list \<Rightarrow> (chan \<times> response) option" where
  "send_messages res [] = None"
| "send_messages res (x # xs) =
     (if fst x = wr_uuid res then Some (snd x, wr_res res) else send_messages res xs)"

section \<open>Sending a command\<close>

text \<open>
  One attempt: the uuid drawn for the wrapped command, the channel of the listener and what
  comes first, a response or (\<^term>\<open>None\<close>) the timeout.
\<close>

record attempt =
  at_uuid :: uuid
  at_chan :: chan
  at_outcome :: "response option"

type_synonym published = "(string \<times> wrapped_command) list"

fun send_command_outer ::
  "nat \<Rightarrow> command \<Rightarrow> string \<Rightarrow> nat \<Rightarrow> attempt list \<Rightarrow> alert_list \<Rightarrow> published \<Rightarrow>
     ((string + response) \<times> alert_list \<times> published) run" where
  "send_command_outer max_retries cmd channel attempts [] al sent = panic"
| "send_command_outer max_retries cmd channel attempts (a # as) al sent =
     (let wr_cmd = command_wrap (at_uuid a) cmd;
          sent = sent @ [(channel, wr_cmd)];
          al = al_register (wc_uuid wr_cmd) (at_chan a) al
      in case at_outcome a of
           Some res \<Rightarrow> ret (Inr res, al_deregister (wc_uuid wr_cmd) al, sent)
         | None \<Rightarrow>
             let al = al_deregister (wc_uuid wr_cmd) al;
                 attempts = attempts + 1
             in if attempts \<ge> max_retries
                then ret (Inl ''Timed out too many times!'', al, sent)
                else send_command_outer max_retries cmd channel attempts as al sent)"

text \<open>
  \<open>broadcast\<close>: the responses that arrive before the timeout and reach the listener of the
  broadcast.
\<close>

definition broadcast ::
  "uuid \<Rightarrow> chan \<Rightarrow> command \<Rightarrow> string \<Rightarrow> wrapped_response list \<Rightarrow> alert_list \<Rightarrow>
     response list \<times> alert_list \<times> published" where
  "broadcast u c cmd channel arrivals al =
     (let wr_cmd = command_wrap u cmd;
          al1 = al_register u c al;
          received = [snd m. Some m \<leftarrow> map (\<lambda>res. send_messages res al1) arrivals, fst m = c]
      in (received, al_deregister u al1, [(channel, wr_cmd)]))"

section \<open>Logging\<close>

definition cs_log :: "instance_id \<Rightarrow> string option \<Rightarrow> string \<Rightarrow> log_level \<Rightarrow> command" where
  "cs_log sender message_type_opt message level =
     (let message_type = (case message_type_opt of Some t \<Rightarrow> t | None \<Rightarrow> ''General'')
      in Log \<lparr>lm_sender = sender, lm_message_type = message_type, lm_message = message,
              lm_level = level\<rparr>)"

definition cs_debug :: "instance_id \<Rightarrow> string option \<Rightarrow> string \<Rightarrow> command" where
  "cs_debug sender t m = cs_log sender t m Debug"

definition cs_notice :: "instance_id \<Rightarrow> string option \<Rightarrow> string \<Rightarrow> command" where
  "cs_notice sender t m = cs_log sender t m Notice"

definition cs_warning :: "instance_id \<Rightarrow> string option \<Rightarrow> string \<Rightarrow> command" where
  "cs_warning sender t m = cs_log sender t m Warning"

definition cs_error :: "instance_id \<Rightarrow> string option \<Rightarrow> string \<Rightarrow> command" where
  "cs_error sender t m = cs_log sender t m Error"

definition cs_critical :: "instance_id \<Rightarrow> string option \<Rightarrow> string \<Rightarrow> command" where
  "cs_critical sender t m = cs_log sender t m Critical"

section \<open>The pool of workers\<close>

text \<open>
  A worker handles the request it was given, then those it finds in the queue; when it
  finds the queue empty it signals that it is idle, and another thread puts its handle
  back. A call of \<open>execute\<close> first looks whether a worker is idle and releases the lock;
  later it queues the request or takes a worker, as it has seen. The server is cloned with
  its queues shared, so several calls may be under way. The order in which requests are
  done is kept.
\<close>

record 'r pool =
  po_calls :: "('r \<times> bool) list"
  po_idle :: "nat list"
  po_queue :: "'r list"
  po_busy :: "(nat \<times> 'r) list"
  po_signalled :: "nat list"
  po_done :: "'r list"

definition pool_new :: "nat \<Rightarrow> 'r pool" where
  "pool_new conn_count =
     \<lparr>po_calls = [], po_idle = [0..<conn_count], po_queue = [], po_busy = [], po_signalled = [], po_done = []\<rparr>"

text \<open>
  \<open>execute\<close> of either server in its two parts: the look, which keeps with the request
  whether no worker was idle, and the dispatch of the call at index \<open>i\<close>.
\<close>

definition pool_look :: "'r \<Rightarrow> 'r pool \<Rightarrow> 'r pool" where
  "pool_look r p = p\<lparr>po_calls := po_calls p @ [(r, po_idle p = [])]\<rparr>"

definition pool_dispatch :: "nat \<Rightarrow> 'r pool \<Rightarrow> 'r pool run" where
  "pool_dispatch i p = do {
     ((r, none_idle), calls) \<leftarrow> vec_remove (po_calls p) i;
     if none_idle then ret (p\<lparr>po_calls := calls, po_queue := po_queue p @ [r]\<rparr>)
     else case po_idle p of
         [] \<Rightarrow> panic
       | w # ws \<Rightarrow> ret (p\<lparr>po_calls := calls, po_idle := ws, po_busy := po_busy p @ [(w, r)]\<rparr>)
   }"

text \<open>\<open>try_get_new_command\<close> and \<open>try_get_new_query\<close>.\<close>

definition try_get_new :: "'r pool \<Rightarrow> 'r option \<times> 'r pool" where
  "try_get_new p = (case po_queue p of [] \<Rightarrow> (None, p) | r # rs \<Rightarrow> (Some r, p\<lparr>po_queue := rs\<rparr>))"

text \<open>The busy worker at index \<open>i\<close> finishes its request and looks for another.\<close>

definition worker_finish :: "nat \<Rightarrow> 'r pool \<Rightarrow> 'r pool run" where
  "worker_finish i p = do {
     ((w, r), busy) \<leftarrow> vec_remove (po_busy p) i;
     let p1 = p\<lparr>po_busy := busy, po_done := po_done p @ [r]\<rparr>;
     ret (case try_get_new p1 of
            (Some r', p2) \<Rightarrow> p2\<lparr>po_busy := po_busy p2 @ [(w, r')]\<rparr>
          | (None, p2) \<Rightarrow> p2\<lparr>po_signalled := po_signalled p2 @ [w]\<rparr>)
   }"

definition worker_return :: "nat \<Rightarrow> 'r pool \<Rightarrow> 'r pool run" where
  "worker_return i p = do {
     (w, ws) \<leftarrow> vec_remove (po_signalled p) i;
     ret (p\<lparr>po_signalled := ws, po_idle := po_idle p @ [w]\<rparr>)
   }"

inductive pool_step :: "'r list \<times> 'r pool \<Rightarrow> 'r list \<times> 'r pool \<Rightarrow> bool" where
  pool_call: "pool_step (rs, p) (rs @ [r], pool_look r p)"
| pool_act: "pool_dispatch i p = Some p' \<Longrightarrow> pool_step (rs, p) (rs, p')"
| pool_finish: "worker_finish i p = Some p' \<Longrightarrow> pool_step (rs, p) (rs, p')"
| pool_return: "worker_return i p = Some p' \<Longrightarrow> pool_step (rs, p) (rs, p')"

inductive_cases pool_stepE: "pool_step (rs, p) (rs', p')"

text \<open>
  Nothing is lost or done twice: the requests submitted are those in a call, queued, being
  handled and done; and each of the workers is idle, busy or signalled.
\<close>

definition pool_inv :: "nat \<Rightarrow> 'r list \<times> 'r pool \<Rightarrow> bool" where
  "pool_inv n s \<longleftrightarrow> (case s of (rs, p) \<Rightarrow>
     mset rs = mset (map fst (po_calls p)) + mset (po_queue p) + mset (map snd (po_busy p)) +
       mset (po_done p) \<and>
     mset (po_idle p) + mset (map fst (po_busy p)) + mset (po_signalled p) = mset [0..<n])"

lemma mset_map_remove_nth:
  assumes i: "i < length xs"
  shows "mset (map f xs) = add_mset (f (xs ! i)) (mset (map f (remove_nth i xs)))"
proof -
  have "mset (map f xs) = mset (map f (take i xs @ xs ! i # drop (Suc i) xs))"
    using list_split_nth [OF i] by simp
  then show ?thesis by (simp add: remove_nth_def)
qed

lemma pool_inv_new: "pool_inv n ([], pool_new n)"
  by (simp add: pool_inv_def pool_new_def)

lemma pool_inv_look: "pool_inv n (rs, p) \<Longrightarrow> pool_inv n (rs @ [r], pool_look r p)"
  by (simp add: pool_inv_def pool_look_def)

lemma pool_inv_dispatch:
  assumes inv: "pool_inv n (rs, p)" and act: "pool_dispatch i p = Some p'"
  shows "pool_inv n (rs, p')"
proof -
  from act have i: "i < length (po_calls p)"
    by (auto simp: pool_dispatch_def bind_Some_iff)
  obtain r b where r: "po_calls p ! i = (r, b)" by force
  note calls = mset_map_remove_nth [OF i, of fst]
  have removed: "vec_remove (po_calls p) i = Some ((r, b), remove_nth i (po_calls p))"
    using i r by (simp add: vec_remove_def)
  show ?thesis
    using act removed inv calls r
    by (auto simp: pool_dispatch_def pool_inv_def split: if_splits list.splits)
qed

lemma pool_inv_finish:
  assumes inv: "pool_inv n (rs, p)" and fin: "worker_finish i p = Some p'"
  shows "pool_inv n (rs, p')"
proof -
  from fin have i: "i < length (po_busy p)"
    by (auto simp: worker_finish_def bind_Some_iff)
  obtain w r where w: "po_busy p ! i = (w, r)" by force
  note busy = mset_map_remove_nth [OF i, of fst] mset_map_remove_nth [OF i, of snd]
  have removed: "vec_remove (po_busy p) i = Some ((w, r), remove_nth i (po_busy p))"
    using i w by (simp add: vec_remove_def)
  show ?thesis
  proof (cases "po_queue p")
    case Nil
    with fin removed have p': "p' = p\<lparr>po_busy := remove_nth i (po_busy p),
        po_done := po_done p @ [r], po_signalled := po_signalled p @ [w]\<rparr>"
      by (auto simp: worker_finish_def try_get_new_def)
    show ?thesis using inv busy w Nil by (simp add: pool_inv_def p')
  next
    case (Cons r' q)
    with fin removed have p': "p' = p\<lparr>po_busy := remove_nth i (po_busy p) @ [(w, r')],
        po_done := po_done p @ [r], po_queue := q\<rparr>"
      by (auto simp: worker_finish_def try_get_new_def)
    show ?thesis using inv busy w Cons by (simp add: pool_inv_def p')
  qed
qed

lemma pool_inv_return:
  assumes "pool_inv n (rs, p)" and "worker_return i p = Some p'"
  shows "pool_inv n (rs, p')"
proof -
  from assms(2) have i: "i < length (po_signalled p)"
    by (auto simp: worker_return_def bind_Some_iff)
  show ?thesis
    using assms i mset_map_remove_nth [OF i, of "\<lambda>x. x"]
    by (auto simp: worker_return_def pool_inv_def bind_Some_iff)
qed

interpretation pool: step_invariant pool_step "pool_inv n"
  for n :: nat
proof
  show "pool_inv n s'" if "pool_inv n s" "pool_step s s'" for s s' :: "'r list \<times> 'r pool"
    using that(2,1)
    by cases (auto intro: pool_inv_look pool_inv_dispatch pool_inv_finish pool_inv_return)
qed

section \<open>Properties\<close>



text \<open>The state of a pool of one worker in which \<open>r1\<close> is done and the worker not yet back.\<close>

definition pool_before_return :: "'r \<Rightarrow> 'r pool" where
  "pool_before_return r1 = \<lparr>po_calls = [], po_idle = [], po_queue = [], po_busy = [],
     po_signalled = [0], po_done = [r1]\<rparr>"

lemmas pool_defs = pool_look_def pool_dispatch_def worker_finish_def worker_return_def pool_new_def
  try_get_new_def vec_remove_def remove_nth_def pool_before_return_def

lemma pool_reaches_before_return: "pool_step\<^sup>*\<^sup>* ([], pool_new 1) ([r1], pool_before_return r1)"
proof -
  have "pool_step ([], pool_new 1) ([r1], pool_look r1 (pool_new 1))"
    using pool_call [of "[]"] by simp
  moreover have "pool_step ([r1], pool_look r1 (pool_new 1))
      ([r1], (pool_new 1)\<lparr>po_idle := [], po_busy := [(0, r1)]\<rparr>)"
    by (rule pool_act [of 0]) (simp add: pool_defs)
  moreover have "pool_step ([r1], (pool_new 1)\<lparr>po_idle := [], po_busy := [(0, r1)]\<rparr>)
      ([r1], pool_before_return r1)"
    by (rule pool_finish [of 0]) (simp add: pool_defs)
  ultimately show ?thesis by (meson rtranclp.rtrancl_into_rtrancl rtranclp.rtrancl_refl)
qed

text \<open>C25. A request can be stranded: the pool can reach a state in which every worker is idle, no
  call is under way and yet a request waits in the queue, when the request is submitted
  after the last worker has found the queue empty and before its handle is back. Nothing
  but the submission of another request changes that state.\<close>

theorem pool_strands_request:
  "\<exists>p. pool_step\<^sup>*\<^sup>* ([], pool_new 1) ([r1, r2], p) \<and> po_calls p = [] \<and> po_idle p = [0] \<and>
     po_busy p = [] \<and> po_signalled p = [] \<and> po_queue p = [r2] \<and>
     {rs'. \<exists>p'. pool_step ([r1, r2], p) (rs', p')} = range (\<lambda>r. [r1, r2, r])"
proof -
  let ?p = "\<lparr>po_calls = [], po_idle = [0], po_queue = [r2], po_busy = [], po_signalled = [], po_done = [r1]\<rparr>"
  have "pool_step ([r1], pool_before_return r1) ([r1, r2], pool_look r2 (pool_before_return r1))"
    using pool_call [of "[r1]"] by simp
  moreover have "pool_step ([r1, r2], pool_look r2 (pool_before_return r1))
      ([r1, r2], (pool_before_return r1)\<lparr>po_queue := [r2]\<rparr>)"
    by (rule pool_act [of 0]) (simp add: pool_defs)
  moreover have "pool_step ([r1, r2], (pool_before_return r1)\<lparr>po_queue := [r2]\<rparr>) ([r1, r2], ?p)"
    by (rule pool_return [of 0]) (simp add: pool_defs)
  ultimately have "pool_step\<^sup>*\<^sup>* ([], pool_new 1) ([r1, r2], ?p)"
    using pool_reaches_before_return [of r1] by (meson rtranclp.rtrancl_into_rtrancl)
  moreover have "\<exists>r. rs' = [r1, r2, r]" if "pool_step ([r1, r2], ?p) (rs', p')" for rs' p'
    using that by (cases rule: pool_stepE) (auto simp: pool_defs)
  moreover have "pool_step ([r1, r2], ?p) ([r1, r2, r], pool_look r ?p)" for r
    using pool_call [of "[r1, r2]"] by simp
  ultimately show ?thesis by (intro exI [of _ ?p]) (auto simp: image_iff)
qed

text \<open>Two calls can race for the last worker: both see it idle, one takes it, and the other
  panics when it takes a worker from the empty queue.\<close>

theorem pool_race_panics:
  "\<exists>p. pool_step\<^sup>*\<^sup>* ([], pool_new 1) ([r1, r2], p) \<and> map fst (po_calls p) = [r2] \<and>
     pool_dispatch 0 p = None"
proof -
  let ?p1 = "pool_look r1 (pool_new 1)"
  let ?p = "pool_look r2 ?p1\<lparr>po_calls := [(r2, False)], po_idle := [], po_busy := [(0, r1)]\<rparr>"
  have "pool_step ([], pool_new 1) ([r1], ?p1)" using pool_call [of "[]"] by simp
  moreover have "pool_step ([r1], ?p1) ([r1, r2], pool_look r2 ?p1)" using pool_call [of "[r1]"] by simp
  moreover have "pool_step ([r1, r2], pool_look r2 ?p1) ([r1, r2], ?p)"
    by (rule pool_act [of 0]) (simp add: pool_defs)
  ultimately have "pool_step\<^sup>*\<^sup>* ([], pool_new 1) ([r1, r2], ?p)"
    by (meson rtranclp.rtrancl_into_rtrancl rtranclp.rtrancl_refl)
  then show ?thesis by (intro exI [of _ ?p]) (simp add: pool_defs)
qed

text \<open>The attempts a command is sent in: up to the first answered one, or as many as allowed.\<close>

lemma al_deregister_append: "u \<notin> fst ` set al \<Longrightarrow> al_deregister u (al @ [(u, c)]) = al"
  by (induction al) auto

lemma send_command_outer_result:
  assumes "send_command_outer m cmd channel k as al sent = Some (r, al', sent')" and "k < m"
    and "\<forall>a\<in>set as. at_uuid a \<notin> fst ` set al"
  shows "al' = al \<and> (\<exists>n. 0 < n \<and> n \<le> m - k \<and> n \<le> length as \<and>
    sent' = sent @ map (\<lambda>a. (channel, command_wrap (at_uuid a) cmd)) (take n as) \<and>
    (case r of
       Inr res \<Rightarrow> at_outcome (as ! (n - 1)) = Some res \<and> (\<forall>i<n - 1. at_outcome (as ! i) = None)
     | Inl e \<Rightarrow> n = m - k \<and> (\<forall>i<n. at_outcome (as ! i) = None)))"
  using assms
proof (induction as arbitrary: k sent)
  case (Cons a as)
  have undo: "al_deregister (at_uuid a) (al_register (at_uuid a) (at_chan a) al) = al"
    using Cons.prems(3) by (simp add: al_register_def al_deregister_append)
  show ?case
  proof (cases "at_outcome a")
    case (Some res)
    with Cons.prems undo show ?thesis
      by (intro conjI exI [of _ 1]) (auto simp: command_wrap_def)
  next
    case None
    show ?thesis
    proof (cases "Suc k \<ge> m")
      case True
      with Cons.prems undo None show ?thesis
        by (intro conjI exI [of _ 1]) (auto simp: command_wrap_def)
    next
      case False
      let ?sent = "sent @ [(channel, command_wrap (at_uuid a) cmd)]"
      have "send_command_outer m cmd channel (Suc k) as al ?sent = Some (r, al', sent')"
        using Cons.prems(1) undo None False by (simp add: command_wrap_def Let_def)
      from Cons.IH [OF this] False Cons.prems(3) obtain n where al: "al' = al"
        and n: "0 < n" "n \<le> m - Suc k" "n \<le> length as"
          "sent' = ?sent @ map (\<lambda>a. (channel, command_wrap (at_uuid a) cmd)) (take n as)"
        and r: "case r of
          Inr res \<Rightarrow> at_outcome (as ! (n - 1)) = Some res \<and> (\<forall>i<n - 1. at_outcome (as ! i) = None)
        | Inl e \<Rightarrow> n = m - Suc k \<and> (\<forall>i<n. at_outcome (as ! i) = None)"
        by auto
      have shift: "(\<forall>i<Suc j. at_outcome ((a # as) ! i) = None) \<longleftrightarrow> (\<forall>i<j. at_outcome (as ! i) = None)" for j
        using None by (auto simp: nth_Cons' All_less_Suc2)
      show ?thesis
      proof (intro conjI exI [of _ "Suc n"])
        show "case r of
          Inr res \<Rightarrow> at_outcome ((a # as) ! (Suc n - 1)) = Some res \<and>
            (\<forall>i<Suc n - 1. at_outcome ((a # as) ! i) = None)
        | Inl e \<Rightarrow> Suc n = m - k \<and> (\<forall>i<Suc n. at_outcome ((a # as) ! i) = None)"
          using r n(1,2) False shift [of "n - 1"] shift [of n]
          by (auto split: sum.splits)
      qed (use al n False in auto)
    qed
  qed
qed simp

text \<open>C24. Sending a command with retries: it is published once for each attempt, in at most as
  many attempts as the configuration allows; the result is the first response that comes
  before its timeout, or the error when all the attempts time out; and the list of
  expected responses is left as it was.\<close>

theorem send_command_retries:
  assumes "send_command_outer m cmd channel 0 as al [] = Some (r, al', sent)" and "0 < m"
    and "\<forall>a\<in>set as. at_uuid a \<notin> fst ` set al"
  shows "al' = al \<and> (\<exists>n. 0 < n \<and> n \<le> m \<and> n \<le> length as \<and>
    sent = map (\<lambda>a. (channel, command_wrap (at_uuid a) cmd)) (take n as) \<and>
    (case r of
       Inr res \<Rightarrow> at_outcome (as ! (n - 1)) = Some res \<and> (\<forall>i<n - 1. at_outcome (as ! i) = None)
     | Inl e \<Rightarrow> n = m \<and> (\<forall>i<n. at_outcome (as ! i) = None)))"
  using send_command_outer_result [OF assms] unfolding diff_zero append_Nil .

definition ex_attempts :: "attempt list" where
  "ex_attempts = [\<lparr>at_uuid = 1, at_chan = 0, at_outcome = None\<rparr>,
     \<lparr>at_uuid = 2, at_chan = 1, at_outcome = Some Res_Ok\<rparr>]"

theorem send_command_retries_witness:
  "\<exists>n. 0 < n \<and> n \<le> 3 \<and> n \<le> length ex_attempts \<and>
    [(''c'', command_wrap 1 Cmd_Ping), (''c'', command_wrap 2 Cmd_Ping)] =
      map (\<lambda>a. (''c'', command_wrap (at_uuid a) Cmd_Ping)) (take n ex_attempts) \<and>
    at_outcome (ex_attempts ! (n - 1)) = Some Res_Ok \<and> (\<forall>i<n - 1. at_outcome (ex_attempts ! i) = None)"
proof -
  have "send_command_outer 3 Cmd_Ping ''c'' 0 ex_attempts [(9, 5)] [] =
      Some (Inr Res_Ok, [(9, 5)], [(''c'', command_wrap 1 Cmd_Ping), (''c'', command_wrap 2 Cmd_Ping)])"
    by (simp add: ex_attempts_def al_register_def command_wrap_def)
  from send_command_retries [OF this] show ?thesis by (simp add: ex_attempts_def)
qed

lemma send_messages_append:
  "u \<notin> fst ` set al \<Longrightarrow> wr_uuid res = u \<Longrightarrow> send_messages res (al @ [(u, c)]) = Some (c, wr_res res)"
  by (induction al) auto

lemma send_messages_other:
  "wr_uuid res \<noteq> u \<Longrightarrow> send_messages res (al @ [(u, c)]) = send_messages res al"
  by (induction al) auto

lemma send_messages_chan: "send_messages res al = Some m \<Longrightarrow> fst m \<in> snd ` set al"
  by (induction al) (auto split: if_splits)

text \<open>A broadcast collects exactly the responses that carry its uuid, in the order of their
  arrival, and leaves the list of expected responses as it was.\<close>

lemma broadcast_result:
  assumes "u \<notin> fst ` set al" and "c \<notin> snd ` set al"
  shows "broadcast u c cmd channel arrivals al =
    (map wr_res (filter (\<lambda>res. wr_uuid res = u) arrivals), al, [(channel, command_wrap u cmd)])"
proof -
  have "[snd m. Some m \<leftarrow> map (\<lambda>res. send_messages res (al @ [(u, c)])) arrivals, fst m = c] =
      map wr_res (filter (\<lambda>res. wr_uuid res = u) arrivals)"
  proof (induction arrivals)
    case (Cons res arrivals)
    then show ?case
      using assms send_messages_append [OF assms(1), of res c] send_messages_other [of res u al c]
        send_messages_chan [of res al]
      by (cases "wr_uuid res = u") (auto split: option.splits)
  qed simp
  with assms show ?thesis
    by (simp add: broadcast_def al_register_def al_deregister_append)
qed

end
