(* ===== verification/Tg_Tickstream.thy ===== *)
theory Tg_Tickstream
  imports Tg_Ticks Tg_Commands
begin

text \<open>
  The tickstreams of \<open>util/src/transport/tickstream\<close>: the maps a tick passes, the generators
  that read ticks from a file, the database, a channel or a random source, the mailbox
  through which a running generator is paused, resumed and stopped, and the sinks. The
  channel to the consumer is the list of the ticks sent, and the consumer takes them. The
  contents of files, the database, the parser of JSON and the random draws are parameters;
  a thread's parking is the token of \<open>std::thread\<close>.
\<close>

section \<open>Maps\<close>

datatype tick_map = FastMap usize | LiveMap u64 | NullMap

definition live_map_new :: tick_map where
  "live_map_new = LiveMap 0"

text \<open>The tick that passes, the milliseconds slept, and the map afterwards.\<close>

fun map_tick :: "tick_map \<Rightarrow> tick \<Rightarrow> tick option \<times> u64 \<times> tick_map" where
  "map_tick (FastMap delay_ms) t = (Some t, delay_ms, FastMap delay_ms)"
| "map_tick (LiveMap last_tick_timestamp) t =
     (if last_tick_timestamp = 0 then (None, 0, LiveMap (t_timestamp t))
      else (Some t, t_timestamp t - last_tick_timestamp, LiveMap last_tick_timestamp))"
| "map_tick NullMap t = (Some t, 0, NullMap)"

section \<open>The mailbox\<close>

datatype tickstream_command = Pause | Resume | Stop

text \<open>
  What the worker thread is doing: held before its loop, at work, parked by a pause, woken
  from it but not yet past the end of \<open>check_mail\<close>, or gone.
\<close>

datatype worker = Held | Working | Parked | Woken | Gone

record control =
  c_got_mail :: bool
  c_message :: tickstream_command
  c_permit :: bool
  c_worker :: worker

definition control_new :: "worker \<Rightarrow> control" where
  "control_new w = \<lparr>c_got_mail = False, c_message = Stop, c_permit = False, c_worker = w\<rparr>"

definition unpark :: "control \<Rightarrow> control" where
  "unpark c =
     (case c_worker c of
        Held \<Rightarrow> c\<lparr>c_worker := Working\<rparr>
      | Parked \<Rightarrow> c\<lparr>c_worker := Woken\<rparr>
      | _ \<Rightarrow> c\<lparr>c_permit := True\<rparr>)"

text \<open>The listener thread on one command.\<close>

fun listener :: "tickstream_command \<Rightarrow> control \<Rightarrow> control" where
  "listener Resume c = unpark c"
| "listener cmd c = c\<lparr>c_message := cmd, c_got_mail := True\<rparr>"

text \<open>
  \<open>check_mail\<close> up to where it parks: whether the caller goes on, has to die, or is inside the
  call; \<open>mail_done\<close> is the rest of the call.
\<close>

datatype verdict = Go | Die | Inside

definition check_mail :: "control \<Rightarrow> verdict \<times> control" where
  "check_mail c =
     (if \<not> c_got_mail c then (Go, c)
      else case c_message c of
        Pause \<Rightarrow>
          if c_permit c then (Inside, c\<lparr>c_permit := False, c_worker := Woken\<rparr>)
          else (Inside, c\<lparr>c_worker := Parked\<rparr>)
      | Stop \<Rightarrow> (Die, c)
      | Resume \<Rightarrow> (Go, c\<lparr>c_got_mail := False\<rparr>))"

definition mail_done :: "control \<Rightarrow> control" where
  "mail_done c = c\<lparr>c_got_mail := False, c_worker := Working\<rparr>"

section \<open>Reading a source\<close>

text \<open>
  The source yields ticks, or panics (\<^term>\<open>None\<close>) on a tick that cannot be parsed. The
  file reader sends the tick it has read, the others the tick the map returns: the flag
  \<open>mapped\<close>.
\<close>

record reader =
  rr_ctl :: control
  rr_map :: tick_map
  rr_src :: "tick run list"
  rr_sent :: "tick list"

definition sent_of :: "bool \<Rightarrow> tick_map \<Rightarrow> tick \<Rightarrow> tick list" where
  "sent_of mapped m t =
     (case fst (map_tick m t) of None \<Rightarrow> [] | Some t' \<Rightarrow> [if mapped then t' else t])"

definition emit :: "bool \<Rightarrow> tick \<Rightarrow> reader \<Rightarrow> reader" where
  "emit mapped t r = r\<lparr>rr_map := snd (snd (map_tick (rr_map r) t)), rr_src := tl (rr_src r),
     rr_sent := rr_sent r @ sent_of mapped (rr_map r) t\<rparr>"

definition die :: "reader \<Rightarrow> reader" where
  "die r = r\<lparr>rr_ctl := (rr_ctl r)\<lparr>c_worker := Gone\<rparr>\<rparr>"

text \<open>One turn of the worker's loop, when it is not blocked.\<close>

definition reader_turn :: "bool \<Rightarrow> reader \<Rightarrow> reader option" where
  "reader_turn mapped r =
     (case rr_src r of
        Some t # ts \<Rightarrow>
          (case c_worker (rr_ctl r) of
             Working \<Rightarrow>
               (case check_mail (rr_ctl r) of
                  (Go, c) \<Rightarrow> Some (emit mapped t (r\<lparr>rr_ctl := c\<rparr>))
                | (Die, c) \<Rightarrow> Some (die (r\<lparr>rr_ctl := c\<rparr>))
                | (Inside, c) \<Rightarrow> Some (r\<lparr>rr_ctl := c\<rparr>))
           | Woken \<Rightarrow> Some (emit mapped t (r\<lparr>rr_ctl := mail_done (rr_ctl r)\<rparr>))
           | _ \<Rightarrow> None)
      | _ \<Rightarrow> if c_worker (rr_ctl r) = Working then Some (die r) else None)"

inductive reader_step :: "bool \<Rightarrow> reader \<Rightarrow> reader \<Rightarrow> bool" for mapped where
  reader_works: "reader_turn mapped r = Some r' \<Longrightarrow> reader_step mapped r r'"
| reader_told: "reader_step mapped r (r\<lparr>rr_ctl := listener cmd (rr_ctl r)\<rparr>)"

definition reader_new :: "worker \<Rightarrow> tick_map \<Rightarrow> tick run list \<Rightarrow> reader" where
  "reader_new w m src = \<lparr>rr_ctl = control_new w, rr_map = m, rr_src = src, rr_sent = []\<rparr>"

text \<open>\<open>get_raw\<close>: neither map nor commands.\<close>

fun read_raw :: "tick run list \<Rightarrow> tick list" where
  "read_raw (Some t # ts) = t # read_raw ts"
| "read_raw _ = []"

section \<open>Generators\<close>

datatype tick_generator =
    FlatfileReader string "u64 option"
  | PostgresReader string "u64 option"
  | RandomReader
  | RedisReader string string string

definition redis_reader_new :: "string \<Rightarrow> string \<Rightarrow> string \<Rightarrow> tick_generator" where
  "redis_reader_new symbol host channel = RedisReader symbol host channel"

text \<open>A path is the list of its parts; symbols are ASCII.\<close>

definition upper_char :: "char \<Rightarrow> char" where
  "upper_char c =
     (let n = of_char c :: nat in if 97 \<le> n \<and> n \<le> 122 then char_of (n - 32) else c)"

definition init_reader :: "(string list \<Rightarrow> string + string) \<Rightarrow> string \<Rightarrow> string \<Rightarrow> string + tick run list" where
  "init_reader open_file data_dir symbol =
     (case open_file [data_dir, ''historical_ticks'', map upper_char symbol @ ''.csv''] of
        Inl e \<Rightarrow> Inl e
      | Inr contents \<Rightarrow> Inr (map from_csv_string (file_lines contents)))"

definition too_early :: "u64 option \<Rightarrow> tick run \<Rightarrow> bool" where
  "too_early start_time x \<longleftrightarrow>
     (case x of None \<Rightarrow> False | Some t \<Rightarrow> (case start_time of None \<Rightarrow> False | Some s \<Rightarrow> t_timestamp t < s))"

text \<open>The file reader; a file that cannot be opened makes the worker panic.\<close>

definition flatfile_get ::
  "(string list \<Rightarrow> string + string) \<Rightarrow> string \<Rightarrow> string \<Rightarrow> u64 option \<Rightarrow> tick_map \<Rightarrow> reader run" where
  "flatfile_get open_file data_dir symbol start_time m =
     (case init_reader open_file data_dir symbol of
        Inl e \<Rightarrow> panic
      | Inr src \<Rightarrow> ret (reader_new Working m (dropWhile (too_early start_time) src)))"

definition flatfile_get_raw ::
  "(string list \<Rightarrow> string + string) \<Rightarrow> string \<Rightarrow> string \<Rightarrow> u64 option \<Rightarrow> tick list run" where
  "flatfile_get_raw open_file data_dir symbol start_time =
     (case init_reader open_file data_dir symbol of
        Inl e \<Rightarrow> panic
      | Inr src \<Rightarrow> ret (read_raw (dropWhile (too_early start_time) src)))"

text \<open>A random tick; the price and the spread are drawn.\<close>

definition get_rand_tick :: "usize \<Rightarrow> usize \<Rightarrow> u64 \<Rightarrow> tick" where
  "get_rand_tick price gap timestamp =
     \<lparr>t_bid = price, t_ask = price - gap, t_timestamp = timestamp\<rparr>"

fun random_source :: "u64 \<Rightarrow> (usize \<times> usize) list \<Rightarrow> tick run list" where
  "random_source timestamp [] = []"
| "random_source timestamp ((price, gap) # ds) =
     Some (get_rand_tick price gap timestamp) # random_source (timestamp + 1) ds"

definition random_get :: "(usize \<times> usize) list \<Rightarrow> tick_map \<Rightarrow> reader" where
  "random_get draws m = reader_new Held m (random_source 1 draws)"

definition random_get_raw :: "(usize \<times> usize) list \<Rightarrow> tick list" where
  "random_get_raw draws = read_raw (random_source 0 draws)"

definition redis_get :: "(string \<Rightarrow> tick run) \<Rightarrow> string list \<Rightarrow> tick_map \<Rightarrow> reader" where
  "redis_get from_json messages m = reader_new Working m (map from_json messages)"

definition redis_get_raw :: "(string \<Rightarrow> tick run) \<Rightarrow> string list \<Rightarrow> tick list" where
  "redis_get_raw from_json messages = read_raw (map from_json messages)"

text \<open>
  The database reader polls for rows after the last one seen, ignoring commands, until a
  query fails. The loop need not end; \<open>n\<close> is the number of queries made.
\<close>

definition pg_ticks_query :: "string \<Rightarrow> u64 \<Rightarrow> string" where
  "pg_ticks_query symbol start_time =
     ''SELECT (tick_time, bid, ask) FROM hist_'' @ symbol @ '' WHERE tick_time > '' @
     show_word start_time @ '' LIMIT 500 ORDER BY tick_time;''"

definition pg_row_tick :: "db_row \<Rightarrow> tick" where
  "pg_row_tick row = (case row of (timestamp, bid, ask) \<Rightarrow>
     \<lparr>t_bid = bid, t_ask = ask, t_timestamp = timestamp\<rparr>)"

fun pg_rows :: "tick_map \<Rightarrow> u64 \<Rightarrow> db_row list \<Rightarrow> tick list \<Rightarrow> tick list \<times> u64 \<times> tick_map" where
  "pg_rows m cur_time [] sent = (sent, cur_time, m)"
| "pg_rows m cur_time (row # rows) sent =
     (let tick = pg_row_tick row
      in pg_rows (snd (snd (map_tick m tick))) (t_timestamp tick) rows (sent @ sent_of False m tick))"

fun pg_loop ::
  "(string \<Rightarrow> db_row list option) \<Rightarrow> string \<Rightarrow> nat \<Rightarrow> tick_map \<Rightarrow> u64 \<Rightarrow> tick list \<Rightarrow> tick list" where
  "pg_loop query symbol 0 m cur_time sent = sent"
| "pg_loop query symbol (Suc n) m cur_time sent =
     (case query (pg_ticks_query symbol cur_time) of
        None \<Rightarrow> sent
      | Some rows \<Rightarrow>
          (let (sent', cur_time', m') = pg_rows m cur_time rows sent
           in pg_loop query symbol n m' cur_time' sent'))"

definition pg_get ::
  "(string \<Rightarrow> db_row list option) \<Rightarrow> string \<Rightarrow> u64 option \<Rightarrow> tick_map \<Rightarrow> nat \<Rightarrow> tick list" where
  "pg_get query symbol start_time m n =
     pg_loop query symbol n m (case start_time of None \<Rightarrow> 0 | Some s \<Rightarrow> s) []"

text \<open>Without a map; here the connection is made by the caller's thread and may be refused.\<close>

fun pg_raw_rows :: "u64 \<Rightarrow> db_row list \<Rightarrow> tick list \<Rightarrow> tick list \<times> u64" where
  "pg_raw_rows cur_time [] sent = (sent, cur_time)"
| "pg_raw_rows cur_time (row # rows) sent =
     (let tick = pg_row_tick row in pg_raw_rows (t_timestamp tick) rows (sent @ [tick]))"

fun pg_raw_loop :: "(string \<Rightarrow> db_row list option) \<Rightarrow> string \<Rightarrow> nat \<Rightarrow> u64 \<Rightarrow> tick list \<Rightarrow> tick list" where
  "pg_raw_loop query symbol 0 cur_time sent = sent"
| "pg_raw_loop query symbol (Suc n) cur_time sent =
     (case query (pg_ticks_query symbol cur_time) of
        None \<Rightarrow> sent
      | Some rows \<Rightarrow>
          (let (sent', cur_time') = pg_raw_rows cur_time rows sent
           in pg_raw_loop query symbol n cur_time' sent'))"

definition pg_get_raw ::
  "(string \<Rightarrow> db_row list option) option \<Rightarrow> string \<Rightarrow> u64 option \<Rightarrow> nat \<Rightarrow> string + tick list" where
  "pg_get_raw conn symbol start_time n =
     (case conn of
        None \<Rightarrow> Inl ''Unable to create Postgres client''
      | Some query \<Rightarrow> Inr (pg_raw_loop query symbol n (case start_time of None \<Rightarrow> 0 | Some s \<Rightarrow> s) []))"

section \<open>Sinks\<close>

datatype tick_sink = ConsoleSink | NullSink | RedisSink string string

text \<open>What a sink publishes for a tick; \<open>to_json\<close> is the printer of a tick with its symbol.\<close>

fun sink_tick :: "(tick \<Rightarrow> string \<Rightarrow> string) \<Rightarrow> tick_sink \<Rightarrow> tick \<Rightarrow> (string \<times> string) list" where
  "sink_tick to_json ConsoleSink t = []"
| "sink_tick to_json NullSink t = []"
| "sink_tick to_json (RedisSink symbol tx_channel) t = [(tx_channel, to_json t symbol)]"

definition csv_sink_new :: "(string \<Rightarrow> string + 'w) \<Rightarrow> (string \<rightharpoonup> string) \<Rightarrow> string + 'w" where
  "csv_sink_new create settings =
     (case settings ''output_path'' of
        None \<Rightarrow> Inl (''You must supply an `output_path` argument in the input `HashMap`'' @ [CHR 0x7E])
      | Some output_path \<Rightarrow> create output_path)"

text \<open>
  The stream sink: ticks pass through a channel to a thread of its own, which sends them on;
  that the receiver is gone is a panic of the thread.
\<close>

record stream_sink =
  ss_mpsc :: "tick list"
  ss_dst :: "tick list"

definition stream_sink_new :: stream_sink where
  "stream_sink_new = \<lparr>ss_mpsc = [], ss_dst = []\<rparr>"

definition stream_sink_tick :: "tick \<Rightarrow> stream_sink \<Rightarrow> stream_sink" where
  "stream_sink_tick t s = s\<lparr>ss_mpsc := ss_mpsc s @ [t]\<rparr>"

definition stream_sink_forward :: "bool \<Rightarrow> stream_sink \<Rightarrow> stream_sink run" where
  "stream_sink_forward open_rx s =
     (case ss_mpsc s of
        [] \<Rightarrow> ret s
      | t # ts \<Rightarrow> if open_rx then ret (s\<lparr>ss_mpsc := ts, ss_dst := ss_dst s @ [t]\<rparr>) else panic)"

text \<open>Whenever the thread runs, what was sent on and what still waits are the ticks in their order.\<close>

lemma stream_sink_order:
  "ss_dst (stream_sink_tick t s) @ ss_mpsc (stream_sink_tick t s) = ss_dst s @ ss_mpsc s @ [t]"
  "stream_sink_forward open_rx s = Some s' \<Longrightarrow> ss_dst s' @ ss_mpsc s' = ss_dst s @ ss_mpsc s"
  by (auto simp: stream_sink_tick_def stream_sink_forward_def split: list.splits if_splits)

section \<open>What a reader sends\<close>

fun send_all :: "bool \<Rightarrow> tick_map \<Rightarrow> tick list \<Rightarrow> tick list" where
  "send_all mapped m [] = []"
| "send_all mapped m (t # ts) = sent_of mapped m t @ send_all mapped (snd (snd (map_tick m t))) ts"

fun map_after :: "tick_map \<Rightarrow> tick list \<Rightarrow> tick_map" where
  "map_after m [] = m"
| "map_after m (t # ts) = map_after (snd (snd (map_tick m t))) ts"

lemma send_all_snoc: "send_all mapped m (ts @ [t]) = send_all mapped m ts @ sent_of mapped (map_after m ts) t"
  by (induction ts arbitrary: m) simp_all

lemma map_after_snoc: "map_after m (ts @ [t]) = snd (snd (map_tick (map_after m ts) t))"
  by (induction ts arbitrary: m) simp_all

text \<open>The part of the source already read, and what it led to.\<close>

definition reader_inv :: "bool \<Rightarrow> tick_map \<Rightarrow> tick run list \<Rightarrow> reader \<Rightarrow> bool" where
  "reader_inv mapped m src r \<longleftrightarrow> (\<exists>ts. src = map Some ts @ rr_src r \<and>
     rr_sent r = send_all mapped m ts \<and> rr_map r = map_after m ts)"

lemma reader_inv_new: "reader_inv mapped m src (reader_new w m src)"
  by (simp add: reader_inv_def reader_new_def exI [of _ "[]"])

lemma reader_inv_ctl: "reader_inv mapped m src (r\<lparr>rr_ctl := c\<rparr>) = reader_inv mapped m src r"
  by (simp add: reader_inv_def)

lemma reader_inv_die: "reader_inv mapped m src (die r) = reader_inv mapped m src r"
  by (simp add: die_def reader_inv_ctl)

lemma reader_inv_emit:
  assumes "reader_inv mapped m src r" and "rr_src r = Some t # xs"
  shows "reader_inv mapped m src (emit mapped t r)"
proof -
  obtain ts where "src = map Some ts @ rr_src r" "rr_sent r = send_all mapped m ts"
    "rr_map r = map_after m ts"
    using assms(1) by (auto simp: reader_inv_def)
  with assms(2) show ?thesis
    by (auto simp: reader_inv_def emit_def send_all_snoc map_after_snoc intro!: exI [of _ "ts @ [t]"])
qed

lemma reader_inv_turn:
  assumes inv: "reader_inv mapped m src r" and turn: "reader_turn mapped r = Some r'"
  shows "reader_inv mapped m src r'"
proof (cases "rr_src r")
  case Nil
  with turn inv show ?thesis by (auto simp: reader_turn_def reader_inv_die split: if_splits)
next
  case (Cons x xs)
  show ?thesis
  proof (cases x)
    case None
    with Cons turn inv show ?thesis by (auto simp: reader_turn_def reader_inv_die split: if_splits)
  next
    case (Some t)
    have emits: "reader_inv mapped m src (emit mapped t (r\<lparr>rr_ctl := c\<rparr>))" for c
      by (rule reader_inv_emit) (simp_all add: reader_inv_ctl inv Cons Some)
    from turn Cons Some show ?thesis
      by (auto simp: reader_turn_def reader_inv_ctl reader_inv_die inv emits
          split: worker.splits prod.splits verdict.splits)
  qed
qed

interpretation reading: step_invariant "reader_step mapped" "reader_inv mapped m src"
  for mapped m src
proof
  show "reader_inv mapped m src r'" if "reader_inv mapped m src r" "reader_step mapped r r'" for r r'
    using that(2,1) by cases (auto intro: reader_inv_turn simp: reader_inv_ctl)
qed

lemma send_all_null: "send_all mapped NullMap ts = ts"
  by (induction ts) (simp_all add: sent_of_def)

text \<open>The raw reader of the database sends what the mapped one sends with the map that changes nothing.\<close>

lemma pg_rows_null: "pg_rows NullMap cur_time rows sent =
    (fst (pg_raw_rows cur_time rows sent), snd (pg_raw_rows cur_time rows sent), NullMap)"
  by (induction rows arbitrary: cur_time sent) (simp_all add: sent_of_def Let_def)

lemma pg_get_raw_unmapped:
  "pg_get_raw (Some query) symbol start_time n = Inr (pg_get query symbol start_time NullMap n)"
proof -
  have "pg_loop query symbol n NullMap cur_time sent = pg_raw_loop query symbol n cur_time sent" for cur_time sent
    by (induction n arbitrary: cur_time sent) (simp_all add: pg_rows_null split: option.split prod.split)
  then show ?thesis by (simp add: pg_get_raw_def pg_get_def)
qed

section \<open>Properties\<close>

text \<open>C26. Whatever commands arrive and however they interleave with the reader, what it has sent is
  what its map lets through of the part of the source it has read, in order: no tick is
  lost, repeated or reordered by pausing and resuming.\<close>

theorem reader_sends_prefix:
  assumes "(reader_step mapped)\<^sup>*\<^sup>* (reader_new w m src) r"
  shows "\<exists>ts. src = map Some ts @ rr_src r \<and> rr_sent r = send_all mapped m ts"
  using reading.run_inv [OF assms reader_inv_new] by (auto simp: reader_inv_def)

definition ex_source :: "tick run list" where
  "ex_source = random_source 1 [(50, 1), (60, 2)]"

theorem reader_sends_prefix_witness:
  "\<exists>ts. ex_source = map Some ts @ rr_src (reader_new Working NullMap ex_source
      \<lparr>rr_ctl := listener Pause (control_new Working)\<rparr>) \<and>
    rr_sent (reader_new Working NullMap ex_source\<lparr>rr_ctl := listener Pause (control_new Working)\<rparr>) =
      send_all True NullMap ts"
proof (rule reader_sends_prefix)
  let ?r = "reader_new Working NullMap ex_source"
  have "reader_step True ?r (?r\<lparr>rr_ctl := listener Pause (rr_ctl ?r)\<rparr>)" by (rule reader_told)
  then show "(reader_step True)\<^sup>*\<^sup>* ?r (?r\<lparr>rr_ctl := listener Pause (control_new Working)\<rparr>)"
    by (simp add: reader_new_def)
qed

text \<open>A reader at work that is told to stop stops at the next tick, without sending it. A
  paused reader that is told to stop and then resumed has forgotten the stop: it sends the
  next tick and goes on with an empty mailbox.\<close>

theorem stop_forgotten_when_paused:
  assumes "rr_src r = Some t # ts"
  shows "(c_worker (rr_ctl r) = Working \<longrightarrow>
      (\<exists>r'. reader_turn mapped (r\<lparr>rr_ctl := listener Stop (rr_ctl r)\<rparr>) = Some r' \<and>
        c_worker (rr_ctl r') = Gone \<and> rr_sent r' = rr_sent r)) \<and>
    (c_worker (rr_ctl r) = Parked \<longrightarrow>
      (\<exists>r'. reader_turn mapped (r\<lparr>rr_ctl := listener Resume (listener Stop (rr_ctl r))\<rparr>) = Some r' \<and>
        c_worker (rr_ctl r') = Working \<and> \<not> c_got_mail (rr_ctl r') \<and> rr_src r' = ts \<and>
        rr_sent r' = rr_sent r @ sent_of mapped (rr_map r) t))"
  using assms
  by (simp add: reader_turn_def check_mail_def die_def unpark_def mail_done_def emit_def)

definition ex_paused :: reader where
  "ex_paused = reader_new Parked NullMap ex_source"

theorem stop_forgotten_when_paused_witness:
  "\<exists>r'. reader_turn True (ex_paused\<lparr>rr_ctl := listener Resume (listener Stop (rr_ctl ex_paused))\<rparr>) = Some r' \<and>
    c_worker (rr_ctl r') = Working \<and> \<not> c_got_mail (rr_ctl r') \<and>
    rr_sent r' = [get_rand_tick 50 1 1]"
proof -
  have src: "rr_src ex_paused = Some (get_rand_tick 50 1 1) # random_source 2 [(60, 2)]"
    by (simp add: ex_paused_def reader_new_def ex_source_def)
  have "c_worker (rr_ctl ex_paused) = Parked" "rr_sent ex_paused = []" "rr_map ex_paused = NullMap"
    by (simp_all add: ex_paused_def reader_new_def control_new_def)
  then show ?thesis
    using stop_forgotten_when_paused [OF src, of True] by (auto simp: sent_of_def)
qed

lemma csv_rows_read:
  assumes "open_file [data_dir, ''historical_ticks'', map upper_char symbol @ ''.csv''] =
    Inr (concat (map to_csv_row ts))"
  shows "flatfile_get_raw open_file data_dir symbol start_time =
    Some (dropWhile (\<lambda>t. too_early start_time (Some t)) ts)"
proof -
  have raw: "read_raw (map Some xs) = xs" for xs by (induction xs) simp_all
  show ?thesis
    using assms
    by (simp add: flatfile_get_raw_def init_reader_def file_lines_rows dropWhile_map raw comp_def
        from_csv_line)
qed

text \<open>A file of CSV rows written tick by tick is read back exactly: the raw reader yields the
  ticks that were written, from the first one not before the start time.\<close>

theorem csv_file_roundtrip:
  assumes "open_file [data_dir, ''historical_ticks'', map upper_char symbol @ ''.csv''] =
    Inr (concat (map to_csv_row ts))"
  shows "flatfile_get_raw open_file data_dir symbol start_time =
    Some (dropWhile (\<lambda>t. too_early start_time (Some t)) ts)"
  using csv_rows_read [of open_file data_dir symbol ts] assms by simp

theorem csv_file_roundtrip_witness:
  "flatfile_get_raw (\<lambda>_. Inr (concat (map to_csv_row [get_rand_tick 50 1 1, get_rand_tick 60 2 7])))
      ''data'' ''eurusd'' (Some 5) =
    Some (dropWhile (\<lambda>t. too_early (Some 5) (Some t)) [get_rand_tick 50 1 1, get_rand_tick 60 2 7])"
  by (rule csv_file_roundtrip) simp

text \<open>The live map drops the first tick and delays every later one by the time since the first
  tick, not since the one before it: it never moves its reference, so the playback falls
  further behind with every tick.\<close>

lemma live_map_delays:
  assumes "t_timestamp t0 \<noteq> 0"
  shows "map_tick live_map_new t0 = (None, 0, LiveMap (t_timestamp t0)) \<and>
    map_tick (map_after live_map_new (t0 # ts)) t =
      (Some t, t_timestamp t - t_timestamp t0, LiveMap (t_timestamp t0))"
proof -
  have "map_after (LiveMap (t_timestamp t0)) ts = LiveMap (t_timestamp t0)"
    using assms by (induction ts) simp_all
  then show ?thesis using assms by (simp add: live_map_new_def)
qed

lemma live_map_delays_witness:
  "map_tick live_map_new (get_rand_tick 50 1 10) = (None, 0, LiveMap 10) \<and>
    map_tick (map_after live_map_new [get_rand_tick 50 1 10, get_rand_tick 50 1 20]) (get_rand_tick 50 1 30) =
      (Some (get_rand_tick 50 1 30), 20, LiveMap 10)"
  using live_map_delays [of "get_rand_tick 50 1 10" "[get_rand_tick 50 1 20]" "get_rand_tick 50 1 30"]
  by (simp add: get_rand_tick_def)

text \<open>A random tick has a bid within the drawn range and an ask that is at least one and never
  above the bid: the difference does not wrap, and the market it quotes is inverted.\<close>

lemma rand_tick_bounds:
  assumes "10 \<le> price" and "price < 99" and "gap < 5"
  shows "10 \<le> t_bid (get_rand_tick price gap ts) \<and> t_bid (get_rand_tick price gap ts) < 99 \<and>
    6 \<le> t_ask (get_rand_tick price gap ts) \<and>
    t_ask (get_rand_tick price gap ts) \<le> t_bid (get_rand_tick price gap ts) \<and>
    unat (spread (get_rand_tick price gap ts)) = unat gap"
proof -
  have p: "10 \<le> unat price" "unat price < 99" "unat gap < 5"
    using assms by (simp_all add: word_le_nat_alt word_less_nat_alt)
  then have "unat (price - gap) = unat price - unat gap"
    by (simp add: unat_sub word_le_nat_alt)
  with p show ?thesis
    by (simp add: get_rand_tick_def spread_def word_le_nat_alt word_less_nat_alt)
qed

lemma rand_tick_bounds_witness:
  "10 \<le> t_bid (get_rand_tick 10 4 1) \<and> t_bid (get_rand_tick 10 4 1) < 99 \<and>
    6 \<le> t_ask (get_rand_tick 10 4 1) \<and>
    t_ask (get_rand_tick 10 4 1) \<le> t_bid (get_rand_tick 10 4 1) \<and>
    unat (spread (get_rand_tick 10 4 1)) = unat (4 :: usize)"
  by (rule rand_tick_bounds) simp_all

end
