(* ===== verification/Tg_Data.thy ===== *)
theory Tg_Data
  imports Tg_Ticks Tg_Commands
begin

text \<open>
  The transfer of stored ticks from one place to another
  (\<open>util/src/transport/data.rs\<close>): the receiver callbacks with their buffers and the
  generators that read ticks back from a file or a table. What a callback does to the
  outside is a list of effects; the file system, the database and serde are parameters.
\<close>

section \<open>Receivers\<close>

datatype rx_effect =
    Printed tick
  | Piped string "(string \<times> string \<times> string) list"
  | Appended string string
  | Queried string

record rx_callback =
  rx_dst :: hist_tick_dst
  rx_buffer :: "string list"
  rx_done :: "rx_effect list"

text \<open>
  What the callbacks need of the outside: creating a file that is missing, opening one for
  appending, writing to it, connecting to the database and preparing a table.
\<close>

record storage =
  fs_touch :: "string \<Rightarrow> bool"
  fs_open :: "string \<Rightarrow> bool"
  fs_write :: "string \<Rightarrow> string \<Rightarrow> bool"
  db_connect :: bool
  db_init_table :: "string \<Rightarrow> string + unit"

definition get_rx_closure :: "storage \<Rightarrow> hist_tick_dst \<Rightarrow> (string + rx_callback) run" where
  "get_rx_closure st dst =
     (let cb = \<lparr>rx_dst = dst, rx_buffer = [], rx_done = []\<rparr>
      in case dst of
        Console \<Rightarrow> ret (Inr cb)
      | RedisChannel host channel \<Rightarrow> ret (Inr cb)
      | RedisSet host set_name \<Rightarrow> ret (Inr cb)
      | Flatfile filename \<Rightarrow> do {
          require (fs_touch st filename);
          if fs_open st filename then ret (Inr cb)
          else ret (Inl (''Unable to open file with path '' @ filename))
        }
      | Postgres table \<Rightarrow>
          if \<not> db_connect st then ret (Inl ''Unable to connect to PostgreSQL!'')
          else case db_init_table st table of
              Inl e \<Rightarrow> ret (Inl e)
            | Inr u \<Rightarrow> ret (Inr cb))"

text \<open>What is buffered for a tick, and what a full buffer is turned into.\<close>

definition buffer_size :: nat where
  "buffer_size = 5000"

definition pg_row :: "tick \<Rightarrow> string" where
  "pg_row t = ''('' @ show_word (t_timestamp t) @ '', '' @ show_word (t_bid t) @ '', '' @
     show_word (t_ask t) @ '')''"

definition pg_insert :: "string \<Rightarrow> string list \<Rightarrow> string" where
  "pg_insert table rows =
     ''INSERT INTO '' @ table @ '' (tick_time, bid, ask) VALUES '' @ join_str '', '' rows @ '';''"

definition pipe_of :: "string \<Rightarrow> string \<Rightarrow> string list \<Rightarrow> (string \<times> string \<times> string) list" where
  "pipe_of cmd key items = map (\<lambda>item. (cmd, key, item)) items"

text \<open>The callback on one tick.\<close>

definition rx_call :: "storage \<Rightarrow> (tick \<Rightarrow> string) \<Rightarrow> tick \<Rightarrow> rx_callback \<Rightarrow> rx_callback run" where
  "rx_call st to_json t cb =
     (case rx_dst cb of
        Console \<Rightarrow> ret (cb\<lparr>rx_done := rx_done cb @ [Printed t]\<rparr>)
      | RedisChannel host channel \<Rightarrow>
          (let buffer = rx_buffer cb @ [to_json t]
           in if buffer_size \<le> length buffer
              then ret (cb\<lparr>rx_buffer := [], rx_done := rx_done cb @ [Piped host (pipe_of ''PUBLISH'' channel buffer)]\<rparr>)
              else ret (cb\<lparr>rx_buffer := buffer\<rparr>))
      | RedisSet host set_name \<Rightarrow>
          (let buffer = rx_buffer cb @ [to_json t]
           in if buffer_size \<le> length buffer
              then ret (cb\<lparr>rx_buffer := [], rx_done := rx_done cb @ [Piped host (pipe_of ''SADD'' set_name buffer)]\<rparr>)
              else ret (cb\<lparr>rx_buffer := buffer\<rparr>))
      | Flatfile filename \<Rightarrow> do {
          require (fs_write st filename (to_csv_row t));
          ret (cb\<lparr>rx_done := rx_done cb @ [Appended filename (to_csv_row t)]\<rparr>)
        }
      | Postgres table \<Rightarrow>
          (let buffer = rx_buffer cb @ [pg_row t]
           in if buffer_size - 1 < length buffer
              then ret (cb\<lparr>rx_buffer := [], rx_done := rx_done cb @ [Queried (pg_insert table buffer)]\<rparr>)
              else ret (cb\<lparr>rx_buffer := buffer\<rparr>)))"

fun rx_calls :: "storage \<Rightarrow> (tick \<Rightarrow> string) \<Rightarrow> tick list \<Rightarrow> rx_callback \<Rightarrow> rx_callback run" where
  "rx_calls st to_json [] cb = ret cb"
| "rx_calls st to_json (t # ts) cb = do {
     cb' \<leftarrow> rx_call st to_json t cb;
     rx_calls st to_json ts cb'
   }"

section \<open>Generators\<close>

text \<open>\<open>BufRead::read_line\<close>: the line with its newline, and the rest.\<close>

fun read_line :: "string \<Rightarrow> string \<times> string" where
  "read_line [] = ([], [])"
| "read_line (c # cs) =
     (if c = CHR 0x0A then ([c], cs) else (let (l, rest) = read_line cs in (c # l, rest)))"

datatype tick_source = Csv_file string | Pg_table string u64

record hist_tick_gen =
  hg_buffer :: "tick list"
  hg_source :: tick_source

definition flatfile_reader_new :: "(string \<Rightarrow> string option) \<Rightarrow> string \<Rightarrow> hist_tick_gen run" where
  "flatfile_reader_new open_file filename = do {
     contents \<leftarrow> open_file filename;
     ret \<lparr>hg_buffer = [], hg_source = Csv_file (snd (read_line contents))\<rparr>
   }"

definition postgres_reader_new :: "bool \<Rightarrow> string \<Rightarrow> hist_tick_gen run" where
  "postgres_reader_new connected table_name = do {
     require connected;
     ret \<lparr>hg_buffer = [], hg_source = Pg_table table_name 0\<rparr>
   }"

definition get_tx_iterator ::
  "(string \<Rightarrow> string option) \<Rightarrow> bool \<Rightarrow> hist_tick_dst \<Rightarrow> hist_tick_gen run" where
  "get_tx_iterator open_file connected src =
     (case src of
        Flatfile filename \<Rightarrow> flatfile_reader_new open_file filename
      | Postgres table \<Rightarrow> postgres_reader_new connected table
      | _ \<Rightarrow> panic)"

text \<open>\<open>n\<close> lines are read and parsed; at the end of the file the line read is empty.\<close>

fun read_ticks :: "nat \<Rightarrow> string \<Rightarrow> tick list \<Rightarrow> (tick list \<times> string) run" where
  "read_ticks 0 contents buffer = ret (buffer, contents)"
| "read_ticks (Suc n) contents buffer =
     (let (buf, rest) = read_line contents
      in do {
        t \<leftarrow> from_csv_string buf;
        read_ticks n rest (buffer @ [t])
      })"

definition batch_size :: nat where
  "batch_size = 500"

definition populate_query :: "string \<Rightarrow> u64 \<Rightarrow> string" where
  "populate_query table_name last_timestamp =
     ''SELECT (tick_time, bid, ask) FROM '' @ table_name @ '' WHERE tick_time > '' @
     show_word last_timestamp @ '' LIMIT 500;''"

text \<open>The row is written at its index of the buffer, which has to exist.\<close>

fun write_rows :: "nat \<Rightarrow> db_row list \<Rightarrow> tick list \<Rightarrow> tick list run" where
  "write_rows i [] buffer = ret buffer"
| "write_rows i ((timestamp, bid, ask) # rows) buffer = do {
     buffer' \<leftarrow> vec_set buffer i \<lparr>t_bid = bid, t_ask = ask, t_timestamp = timestamp\<rparr>;
     write_rows (Suc i) rows buffer'
   }"

definition populate_buffer ::
  "(string \<Rightarrow> string + db_row list) \<Rightarrow> hist_tick_gen \<Rightarrow> ((string + unit) \<times> hist_tick_gen) run" where
  "populate_buffer query g = do {
     require (hg_buffer g = []);
     case hg_source g of
       Csv_file contents \<Rightarrow> do {
         (buffer, rest) \<leftarrow> read_ticks batch_size contents (hg_buffer g);
         ret (Inr (), g\<lparr>hg_buffer := buffer, hg_source := Csv_file rest\<rparr>)
       }
     | Pg_table table_name last_timestamp \<Rightarrow>
         (case query (populate_query table_name last_timestamp) of
            Inl e \<Rightarrow> ret (Inl e, g)
          | Inr rows \<Rightarrow> do {
              buffer \<leftarrow> write_rows 0 rows (hg_buffer g);
              ret (Inr (), g\<lparr>hg_buffer := buffer\<rparr>)
            })
   }"

text \<open>\<open>Vec::pop\<close> takes the last element; an error while populating is only logged.\<close>

definition gen_next ::
  "(string \<Rightarrow> string + db_row list) \<Rightarrow> hist_tick_gen \<Rightarrow> (tick option \<times> hist_tick_gen) run" where
  "gen_next query g = do {
     g' \<leftarrow> (if hg_buffer g = [] then map_option snd (populate_buffer query g) else ret g);
     if hg_buffer g' = [] then ret (None, g')
     else ret (Some (last (hg_buffer g')), g'\<lparr>hg_buffer := butlast (hg_buffer g')\<rparr>)
   }"

section \<open>A transfer\<close>

datatype transfer_end = Exhausted | Panicked | Unfinished

text \<open>
  The loop of the transfer's thread for at most \<open>n\<close> ticks: the callback as it was left, and
  how the loop ended. A panic of the thread leaves the callback's effects done so far.
\<close>

fun transfer_loop ::
  "storage \<Rightarrow> (tick \<Rightarrow> string) \<Rightarrow> (string \<Rightarrow> string + db_row list) \<Rightarrow> nat \<Rightarrow> hist_tick_gen \<Rightarrow> rx_callback \<Rightarrow>
     rx_callback \<times> transfer_end" where
  "transfer_loop st to_json query 0 g cb = (cb, Unfinished)"
| "transfer_loop st to_json query (Suc n) g cb =
     (case gen_next query g of
        None \<Rightarrow> (cb, Panicked)
      | Some (None, g') \<Rightarrow> (cb, Exhausted)
      | Some (Some t, g') \<Rightarrow>
          (case rx_call st to_json t cb of
             None \<Rightarrow> (cb, Panicked)
           | Some cb' \<Rightarrow> transfer_loop st to_json query n g' cb'))"

definition transfer_data ::
  "storage \<Rightarrow> (tick \<Rightarrow> string) \<Rightarrow> (string \<Rightarrow> string option) \<Rightarrow> (string \<Rightarrow> string + db_row list) \<Rightarrow> nat \<Rightarrow>
     hist_tick_dst \<Rightarrow> hist_tick_dst \<Rightarrow> (rx_callback \<times> transfer_end) run" where
  "transfer_data st to_json open_file query n src dst = do {
     g \<leftarrow> get_tx_iterator open_file (db_connect st) src;
     r \<leftarrow> get_rx_closure st dst;
     case r of
       Inl e \<Rightarrow> panic
     | Inr cb \<Rightarrow> ret (transfer_loop st to_json query n g cb)
   }"

section \<open>What reaches a buffered destination\<close>

text \<open>
  The item a buffered destination makes of a tick and the effect it makes of a batch; the
  other destinations pass every tick on.
\<close>

fun dst_item :: "(tick \<Rightarrow> string) \<Rightarrow> hist_tick_dst \<Rightarrow> tick \<Rightarrow> string" where
  "dst_item to_json (Postgres table) t = pg_row t"
| "dst_item to_json dst t = to_json t"

fun dst_batch :: "hist_tick_dst \<Rightarrow> string list \<Rightarrow> rx_effect" where
  "dst_batch (RedisChannel host channel) b = Piped host (pipe_of ''PUBLISH'' channel b)"
| "dst_batch (RedisSet host set_name) b = Piped host (pipe_of ''SADD'' set_name b)"
| "dst_batch (Postgres table) b = Queried (pg_insert table b)"
| "dst_batch dst b = Queried []"

fun buffered :: "hist_tick_dst \<Rightarrow> bool" where
  "buffered Console = False"
| "buffered (Flatfile filename) = False"
| "buffered dst = True"

lemma rx_call_buffered:
  assumes "buffered (rx_dst cb)" and "length (rx_buffer cb) < buffer_size"
  shows "rx_call st to_json t cb =
    (let buffer = rx_buffer cb @ [dst_item to_json (rx_dst cb) t]
     in if length buffer = buffer_size
        then Some (cb\<lparr>rx_buffer := [], rx_done := rx_done cb @ [dst_batch (rx_dst cb) buffer]\<rparr>)
        else Some (cb\<lparr>rx_buffer := buffer\<rparr>))"
  using assms
  by (cases "rx_dst cb") (auto simp: rx_call_def Let_def buffer_size_def)

text \<open>
  The batches already sent, in order, and the buffer make up the items of all ticks fed.
\<close>

definition rx_inv :: "(tick \<Rightarrow> string) \<Rightarrow> tick list \<Rightarrow> string list list \<Rightarrow> rx_callback \<Rightarrow> bool" where
  "rx_inv to_json ts bs cb \<longleftrightarrow>
     concat bs @ rx_buffer cb = map (dst_item to_json (rx_dst cb)) ts \<and>
     (\<forall>b\<in>set bs. length b = buffer_size) \<and> length (rx_buffer cb) < buffer_size \<and>
     rx_done cb = map (dst_batch (rx_dst cb)) bs"

lemma rx_inv_call:
  assumes "buffered (rx_dst cb)" and "rx_inv to_json ts bs cb"
  obtains cb' bs' where "rx_call st to_json t cb = Some cb'" "rx_dst cb' = rx_dst cb"
    "rx_inv to_json (ts @ [t]) bs' cb'"
proof -
  let ?buffer = "rx_buffer cb @ [dst_item to_json (rx_dst cb) t]"
  have call: "rx_call st to_json t cb =
      (if length ?buffer = buffer_size
       then Some (cb\<lparr>rx_buffer := [], rx_done := rx_done cb @ [dst_batch (rx_dst cb) ?buffer]\<rparr>)
       else Some (cb\<lparr>rx_buffer := ?buffer\<rparr>))"
    using rx_call_buffered [OF assms(1)] assms(2) by (simp add: rx_inv_def Let_def)
  have all: "concat bs @ ?buffer = map (dst_item to_json (rx_dst cb)) (ts @ [t])"
    using assms(2) by (simp add: rx_inv_def flip: append_assoc)
  show ?thesis
  proof (cases "length ?buffer = buffer_size")
    case True
    show ?thesis
      by (rule that [OF call [unfolded if_P [OF True]], of "bs @ [?buffer]"])
        (use assms(2) all True in \<open>auto simp: rx_inv_def buffer_size_def\<close>)
  next
    case False
    show ?thesis
      by (rule that [OF call [unfolded if_not_P [OF False]], of bs])
        (use assms(2) all False in \<open>auto simp: rx_inv_def\<close>)
  qed
qed

lemma rx_inv_calls:
  assumes "buffered (rx_dst cb)" and "rx_inv to_json ts bs cb"
  shows "\<exists>cb' bs'. rx_calls st to_json us cb = Some cb' \<and> rx_dst cb' = rx_dst cb \<and>
    rx_inv to_json (ts @ us) bs' cb'"
  using assms
proof (induction us arbitrary: cb ts bs)
  case Nil
  then show ?case by auto
next
  case (Cons u us)
  obtain cb1 bs1 where 1: "rx_call st to_json u cb = Some cb1" "rx_dst cb1 = rx_dst cb"
      "rx_inv to_json (ts @ [u]) bs1 cb1"
    using rx_inv_call [OF Cons.prems] by blast
  with Cons.IH [of cb1 "ts @ [u]" bs1] Cons.prems(1) show ?case by simp
qed

lemma concat_lengths: "(\<forall>b\<in>set bs. length b = k) \<Longrightarrow> length (concat bs) = k * length bs"
  by (induction bs) auto


definition ex_storage :: storage where
  "ex_storage = \<lparr>fs_touch = (\<lambda>_. True), fs_open = (\<lambda>_. True), fs_write = (\<lambda>_ _. True),
     db_connect = True, db_init_table = (\<lambda>_. Inr ())\<rparr>"


section \<open>Reading a file back\<close>

lemma read_line_row: "CHR 0x0A \<notin> set l \<Longrightarrow> read_line (l @ CHR 0x0A # s) = (l @ [CHR 0x0A], s)"
  by (induction l) auto

lemma from_csv_empty: "from_csv_string [] = None"
  by (simp add: from_csv_string_def split_str_def parse_u64_def parse_nat_def)

lemma read_ticks_rows:
  "read_ticks n (concat (map to_csv_row ts)) buffer =
    (if n \<le> length ts then Some (buffer @ take n ts, concat (map to_csv_row (drop n ts))) else None)"
proof (induction n arbitrary: ts buffer)
  case (Suc n)
  show ?case
  proof (cases ts)
    case Nil
    then show ?thesis by (simp add: from_csv_empty)
  next
    case (Cons t us)
    have "read_line (to_csv_row t @ s) = (to_csv_row t, s)" for s
      by (simp add: to_csv_row_line read_line_row csv_line_newline)
    with Suc Cons show ?thesis by (simp add: from_csv_row)
  qed
qed simp

text \<open>The order in which a file's rows are delivered: batch after batch, each backwards.\<close>

function batch_order :: "'a list \<Rightarrow> 'a list" where
  "batch_order xs =
     (if length xs < batch_size then [] else rev (take batch_size xs) @ batch_order (drop batch_size xs))"
  by auto

termination
  by (relation "measure length") (auto simp: batch_size_def)

declare batch_order.simps [simp del]

lemma gen_next_buffered:
  "hg_buffer g \<noteq> [] \<Longrightarrow>
    gen_next query g = Some (Some (last (hg_buffer g)), g\<lparr>hg_buffer := butlast (hg_buffer g)\<rparr>)"
  by (simp add: gen_next_def)

lemma gen_next_file:
  "gen_next query \<lparr>hg_buffer = [], hg_source = Csv_file (concat (map to_csv_row ts))\<rparr> =
    (if batch_size \<le> length ts
     then gen_next query \<lparr>hg_buffer = take batch_size ts,
       hg_source = Csv_file (concat (map to_csv_row (drop batch_size ts)))\<rparr>
     else None)"
  by (auto simp: gen_next_def populate_buffer_def read_ticks_rows batch_size_def)

lemma transfer_loop_buffered:
  assumes "hg_buffer g \<noteq> []"
  shows "transfer_loop st to_json query (Suc n) g \<lparr>rx_dst = Console, rx_buffer = b, rx_done = d\<rparr> =
    transfer_loop st to_json query n (g\<lparr>hg_buffer := butlast (hg_buffer g)\<rparr>)
      \<lparr>rx_dst = Console, rx_buffer = b, rx_done = d @ [Printed (last (hg_buffer g))]\<rparr>"
  using assms by (simp add: gen_next_buffered rx_call_def)

lemma transfer_loop_file:
  assumes "length buf + length ts < n"
  shows "transfer_loop st to_json query n \<lparr>hg_buffer = buf, hg_source = Csv_file (concat (map to_csv_row ts))\<rparr>
      \<lparr>rx_dst = Console, rx_buffer = b, rx_done = d\<rparr> =
    (\<lparr>rx_dst = Console, rx_buffer = b, rx_done = d @ map Printed (rev buf @ batch_order ts)\<rparr>, Panicked)"
  using assms
proof (induction n arbitrary: buf ts d)
  case (Suc n)
  have step: "transfer_loop st to_json query (Suc n)
        \<lparr>hg_buffer = buf', hg_source = Csv_file (concat (map to_csv_row ts'))\<rparr>
        \<lparr>rx_dst = Console, rx_buffer = b, rx_done = d\<rparr> =
      (\<lparr>rx_dst = Console, rx_buffer = b, rx_done = d @ map Printed (rev buf' @ batch_order ts')\<rparr>, Panicked)"
    if ne: "buf' \<noteq> []" and le: "length buf' + length ts' < Suc n" for buf' ts'
  proof -
    obtain xs x where buf': "buf' = xs @ [x]" using ne by (cases buf' rule: rev_cases) auto
    then show ?thesis
      using le Suc.IH [of xs ts' "d @ [Printed x]"] by (subst transfer_loop_buffered) simp_all
  qed
  show ?case
  proof (cases "buf = []")
    case False
    then show ?thesis using step Suc.prems by blast
  next
    case True
    note nil = True
    show ?thesis
    proof (cases "batch_size \<le> length ts")
      case True
      have same: "transfer_loop st to_json query (Suc n)
          \<lparr>hg_buffer = [], hg_source = Csv_file (concat (map to_csv_row ts))\<rparr> cb =
        transfer_loop st to_json query (Suc n)
          \<lparr>hg_buffer = take batch_size ts, hg_source = Csv_file (concat (map to_csv_row (drop batch_size ts)))\<rparr> cb"
        for cb using True by (simp add: gen_next_file)
      have "take batch_size ts \<noteq> []" using True by (auto simp: batch_size_def)
      then show ?thesis
        unfolding nil same using step [of "take batch_size ts" "drop batch_size ts"] True Suc.prems
        by (simp add: batch_order.simps [of ts])
    next
      case False
      then show ?thesis by (simp add: nil gen_next_file batch_order.simps [of ts])
    qed
  qed
qed simp

text \<open>C32. Transferring a file: its first line is skipped as a header, and the other rows are
  delivered in batches of 500, each batch last row first. The rows after the last full
  batch are never delivered, and the transfer always ends in a panic, on parsing the empty
  line read at the end of the file.\<close>

theorem flatfile_transfer_order:
  assumes "open_file f = Some (header @ [CHR 0x0A] @ concat (map to_csv_row ts))"
    and "CHR 0x0A \<notin> set header" and "length ts < n"
  shows "transfer_data st to_json open_file query n (Flatfile f) Console =
    Some (\<lparr>rx_dst = Console, rx_buffer = [], rx_done = map Printed (batch_order ts)\<rparr>, Panicked)"
  using assms
  by (simp add: transfer_data_def get_tx_iterator_def flatfile_reader_new_def get_rx_closure_def
      read_line_row transfer_loop_file)

text \<open>The program writes no header, so of a file it has written the first tick is the one
  skipped.\<close>

theorem flatfile_transfer_order_witness:
  "transfer_data ex_storage to_csv_row (\<lambda>f. Some (csv_line tick_null @ [CHR 0x0A] @
      concat (map to_csv_row (replicate 3 tick_null)))) (\<lambda>q. Inr []) 7 (Flatfile ''t.csv'') Console =
    Some (\<lparr>rx_dst = Console, rx_buffer = [], rx_done = map Printed (batch_order (replicate 3 tick_null))\<rparr>, Panicked)"
  by (rule flatfile_transfer_order [where header = "csv_line tick_null"])
    (simp_all add: csv_line_newline del: replicate.simps)

text \<open>The database generator panics on the first row of a query that has one.\<close>

lemma postgres_rows_panic:
  "query (populate_query table_name 0) = Inr (row # rows) \<Longrightarrow>
    gen_next query \<lparr>hg_buffer = [], hg_source = Pg_table table_name 0\<rparr> = None"
  by (cases row) (simp add: gen_next_def populate_buffer_def)

end
