(* ===== verification/Tg_Backtester.thy ===== *)
theory Tg_Backtester
  imports Tg_SimClient Tg_Tickstream
begin

text \<open>
  The backtester (\<open>backtester/src/main.rs\<close> and \<open>backtest.rs\<close>): the commands it answers,
  the backtests and brokers it keeps, and the thread that feeds a backtest's ticks to its
  sink until an end condition is met. What the generator of a backtest sends is the
  business of the tickstreams; here it is a started job. Drawn uuids are arguments, JSON is
  a parameter, and the commands sent through a handle are listed oldest first.
\<close>

section \<open>Definitions of backtests\<close>

datatype backtest_type = Fast usize | Live

datatype data_source =
    Src_Flatfile
  | Src_RedisChannel string string
  | Src_Postgres
  | Src_Random

datatype data_dest =
    Dst_RedisChannel string string
  | Dst_Console
  | Dst_Null
  | Dst_SimBroker uuid

record backtest_definition =
  bd_start_time :: "u64 option"
  bd_max_timestamp :: "u64 option"
  bd_max_tick_n :: "usize option"
  bd_symbol :: string
  bd_backtest_type :: backtest_type
  bd_data_source :: data_source
  bd_data_dest :: data_dest
  bd_broker_settings :: sim_settings

record backtest_handle =
  bh_symbol :: string
  bh_backtest_type :: backtest_type
  bh_data_source :: data_source
  bh_endpoint :: data_dest
  bh_handle :: "tickstream_command list"

record serializable_handle =
  sh_uuid :: uuid
  sh_symbol :: string
  sh_backtest_type :: backtest_type
  sh_data_source :: data_source
  sh_endpoint :: data_dest

definition from_handle :: "backtest_handle \<Rightarrow> uuid \<Rightarrow> serializable_handle" where
  "from_handle handle u =
     \<lparr>sh_uuid = u, sh_symbol = bh_symbol handle, sh_backtest_type = bh_backtest_type handle,
      sh_data_source = bh_data_source handle, sh_endpoint = bh_endpoint handle\<rparr>"

section \<open>Feeding the sink\<close>

definition resolve_data_source :: "data_source \<Rightarrow> string \<Rightarrow> u64 option \<Rightarrow> tick_generator" where
  "resolve_data_source src symbol start_time =
     (case src of
        Src_Flatfile \<Rightarrow> FlatfileReader symbol start_time
      | Src_RedisChannel host channel \<Rightarrow> redis_reader_new symbol host channel
      | Src_Random \<Rightarrow> RandomReader
      | Src_Postgres \<Rightarrow> PostgresReader symbol start_time)"

definition check_early_exit :: "tick \<Rightarrow> backtest_definition \<Rightarrow> usize \<Rightarrow> bool" where
  "check_early_exit t def i \<longleftrightarrow>
     (case bd_max_tick_n def of None \<Rightarrow> False | Some n \<Rightarrow> n \<le> i) \<or>
     (case bd_max_timestamp def of None \<Rightarrow> False | Some ts \<Rightarrow> ts \<le> t_timestamp t)"

datatype feed_end = Early_exit | Stream_over

text \<open>
  The thread between the generator's stream and the sink: the ticks given to the sink, the
  number of stops sent back through the internal handle, and how the thread ended. An item
  of the stream is a tick (\<^term>\<open>Inr t\<close>) or an error.
\<close>

fun feed ::
  "backtest_definition \<Rightarrow> (unit + tick) list \<Rightarrow> usize \<Rightarrow> tick list \<times> nat \<times> feed_end" where
  "feed def [] i = ([], 0, Stream_over)"
| "feed def (Inr t # items) i =
     (let i' = i + 1
      in if check_early_exit t def i' then ([t], 0, Early_exit)
         else (case feed def items i' of (ts, stops, e) \<Rightarrow> (t # ts, stops, e)))"
| "feed def (Inl u # items) i =
     (case feed def items i of (ts, stops, e) \<Rightarrow> (ts, Suc stops, e))"

section \<open>The backtester\<close>

text \<open>A job is a generator read through a map into a sink.\<close>

record job =
  jb_uuid :: uuid
  jb_generator :: tick_generator
  jb_map :: tick_map
  jb_sink :: tick_sink
  jb_definition :: backtest_definition

record 'g backtester =
  bt_uuid :: uuid
  bt_backtests :: "(uuid, backtest_handle) hash_map"
  bt_simbrokers :: "(uuid, 'g sim_client) hash_map"
  bt_jobs :: "job list"
  bt_dying :: bool

definition backtester_new :: "uuid \<Rightarrow> 'g backtester" where
  "backtester_new u =
     \<lparr>bt_uuid = u, bt_backtests = hm_new, bt_simbrokers = hm_new, bt_jobs = [], bt_dying = False\<rparr>"

text \<open>Starting a simulated broker; \<open>streams\<close> and \<open>defs\<close> are what serde prints and parses.\<close>

definition init_simbroker ::
  "'g rng \<Rightarrow> 'g \<Rightarrow> string \<Rightarrow> (sim_settings \<Rightarrow> (string \<times> (string + (unit + tick) iter) \<times> bool \<times> nat) list option) \<Rightarrow>
     uuid \<Rightarrow> (string \<rightharpoonup> string) \<Rightarrow> 'g backtester \<Rightarrow> 'g backtester run" where
  "init_simbroker rng g streams defs u settings b = do {
     s \<leftarrow> settings_from_hashmap streams settings;
     r \<leftarrow> client_init rng g s (defs s);
     case r of
       Inl e \<Rightarrow> panic
     | Inr simbroker \<Rightarrow> ret (b\<lparr>bt_simbrokers := hm_insert u simbroker (bt_simbrokers b)\<rparr>)
   }"

definition start_backtest ::
  "uuid \<Rightarrow> backtest_definition \<Rightarrow> 'g backtester \<Rightarrow> (string + uuid) \<times> 'g backtester" where
  "start_backtest u def b =
     (let src = resolve_data_source (bd_data_source def) (bd_symbol def) (bd_start_time def);
          m = (case bd_backtest_type def of Fast delay_ms \<Rightarrow> FastMap delay_ms | Live \<Rightarrow> live_map_new);
          dst_opt = (case bd_data_dest def of
              Dst_RedisChannel host channel \<Rightarrow> Inr (RedisSink (bd_symbol def) channel)
            | Dst_Console \<Rightarrow> Inr ConsoleSink
            | Dst_Null \<Rightarrow> Inr NullSink
            | Dst_SimBroker su \<Rightarrow> Inl su);
          handle = \<lparr>bh_symbol = bd_symbol def, bh_backtest_type = bd_backtest_type def,
            bh_data_source = bd_data_source def, bh_endpoint = bd_data_dest def, bh_handle = []\<rparr>
      in case dst_opt of
           Inr dst \<Rightarrow>
             (Inr u, b\<lparr>bt_jobs := bt_jobs b @ [\<lparr>jb_uuid = u, jb_generator = src, jb_map = m, jb_sink = dst,
                         jb_definition = def\<rparr>],
                       bt_backtests := hm_insert u handle (bt_backtests b)\<rparr>)
         | Inl su \<Rightarrow>
             (case hm_get (bt_simbrokers b) su of
                None \<Rightarrow> (Inl ''No SimBroker running with that Uuid!'', b)
              | Some simbroker \<Rightarrow> (Inr u, b\<lparr>bt_backtests := hm_insert u handle (bt_backtests b)\<rparr>)))"

definition remove_backtest :: "uuid \<Rightarrow> 'g backtester \<Rightarrow> 'g backtester" where
  "remove_backtest u b = b\<lparr>bt_backtests := hm_remove u (bt_backtests b)\<rparr>"

text \<open>The listener behind a handle lives as long as the handle, so sending succeeds.\<close>

definition send_backtest_cmd ::
  "uuid \<Rightarrow> tickstream_command \<Rightarrow> 'g backtester \<Rightarrow> (unit + unit) \<times> 'g backtester" where
  "send_backtest_cmd u cmd b =
     (case hm_get (bt_backtests b) u of
        None \<Rightarrow> (Inl (), b)
      | Some h \<Rightarrow>
          (Inr (), b\<lparr>bt_backtests := hm_insert u (h\<lparr>bh_handle := bh_handle h @ [cmd]\<rparr>) (bt_backtests b)\<rparr>))"

section \<open>Commands\<close>

definition no_backtest :: string where
  "no_backtest = ''No backtest with that UUID!''"

text \<open>
  The outside of the command handler: the generator and parsers a new broker needs, the
  JSON forms, and how a uuid is printed.
\<close>

record 'g backtester_env =
  be_rng :: "'g rng"
  be_seed :: 'g
  be_streams :: string
  be_defs :: "sim_settings \<Rightarrow> (string \<times> (string + (unit + tick) iter) \<times> bool \<times> nat) list option"
  be_parse :: "string \<Rightarrow> string + backtest_definition"
  be_handles_json :: "serializable_handle list \<Rightarrow> string + string"
  be_uuids_json :: "string list \<Rightarrow> string"
  be_hyphenated :: "uuid \<Rightarrow> string"

definition backtest_answer :: "(unit + unit) \<Rightarrow> response" where
  "backtest_answer r = (case r of Inr u \<Rightarrow> Res_Ok | Inl u \<Rightarrow> Res_Error no_backtest)"

definition backtester_command ::
  "'g backtester_env \<Rightarrow> uuid \<Rightarrow> command \<Rightarrow> 'g backtester \<Rightarrow> (response option \<times> 'g backtester) run" where
  "backtester_command env u cmd b =
     (case cmd of
        Cmd_Ping \<Rightarrow> ret (Some (Res_Pong [be_hyphenated env (bt_uuid b)]), b)
      | Cmd_Type \<Rightarrow> ret (Some (Info ''Backtester''), b)
      | StartBacktest definition_str \<Rightarrow>
          (case be_parse env definition_str of
             Inl err_msg \<Rightarrow>
               ret (Some (Res_Error (''Can't parse backtest defition from String: '' @ err_msg)), b)
           | Inr def \<Rightarrow>
               (let (r, b') = start_backtest u def b
                in ret (Some (case r of Inr u' \<Rightarrow> Info (be_hyphenated env u') | Inl err \<Rightarrow> Res_Error err), b')))
      | Kill \<Rightarrow> ret (Some (Info ''Backtester will self-destruct in 3 seconds.''), b\<lparr>bt_dying := True\<rparr>)
      | PauseBacktest bu \<Rightarrow> (let (r, b') = send_backtest_cmd bu Pause b in ret (Some (backtest_answer r), b'))
      | ResumeBacktest bu \<Rightarrow> (let (r, b') = send_backtest_cmd bu Resume b in ret (Some (backtest_answer r), b'))
      | StopBacktest bu \<Rightarrow>
          (let (r, b') = send_backtest_cmd bu Stop b
           in ret (Some (backtest_answer r), case r of Inr _ \<Rightarrow> remove_backtest bu b' | Inl _ \<Rightarrow> b'))
      | ListBacktests \<Rightarrow>
          (case be_handles_json env (map (\<lambda>(bu, h). from_handle h bu) (bt_backtests b)) of
             Inr msg \<Rightarrow> ret (Some (Info msg), b)
           | Inl e \<Rightarrow> ret (Some (Res_Error (''Unable to convert backtest list into String: '' @ e)), b))
      | SpawnSimbroker settings \<Rightarrow> do {
          b' \<leftarrow> init_simbroker (be_rng env) (be_seed env) (be_streams env) (be_defs env) u settings b;
          ret (Some (Info (be_hyphenated env u)), b')
        }
      | ListSimbrokers \<Rightarrow>
          ret (Some (Info (be_uuids_json env (map (\<lambda>(su, s). be_hyphenated env su) (bt_simbrokers b)))), b)
      | _ \<Rightarrow> ret (Some (Res_Error ''Backtester doesn't recognize that command.''), b))"

section \<open>What a backtest delivers\<close>

lemma feed_spec:
  assumes "feed def (map Inr ts) i = (d, stops, e)"
  shows "stops = 0 \<and> (\<exists>us. ts = d @ us) \<and> (e = Stream_over \<longrightarrow> d = ts) \<and>
    (e = Early_exit \<longrightarrow> d \<noteq> [] \<and> check_early_exit (last d) def (i + of_nat (length d))) \<and>
    (\<forall>j. Suc j < length d \<longrightarrow> \<not> check_early_exit (d ! j) def (i + of_nat (Suc j)))"
  using assms
proof (induction ts arbitrary: i d stops e)
  case (Cons t ts)
  show ?case
  proof (cases "check_early_exit t def (i + 1)")
    case True
    with Cons.prems show ?thesis by auto
  next
    case False
    obtain d' stops' e' where rest: "feed def (map Inr ts) (i + 1) = (d', stops', e')"
      by (metis prod_cases3)
    with Cons.prems False have d: "d = t # d'" "stops = stops'" "e = e'" by simp_all
    note IH = Cons.IH [OF rest]
    have "\<not> check_early_exit (d ! j) def (i + of_nat (Suc j))" if j: "Suc j < length d" for j
    proof (cases j)
      case 0
      with False d show ?thesis by simp
    next
      case (Suc j')
      with IH j d have "\<not> check_early_exit (d' ! j') def (i + 1 + of_nat (Suc j'))" by auto
      with Suc d show ?thesis by (simp add: algebra_simps)
    qed
    with IH d show ?thesis by (auto simp: algebra_simps)
  qed
qed simp

text \<open>C33. Whatever commands arrive while a backtest runs, its sink gets, in order and from the
  start, the ticks its map lets through; at most \<open>max_tick_n\<close> of them (one if that is zero),
  and none after the first that reaches \<open>max_timestamp\<close>. It gets all that was sent unless
  one of these conditions ended it.\<close>

theorem backtest_bounds:
  assumes "(reader_step mapped)\<^sup>*\<^sup>* (reader_new w m src) r"
    and "feed def (map Inr (rr_sent r)) 0 = (d, stops, e)"
  shows "\<exists>ts us. src = map Some ts @ rr_src r \<and> send_all mapped m ts = d @ us \<and>
    (e = Stream_over \<longrightarrow> us = []) \<and>
    (e = Early_exit \<longrightarrow> d \<noteq> [] \<and> check_early_exit (last d) def (of_nat (length d))) \<and>
    (\<forall>n. bd_max_tick_n def = Some n \<longrightarrow> length d \<le> max 1 (unat n)) \<and>
    (\<forall>s. bd_max_timestamp def = Some s \<longrightarrow> (\<forall>t\<in>set (butlast d). t_timestamp t < s))"
proof -
  obtain ts where ts: "src = map Some ts @ rr_src r" "rr_sent r = send_all mapped m ts"
    using reading.run_inv [OF assms(1) reader_inv_new] by (auto simp: reader_inv_def)
  have spec: "\<exists>us. rr_sent r = d @ us" "e = Stream_over \<longrightarrow> d = rr_sent r"
      "e = Early_exit \<longrightarrow> d \<noteq> [] \<and> check_early_exit (last d) def (of_nat (length d))"
      "\<forall>j. Suc j < length d \<longrightarrow> \<not> check_early_exit (d ! j) def (of_nat (Suc j))"
    using feed_spec [OF assms(2)] by simp_all
  have "length d \<le> max 1 (unat n)" if n: "bd_max_tick_n def = Some n" for n
  proof (rule ccontr)
    assume "\<not> length d \<le> max 1 (unat n)"
    then have long: "1 < length d" "unat n < length d" by simp_all
    show False
    proof (cases "unat n")
      case 0
      from long(1) spec(4) have "\<not> check_early_exit (d ! 0) def (of_nat (Suc 0))" by auto
      with 0 n show False by (simp add: check_early_exit_def word_le_nat_alt)
    next
      case (Suc k)
      with long(2) have "\<not> check_early_exit (d ! k) def (of_nat (unat n))" using spec(4) by metis
      with n show False by (simp add: check_early_exit_def)
    qed
  qed
  moreover have "t_timestamp t < s" if s: "bd_max_timestamp def = Some s" and t: "t \<in> set (butlast d)" for s t
  proof -
    obtain j where "j < length (butlast d)" "t = butlast d ! j" using t by (metis in_set_conv_nth)
    then have "Suc j < length d" "t = d ! j" by (simp_all add: nth_butlast)
    with spec(4) s show ?thesis by (auto simp: check_early_exit_def)
  qed
  ultimately show ?thesis using spec(1-3) ts by auto
qed

definition ex_backtest :: backtest_definition where
  "ex_backtest = \<lparr>bd_start_time = None, bd_max_timestamp = Some 9, bd_max_tick_n = Some 3, bd_symbol = ''TEST'',
     bd_backtest_type = Fast 0, bd_data_source = Src_Random, bd_data_dest = Dst_Null,
     bd_broker_settings = settings_default []\<rparr>"

definition ex_reader :: reader where
  "ex_reader = emit True (get_rand_tick 50 1 1) (reader_new Working NullMap ex_source)"

lemma ex_reader_run: "(reader_step True)\<^sup>*\<^sup>* (reader_new Working NullMap ex_source) ex_reader"
  by (intro r_into_rtranclp reader_works)
    (simp add: ex_reader_def reader_turn_def reader_new_def control_new_def ex_source_def check_mail_def emit_def)

theorem backtest_bounds_witness:
  "\<exists>ts us. ex_source = map Some ts @ rr_src ex_reader \<and>
    send_all True NullMap ts = [get_rand_tick 50 1 1] @ us \<and> us = []"
proof -
  have "feed ex_backtest (map Inr (rr_sent ex_reader)) 0 = ([get_rand_tick 50 1 1], 0, Stream_over)"
    by (simp add: ex_reader_def emit_def reader_new_def sent_of_def check_early_exit_def ex_backtest_def
        get_rand_tick_def word_le_nat_alt)
  from backtest_bounds [OF ex_reader_run this] show ?thesis by auto
qed

text \<open>Stopping a backtest is answered with success and removes its handle, after which no
  command reaches it any more. The removal does not wait for the reader: one that is parked
  by a pause does not see the stop, has no further step of its own, and can no longer be
  resumed.\<close>

lemma stop_orphans_paused:
  assumes "hm_get (bt_backtests b) u = Some h"
  shows "\<exists>b'. backtester_command env v (StopBacktest u) b = Some (Some Res_Ok, b') \<and>
    hm_get (bt_backtests b') u = None \<and> bt_jobs b' = bt_jobs b \<and>
    (\<forall>cmd. send_backtest_cmd u cmd b' = (Inl (), b')) \<and>
    (\<forall>w. backtester_command env w (ResumeBacktest u) b' = Some (Some (Res_Error no_backtest), b')) \<and>
    (\<forall>r. c_worker (rr_ctl r) = Parked \<longrightarrow>
      reader_turn mapped (r\<lparr>rr_ctl := listener Stop (rr_ctl r)\<rparr>) = None)"
  using assms
  by (auto simp: backtester_command_def send_backtest_cmd_def remove_backtest_def backtest_answer_def
      hm.get_del reader_turn_def split: list.splits option.splits)

definition ex_env :: "nat backtester_env" where
  "ex_env = \<lparr>be_rng = (\<lambda>g lo hi. (lo, g)), be_seed = 0, be_streams = [], be_defs = (\<lambda>s. None),
     be_parse = (\<lambda>s. Inr ex_backtest), be_handles_json = (\<lambda>hs. Inr []), be_uuids_json = (\<lambda>us. []),
     be_hyphenated = show_word\<rparr>"

lemma stop_orphans_paused_witness:
  "\<exists>b'. backtester_command ex_env 4 (StopBacktest 3) (snd (start_backtest 3 ex_backtest (backtester_new 1))) =
      Some (Some Res_Ok, b') \<and>
    hm_get (bt_backtests b') 3 = None \<and> length (bt_jobs b') = 1 \<and>
    reader_turn True (ex_paused\<lparr>rr_ctl := listener Stop (rr_ctl ex_paused)\<rparr>) = None"
proof -
  let ?b = "snd (start_backtest 3 ex_backtest (backtester_new 1)) :: nat backtester"
  have "\<exists>h. hm_get (bt_backtests ?b) 3 = Some h" "length (bt_jobs ?b) = 1"
    by (simp_all add: start_backtest_def ex_backtest_def backtester_new_def Let_def)
  moreover have "c_worker (rr_ctl ex_paused) = Parked"
    by (simp add: ex_paused_def reader_new_def control_new_def)
  ultimately show ?thesis using stop_orphans_paused [of ?b 3 _ ex_env 4 True] by fastforce
qed

section \<open>The backtester as a module\<close>

interpretation backtesting: platform_module "backtester_command env" "\<lambda>b. be_hyphenated env (bt_uuid b)"
  by unfold_locales (simp_all add: backtester_command_def)

end
