(* ===== verification/Tg_Documents.thy ===== *)
theory Tg_Documents
  imports Tg_Text Tg_Commands
begin

text \<open>
  The document store of the spawner (\<open>spawner/src/documents.rs\<close>): a document is stored as
  six text fields, in the index and, when it is new, in a file of its own; queries return
  the documents found as JSON. The search engine, JSON, the printing and parsing of uuids
  and the file system are parameters. Strings are ASCII, so white space is ASCII's.
\<close>

section \<open>White space\<close>

definition is_space :: "char \<Rightarrow> bool" where
  "is_space c \<longleftrightarrow> c \<in> {CHR '' '', CHR 0x09, CHR 0x0A, CHR 0x0B, CHR 0x0C, CHR 0x0D}"

definition trim :: "string \<Rightarrow> string" where
  "trim s = rev (dropWhile is_space (rev (dropWhile is_space s)))"

fun words_from :: "string \<Rightarrow> string \<Rightarrow> string list" where
  "words_from cur [] = (if cur = [] then [] else [cur])"
| "words_from cur (c # cs) =
     (if is_space c then (if cur = [] then [] else [cur]) @ words_from [] cs else words_from (cur @ [c]) cs)"

definition split_whitespace :: "string \<Rightarrow> string list" where
  "split_whitespace s = words_from [] s"

section \<open>Documents in the index\<close>

datatype query_type = BasicMatch | TitleMatch

record stored_doc =
  fd_title :: string
  fd_body :: string
  fd_tags :: string
  fd_creation_date :: string
  fd_modification_date :: string
  fd_id :: string

definition doc_of :: "(uuid \<Rightarrow> string) \<Rightarrow> src_document \<Rightarrow> stored_doc" where
  "doc_of hyphenated d =
     \<lparr>fd_title = sd_title d, fd_body = sd_body d, fd_tags = join_str '' '' (sd_tags d),
      fd_creation_date = sd_creation_date d, fd_modification_date = sd_modification_date d,
      fd_id = hyphenated (sd_id d)\<rparr>"

definition src_doc_of :: "(string \<Rightarrow> uuid option) \<Rightarrow> stored_doc \<Rightarrow> src_document run" where
  "src_doc_of parse_uuid f = do {
     u \<leftarrow> parse_uuid (fd_id f);
     ret \<lparr>sd_title = fd_title f, sd_body = fd_body f, sd_tags = split_whitespace (fd_tags f),
          sd_creation_date = fd_creation_date f, sd_modification_date = fd_modification_date f, sd_id = u\<rparr>
   }"

text \<open>
  The outside: JSON of documents (compact, and pretty for the files), uuids, writing a file,
  committing the index, and the search for at most \<open>n\<close> documents.
\<close>

record store_env =
  se_from_json :: "string \<Rightarrow> string + src_document"
  se_to_json :: "src_document \<Rightarrow> string option"
  se_pretty :: "src_document \<Rightarrow> string option"
  se_hyphenated :: "uuid \<Rightarrow> string"
  se_parse_uuid :: "string \<Rightarrow> uuid option"
  se_writable :: "string \<Rightarrow> bool"
  se_commit :: "stored_doc list \<Rightarrow> string + unit"
  se_search :: "stored_doc list \<Rightarrow> query_type \<Rightarrow> string \<Rightarrow> nat \<Rightarrow> string + stored_doc list"

record doc_store =
  ds_index :: "stored_doc list"
  ds_files :: "(string \<times> string) list"

text \<open>A failure to write the file is only logged; without JSON the file created stays empty.\<close>

definition write_document :: "store_env \<Rightarrow> src_document \<Rightarrow> doc_store \<Rightarrow> doc_store" where
  "write_document env src_doc st =
     (let name = se_hyphenated env (sd_id src_doc) @ ''.json''
      in if se_writable env name
         then st\<lparr>ds_files := ds_files st @
           [(name, case se_pretty env src_doc of Some json \<Rightarrow> json | None \<Rightarrow> [])]\<rparr>
         else st)"

definition insert_document ::
  "store_env \<Rightarrow> string \<Rightarrow> bool \<Rightarrow> doc_store \<Rightarrow> (string + unit) \<times> doc_store" where
  "insert_document env doc_str is_new st =
     (case se_from_json env doc_str of
        Inl err \<Rightarrow> (Inl (''Unable to parse string into `SrcDocument`: '' @ doc_str @ '', '' @ err), st)
      | Inr src_doc \<Rightarrow>
          (let st1 = (if is_new then write_document env src_doc st else st);
               index = ds_index st1 @ [doc_of (se_hyphenated env) src_doc]
           in (se_commit env index, st1\<lparr>ds_index := index\<rparr>)))"

text \<open>The documents found, as JSON.\<close>

fun result_strings :: "store_env \<Rightarrow> stored_doc list \<Rightarrow> string list run" where
  "result_strings env [] = ret []"
| "result_strings env (f # fs) = do {
     d \<leftarrow> src_doc_of (se_parse_uuid env) f;
     json \<leftarrow> se_to_json env d;
     rest \<leftarrow> result_strings env fs;
     ret (json # rest)
   }"

definition query_document ::
  "store_env \<Rightarrow> string \<Rightarrow> query_type \<Rightarrow> nat \<Rightarrow> doc_store \<Rightarrow> (string + string list) run" where
  "query_document env raw_query qt n_results st =
     (case se_search env (ds_index st) qt (trim raw_query) n_results of
        Inl err \<Rightarrow> ret (Inl err)
      | Inr docs \<Rightarrow> map_option Inr (result_strings env docs))"

section \<open>The server\<close>

definition exec_query_response ::
  "store_env \<Rightarrow> string \<Rightarrow> query_type \<Rightarrow> doc_store \<Rightarrow> response run" where
  "exec_query_response env query qt st = do {
     r \<leftarrow> query_document env query qt 50 st;
     case r of
       Inl err \<Rightarrow> ret (Res_Error (''Got error while executing query: '' @ err))
     | Inr res_vec \<Rightarrow>
         (case qt of
            TitleMatch \<Rightarrow>
              (case res_vec of
                 [] \<Rightarrow> ret (Res_Error (''No documents matched the title '' @ query))
               | json # _ \<Rightarrow>
                   (case se_from_json env json of Inr doc \<Rightarrow> ret (Document doc) | Inl err \<Rightarrow> panic))
          | BasicMatch \<Rightarrow> ret (DocumentQueryResult res_vec))
   }"

definition insert_doc_response :: "string + unit \<Rightarrow> response" where
  "insert_doc_response r =
     (case r of
        Inr u \<Rightarrow> Res_Ok
      | Inl err \<Rightarrow> Res_Error (''Unable to insert document into the store: '' @ err))"

text \<open>
  A request carries the number of the oneshot its answer is sent through; \<open>waiting\<close> tells
  whether its receiver still exists. Two requests can arrive together.
\<close>

datatype store_item =
    First string query_type nat
  | Second string nat
  | Both string query_type nat string nat

definition answer :: "(nat \<Rightarrow> bool) \<Rightarrow> nat \<Rightarrow> response \<Rightarrow> (nat \<times> response) list" where
  "answer waiting c r = (if waiting c then [(c, r)] else [])"

fun server_item ::
  "store_env \<Rightarrow> (nat \<Rightarrow> bool) \<Rightarrow> store_item \<Rightarrow> doc_store \<Rightarrow> ((nat \<times> response) list \<times> doc_store) run" where
  "server_item env waiting (First query qt c) st = do {
     r \<leftarrow> exec_query_response env query qt st;
     ret (answer waiting c r, st)
   }"
| "server_item env waiting (Second doc c) st =
     (let (r, st') = insert_document env doc True st
      in ret (answer waiting c (insert_doc_response r), st'))"
| "server_item env waiting (Both query qt qc doc ic) st = do {
     r \<leftarrow> exec_query_response env query qt st;
     if \<not> waiting qc then ret ([], st)
     else (let (ri, st') = insert_document env doc True st
           in ret (answer waiting qc r @ answer waiting ic (insert_doc_response ri), st'))
   }"

text \<open>
  Filling a new store from the directories: each entry is an error or a file with its
  extension and contents (or the failure to read it); only JSON files are inserted.
\<close>

definition lower_char :: "char \<Rightarrow> char" where
  "lower_char c = (let n = of_char c :: nat in if 65 \<le> n \<and> n \<le> 90 then char_of (n + 32) else c)"

fun load_docs :: "store_env \<Rightarrow> (string option \<times> string option) option list \<Rightarrow> doc_store \<Rightarrow> doc_store" where
  "load_docs env [] st = st"
| "load_docs env (entry # entries) st =
     (case entry of
        Some (Some ext, Some contents) \<Rightarrow>
          if map lower_char ext = ''json'' then load_docs env entries (snd (insert_document env contents False st))
          else load_docs env entries st
      | _ \<Rightarrow> load_docs env entries st)"

definition load_static_docs ::
  "store_env \<Rightarrow> (string option \<times> string option) option list option \<Rightarrow>
     (string option \<times> string option) option list option \<Rightarrow> doc_store \<Rightarrow> doc_store" where
  "load_static_docs env ref_entries user_entries st =
     (case ref_entries of
        None \<Rightarrow> st
      | Some rs \<Rightarrow> (case user_entries of None \<Rightarrow> st | Some us \<Rightarrow> load_docs env (rs @ us) st))"

text \<open>
  The thread of the server: a new store is filled, then the requests are served in the order
  in which the two streams are merged. An asker that has gone is only logged.
\<close>

fun server_run ::
  "store_env \<Rightarrow> (nat \<Rightarrow> bool) \<Rightarrow> store_item list \<Rightarrow> doc_store \<Rightarrow> ((nat \<times> response) list \<times> doc_store) run" where
  "server_run env waiting [] st = ret ([], st)"
| "server_run env waiting (item # items) st = do {
     (res, st1) \<leftarrow> server_item env waiting item st;
     (rest, st2) \<leftarrow> server_run env waiting items st1;
     ret (res @ rest, st2)
   }"

definition init_server_thread ::
  "store_env \<Rightarrow> bool \<Rightarrow> (string option \<times> string option) option list option \<Rightarrow>
     (string option \<times> string option) option list option \<Rightarrow> (nat \<Rightarrow> bool) \<Rightarrow> store_item list \<Rightarrow> doc_store \<Rightarrow>
     ((nat \<times> response) list \<times> doc_store) run" where
  "init_server_thread env is_new ref_entries user_entries waiting items st =
     server_run env waiting items (if is_new then load_static_docs env ref_entries user_entries st else st)"

text \<open>Documents are never taken out of the index.\<close>

lemma insert_document_grows: "\<exists>ds. ds_index (snd (insert_document env doc n st)) = ds_index st @ ds"
  by (auto simp: insert_document_def write_document_def Let_def split: sum.split)

lemma server_item_grows:
  "server_item env waiting item st = Some (res, st') \<Longrightarrow> \<exists>ds. ds_index st' = ds_index st @ ds"
  using insert_document_grows [of env _ True st]
  by (cases item) (auto simp: bind_Some_iff split: prod.splits if_splits, (metis snd_conv)+)

lemma server_run_grows:
  "server_run env waiting items st = Some (res, st') \<Longrightarrow> \<exists>ds. ds_index st' = ds_index st @ ds"
proof (induction items arbitrary: st res)
  case (Cons item items)
  then obtain r1 st1 r2 where s: "server_item env waiting item st = Some (r1, st1)"
    "server_run env waiting items st1 = Some (r2, st')"
    by (auto simp: bind_Some_iff)
  from server_item_grows [OF s(1)] Cons.IH [OF s(2)] show ?case by auto
qed simp

text \<open>
  The start of the store: which of its directories exist, what happens when they are created,
  and the index that is created or opened. The listings are missing when their directory
  is. A lock file that is left over is deleted, and a failure to do so only logged.
\<close>

record store_start =
  ss_index_dir :: bool
  ss_user_dir :: bool
  ss_create_dir :: "string \<Rightarrow> string + unit"
  ss_create_index :: "string + unit"
  ss_open_index :: "string + stored_doc list"
  ss_reference :: "(string option \<times> string option) option list option"
  ss_user :: "(string option \<times> string option) option list option"

definition init_store_handle :: "store_env \<Rightarrow> string \<Rightarrow> store_start \<Rightarrow> string + doc_store" where
  "init_store_handle env data_dir s =
     (let empty_store = \<lparr>ds_index = [], ds_files = []\<rparr>
      in if \<not> ss_index_dir s
         then (case ss_create_dir s (data_dir @ ''/documents/tantivy_index'') of
                 Inl e \<Rightarrow> Inl e
               | Inr u \<Rightarrow>
                   (case ss_create_index s of
                      Inl e \<Rightarrow> Inl e
                    | Inr u \<Rightarrow> Inr (load_static_docs env (ss_reference s) (ss_user s) empty_store)))
         else (case (if ss_user_dir s then Inr () else ss_create_dir s (data_dir @ ''/documents/user_documents'')) of
                 Inl e \<Rightarrow> Inl e
               | Inr u \<Rightarrow>
                   (case ss_open_index s of
                      Inl e \<Rightarrow> Inl e
                    | Inr docs \<Rightarrow> Inr (empty_store\<lparr>ds_index := docs\<rparr>))))"

text \<open>
  The directory of the users' documents is only created when the index exists already, and
  the listings are only read when it does not: a store started for the first time stays
  empty, without the reference documents, and so does every later one.
\<close>

lemma new_store_stays_empty:
  assumes "\<not> ss_index_dir s" and "ss_user s = None" and "init_store_handle env data_dir s = Inr st"
  shows "ds_index st = []"
  using assms by (auto simp: init_store_handle_def load_static_docs_def split: sum.splits option.splits)

section \<open>Tags\<close>

definition plain_tag :: "string \<Rightarrow> bool" where
  "plain_tag t \<longleftrightarrow> t \<noteq> [] \<and> (\<forall>c\<in>set t. \<not> is_space c)"

lemma words_from_word: "\<forall>c\<in>set w. \<not> is_space c \<Longrightarrow> words_from cur (w @ s) = words_from (cur @ w) s"
  by (induction w arbitrary: cur) auto

lemma split_join:
  assumes "\<forall>t\<in>set ts. plain_tag t"
  shows "split_whitespace (join_str '' '' ts) = ts"
  using assms unfolding split_whitespace_def
proof (induction ts rule: join_str.induct [of "\<lambda>_ ts. _ ts" "'' ''", case_names Nil One More])
  case (One sep t)
  then show ?case using words_from_word [of t "[]" "[]"] by (simp add: plain_tag_def)
next
  case (More sep t u us)
  then show ?case
    using words_from_word [of t "[]" "CHR '' '' # join_str '' '' (u # us)"]
    by (simp add: plain_tag_def is_space_def)
qed simp

text \<open>A document is read back from the index as it was, if its tags are words.\<close>

lemma document_roundtrip:
  assumes "\<forall>t\<in>set (sd_tags d). plain_tag t" and "parse_uuid (hyphenated (sd_id d)) = Some (sd_id d)"
  shows "src_doc_of parse_uuid (doc_of hyphenated d) = Some d"
  using assms by (simp add: src_doc_of_def doc_of_def split_join)

text \<open>An insertion that arrives together with a query whose asker has gone is dropped.\<close>

lemma insertion_dropped:
  "\<not> waiting qc \<Longrightarrow> exec_query_response env query qt st = Some r \<Longrightarrow>
    server_item env waiting (Both query qt qc doc ic) st = Some ([], st)"
  by simp

end
