(* ===== verification/Tg_Spawner.thy ===== *)
theory Tg_Spawner
  imports Tg_Documents
begin

text \<open>
  The spawner (\<open>spawner/src/main.rs\<close>): the list of the instances it thinks are alive, the
  commands it answers, the processes it starts and the heartbeat that looks for instances
  that have died. Processes and messages sent are listed in the state; starting a process,
  JSON, the printing of uuids and the answers of other instances are parameters.
\<close>

section \<open>State\<close>

record spawner =
  sp_uuid :: uuid
  sp_living :: "instance_id list"
  sp_started :: "string list list"
  sp_killed :: "string list"
  sp_dying :: bool

definition spawner_new :: "uuid \<Rightarrow> spawner" where
  "spawner_new our_uuid =
     \<lparr>sp_uuid = our_uuid, sp_living = [], sp_started = [], sp_killed = [], sp_dying = False\<rparr>"

record spawner_env =
  pe_hyphenated :: "uuid \<Rightarrow> string"
  pe_instance_json :: "instance_id \<Rightarrow> string + string"
  pe_debug_command :: "command \<Rightarrow> string"
  pe_start :: "string list \<Rightarrow> string + unit"
  pe_node_binary_path :: string

section \<open>The list of living instances\<close>

definition add_instance :: "instance_id \<Rightarrow> spawner \<Rightarrow> spawner" where
  "add_instance inst sp = sp\<lparr>sp_living := sp_living sp @ [inst]\<rparr>"

text \<open>The index found is the last one with the uuid.\<close>

fun last_index :: "uuid \<Rightarrow> nat \<Rightarrow> instance_id list \<Rightarrow> nat option \<Rightarrow> nat option" where
  "last_index u i [] found = found"
| "last_index u i (inst # insts) found =
     last_index u (Suc i) insts (if in_uuid inst = u then Some i else found)"

definition remove_instance :: "uuid \<Rightarrow> spawner \<Rightarrow> spawner" where
  "remove_instance u sp =
     (case last_index u 0 (sp_living sp) None of
        None \<Rightarrow> sp
      | Some i \<Rightarrow> sp\<lparr>sp_living := remove_nth i (sp_living sp)\<rparr>)"

fun census_partials :: "(instance_id \<Rightarrow> string + string) \<Rightarrow> instance_id list \<Rightarrow> string + string list" where
  "census_partials to_json [] = Inr []"
| "census_partials to_json (inst # insts) =
     (case to_json inst of
        Inl e \<Rightarrow> Inl e
      | Inr ser \<Rightarrow>
          (case census_partials to_json insts of Inl e \<Rightarrow> Inl e | Inr sers \<Rightarrow> Inr (ser # sers)))"

definition census :: "spawner_env \<Rightarrow> spawner \<Rightarrow> response" where
  "census env sp =
     (case census_partials (pe_instance_json env) (sp_living sp) of
        Inl e \<Rightarrow> Res_Error (''Error serializing instance: '' @ e)
      | Inr partials \<Rightarrow> Info (''['' @ join_str '', '' partials @ '']''))"

text \<open>Every living instance is sent a kill, and the list is emptied.\<close>

definition kill_all :: "spawner_env \<Rightarrow> spawner \<Rightarrow> response \<times> spawner" where
  "kill_all env sp =
     (Res_Ok, sp\<lparr>sp_killed := sp_killed sp @ map (pe_hyphenated env \<circ> in_uuid) (sp_living sp), sp_living := []\<rparr>)"

section \<open>Starting modules\<close>

text \<open>A module of the platform has to start; a script of node may fail to.\<close>

definition spawn_module :: "spawner_env \<Rightarrow> string list \<Rightarrow> spawner \<Rightarrow> (response \<times> spawner) run" where
  "spawn_module env args sp =
     (case pe_start env args of
        Inl err \<Rightarrow> panic
      | Inr u \<Rightarrow> ret (Res_Ok, sp\<lparr>sp_started := sp_started sp @ [args]\<rparr>))"

definition spawn_script :: "spawner_env \<Rightarrow> string \<Rightarrow> string list \<Rightarrow> spawner \<Rightarrow> response \<times> spawner" where
  "spawn_script env what args sp =
     (case pe_start env (pe_node_binary_path env # args) of
        Inl err \<Rightarrow> (Res_Error (''Error while attempting to spawn '' @ what @ '': '' @ err), sp)
      | Inr u \<Rightarrow> (Res_Ok, sp\<lparr>sp_started := sp_started sp @ [pe_node_binary_path env # args]\<rparr>))"

definition spawn_logger :: "spawner_env \<Rightarrow> uuid \<Rightarrow> spawner \<Rightarrow> (response \<times> spawner) run" where
  "spawn_logger env mod_uuid = spawn_module env [''./logger'', pe_hyphenated env mod_uuid]"

definition spawn_tick_parser :: "spawner_env \<Rightarrow> uuid \<Rightarrow> string \<Rightarrow> spawner \<Rightarrow> (response \<times> spawner) run" where
  "spawn_tick_parser env mod_uuid symbol =
     spawn_module env [''./tick_processor'', pe_hyphenated env mod_uuid, symbol]"

definition spawn_optimizer :: "spawner_env \<Rightarrow> uuid \<Rightarrow> string \<Rightarrow> spawner \<Rightarrow> (response \<times> spawner) run" where
  "spawn_optimizer env mod_uuid strategy =
     spawn_module env [''./optimizer'', pe_hyphenated env mod_uuid, strategy]"

definition spawn_backtester :: "spawner_env \<Rightarrow> uuid \<Rightarrow> spawner \<Rightarrow> (response \<times> spawner) run" where
  "spawn_backtester env mod_uuid = spawn_module env [''./backtester'', pe_hyphenated env mod_uuid]"

definition spawn_fxcm_dd :: "spawner_env \<Rightarrow> uuid \<Rightarrow> spawner \<Rightarrow> (response \<times> spawner) run" where
  "spawn_fxcm_dd env mod_uuid = spawn_module env [''./fxcm_native_downloader'', pe_hyphenated env mod_uuid]"

definition spawn_fxcm_flatfile_dd :: "spawner_env \<Rightarrow> uuid \<Rightarrow> spawner \<Rightarrow> (response \<times> spawner) run" where
  "spawn_fxcm_flatfile_dd env mod_uuid =
     spawn_module env [''./fxcm_flatfile_downloader'', pe_hyphenated env mod_uuid]"

definition spawn_iex_dd :: "spawner_env \<Rightarrow> uuid \<Rightarrow> spawner \<Rightarrow> response \<times> spawner" where
  "spawn_iex_dd env mod_uuid =
     spawn_script env ''IEX Data Downloader'' [''./iex_dd/iex.js'', pe_hyphenated env mod_uuid]"

definition spawn_poloniex_dd :: "spawner_env \<Rightarrow> uuid \<Rightarrow> spawner \<Rightarrow> response \<times> spawner" where
  "spawn_poloniex_dd env mod_uuid =
     spawn_script env ''Poloniex Data Downloader'' [''./poloniex_dd/index.js'', pe_hyphenated env mod_uuid]"

section \<open>Commands\<close>

text \<open>
  A command is answered at once, handed to the document store, which answers it, or dropped
  without an answer. \<open>u\<close> is the uuid drawn for a new module.
\<close>

datatype store_request = Insert_doc string | Run_query string query_type

datatype reaction = Reply response | To_store store_request | No_reply

definition spawner_command :: "spawner_env \<Rightarrow> uuid \<Rightarrow> command \<Rightarrow> spawner \<Rightarrow> (reaction \<times> spawner) run" where
  "spawner_command env u cmd sp =
     (case cmd of
        Cmd_Ping \<Rightarrow> ret (Reply (Res_Pong [pe_hyphenated env (sp_uuid sp)]), sp)
      | Kill \<Rightarrow> ret (Reply (Info ''Shutting down in 3 seconds...''), sp\<lparr>sp_dying := True\<rparr>)
      | Cmd_Type \<Rightarrow> ret (Reply (Info ''Spawner''), sp)
      | Ready instance_type iu \<Rightarrow>
          ret (Reply Res_Ok, add_instance \<lparr>in_type = instance_type, in_uuid = iu\<rparr> sp)
      | KillAllInstances \<Rightarrow> ret (map_prod Reply id (kill_all env sp))
      | Census \<Rightarrow> ret (Reply (census env sp), sp)
      | SpawnOptimizer strategy \<Rightarrow> map_option (map_prod Reply id) (spawn_optimizer env u strategy sp)
      | SpawnTickParser symbol \<Rightarrow> map_option (map_prod Reply id) (spawn_tick_parser env u symbol sp)
      | SpawnBacktester \<Rightarrow> map_option (map_prod Reply id) (spawn_backtester env u sp)
      | InsertIntoDocumentStore doc \<Rightarrow> ret (To_store (Insert_doc doc), sp)
      | QueryDocumentStore query \<Rightarrow>
          (if length (split_whitespace query) = 0 then ret (No_reply, sp)
           else ret (To_store (Run_query query BasicMatch), sp))
      | GetDocument title \<Rightarrow> ret (To_store (Run_query title TitleMatch), sp)
      | SpawnFxcmFlatfileDataDownloader \<Rightarrow> map_option (map_prod Reply id) (spawn_fxcm_flatfile_dd env u sp)
      | SpawnFxcmNativeDataDownloader \<Rightarrow> map_option (map_prod Reply id) (spawn_fxcm_dd env u sp)
      | SpawnIexDataDownloader \<Rightarrow> ret (map_prod Reply id (spawn_iex_dd env u sp))
      | SpawnPoloniexDataDownloader \<Rightarrow> ret (map_prod Reply id (spawn_poloniex_dd env u sp))
      | _ \<Rightarrow> ret (Reply (Res_Error (''Command not accepted by the instance spawner: '' @
               pe_debug_command env cmd)), sp))"

text \<open>
  The loop over arriving commands. The answer of the store may fail to come (the oneshot is
  dropped), and then nothing is published; a message that is no command is skipped. Each
  message comes with the uuid a new module would get.
\<close>

fun spawner_listen ::
  "spawner_env \<Rightarrow> (string \<Rightarrow> wrapped_command option) \<Rightarrow> (store_request \<Rightarrow> response option) \<Rightarrow>
     (string \<times> uuid) list \<Rightarrow> spawner \<Rightarrow> (wrapped_response list \<times> spawner) run" where
  "spawner_listen env from_json store [] sp = ret ([], sp)"
| "spawner_listen env from_json store ((cmd_string, u) # msgs) sp =
     (case from_json cmd_string of
        None \<Rightarrow> spawner_listen env from_json store msgs sp
      | Some wr_cmd \<Rightarrow> do {
          (r, sp') \<leftarrow> spawner_command env u (wc_cmd wr_cmd) sp;
          (out, sp'') \<leftarrow> spawner_listen env from_json store msgs sp';
          let status = (case r of Reply res \<Rightarrow> Some res | To_store req \<Rightarrow> store req | No_reply \<Rightarrow> None);
          ret ((case status of None \<Rightarrow> [] | Some res \<Rightarrow> [response_wrap res (wc_uuid wr_cmd)]) @ out, sp'')
        })"

section \<open>The heartbeat\<close>

fun pong_from :: "string \<Rightarrow> response list \<Rightarrow> bool" where
  "pong_from name [] = False"
| "pong_from name (res # responses) =
     (case res of
        Res_Pong args \<Rightarrow>
          (case args of
             [] \<Rightarrow> pong_from name responses
           | arg # _ \<Rightarrow> if name = arg then True else pong_from name responses)
      | _ \<Rightarrow> pong_from name responses)"

fun get_missing_instance :: "(uuid \<Rightarrow> string) \<Rightarrow> response list \<Rightarrow> instance_id list \<Rightarrow> instance_id option" where
  "get_missing_instance hyphenated responses [] = None"
| "get_missing_instance hyphenated responses (inst # insts) =
     (if pong_from (hyphenated (in_uuid inst)) responses
      then get_missing_instance hyphenated responses insts else Some inst)"

text \<open>One round: the answers to the ping, and what a missing instance answers when asked its type.\<close>

definition heartbeat ::
  "spawner_env \<Rightarrow> response list \<Rightarrow> (instance_id \<Rightarrow> response option) \<Rightarrow> spawner \<Rightarrow> spawner" where
  "heartbeat env responses type_reply sp =
     (case get_missing_instance (pe_hyphenated env) responses (sp_living sp) of
        None \<Rightarrow> sp
      | Some dead_instance \<Rightarrow>
          (let sp' = remove_instance (in_uuid dead_instance) sp
           in case type_reply dead_instance of
                Some (Info info) \<Rightarrow>
                  add_instance \<lparr>in_type = info, in_uuid = in_uuid dead_instance\<rparr> sp'
              | _ \<Rightarrow> sp'))"

text \<open>
  The start: a logger, a kill for each straggler that answered a ping, the loop over the
  commands, and the spawner's own entry. Stragglers that are to be left alone are not
  implemented.
\<close>

fun straggler_kills :: "response list \<Rightarrow> string list" where
  "straggler_kills [] = []"
| "straggler_kills (res # responses) =
     (case res of Res_Pong (arg # args) \<Rightarrow> arg # straggler_kills responses | _ \<Rightarrow> straggler_kills responses)"

definition spawner_init ::
  "spawner_env \<Rightarrow> uuid \<Rightarrow> bool \<Rightarrow> response list \<Rightarrow> spawner \<Rightarrow> spawner run" where
  "spawner_init env logger_uuid kill_stragglers stragglers sp = do {
     (r, sp) \<leftarrow> spawn_logger env logger_uuid sp;
     require kill_stragglers;
     ret (add_instance \<lparr>in_type = ''Spawner'', in_uuid = sp_uuid sp\<rparr>
       (sp\<lparr>sp_killed := sp_killed sp @ straggler_kills stragglers\<rparr>))
   }"

section \<open>What a heartbeat does\<close>

lemma last_index_none: "u \<notin> in_uuid ` set insts \<Longrightarrow> last_index u i insts found = found"
  by (induction insts arbitrary: i) auto

lemma last_index_split:
  "in_uuid x = u \<Longrightarrow> u \<notin> in_uuid ` set zs \<Longrightarrow> last_index u i (ys @ x # zs) found = Some (i + length ys)"
  by (induction ys arbitrary: i found) (auto simp: last_index_none)

lemma remove_instance_split:
  assumes "sp_living sp = ys @ x # zs" and "in_uuid x = u" and "u \<notin> in_uuid ` set zs"
  shows "remove_instance u sp = sp\<lparr>sp_living := ys @ zs\<rparr>"
  using assms by (simp add: remove_instance_def last_index_split remove_nth_def)

lemma remove_instance_unknown: "u \<notin> in_uuid ` set (sp_living sp) \<Longrightarrow> remove_instance u sp = sp"
  by (simp add: remove_instance_def last_index_none)

lemma get_missing_instance_none:
  "\<forall>inst\<in>set insts. pong_from (hyphenated (in_uuid inst)) responses \<Longrightarrow>
    get_missing_instance hyphenated responses insts = None"
  by (induction insts) auto

lemma get_missing_instance_split:
  "\<forall>inst\<in>set ys. pong_from (hyphenated (in_uuid inst)) responses \<Longrightarrow>
    \<not> pong_from (hyphenated (in_uuid d)) responses \<Longrightarrow>
    get_missing_instance hyphenated responses (ys @ d # zs) = Some d"
  by (induction ys) auto

lemma pong_from_iff:
  "pong_from name responses \<longleftrightarrow> (\<exists>args. Res_Pong (name # args) \<in> set responses)"
proof (induction responses)
  case (Cons res responses)
  show ?case
  proof (cases res)
    case (Res_Pong args)
    with Cons show ?thesis by (cases args) auto
  qed (use Cons in auto)
qed simp

definition answered :: "spawner_env \<Rightarrow> response list \<Rightarrow> instance_id \<Rightarrow> bool" where
  "answered env responses inst \<longleftrightarrow>
     (\<exists>args. Res_Pong (pe_hyphenated env (in_uuid inst) # args) \<in> set responses)"

text \<open>A command other than a registration or the killing of all leaves the list alone.\<close>

lemma spawner_command_living:
  assumes "spawner_command env u cmd sp = Some (r, sp')"
    and "\<And>t iu. cmd \<noteq> Ready t iu" and "cmd \<noteq> KillAllInstances"
  shows "sp_living sp' = sp_living sp"
  using assms
  by (auto simp: spawner_command_def spawn_module_def spawn_script_def spawn_optimizer_def
      spawn_tick_parser_def spawn_backtester_def spawn_fxcm_dd_def spawn_fxcm_flatfile_dd_def
      spawn_iex_dd_def spawn_poloniex_dd_def split: command.splits sum.splits if_splits)

lemma heartbeat_result:
  assumes "distinct (map in_uuid (sp_living sp))"
  shows "(list_all (answered env responses) (sp_living sp) \<longrightarrow> heartbeat env responses reply sp = sp) \<and>
    (\<forall>ys d zs. sp_living sp = ys @ d # zs \<and> list_all (answered env responses) ys \<and> \<not> answered env responses d \<longrightarrow>
      heartbeat env responses reply sp = sp\<lparr>sp_living := ys @ zs @
        (case reply d of Some (Info info) \<Rightarrow> [\<lparr>in_type = info, in_uuid = in_uuid d\<rparr>] | _ \<Rightarrow> [])\<rparr>) \<and>
    distinct (map in_uuid (sp_living (heartbeat env responses reply sp)))"
proof -
  have ans: "answered env responses inst \<longleftrightarrow> pong_from (pe_hyphenated env (in_uuid inst)) responses" for inst
    by (simp add: answered_def pong_from_iff)
  have all: "heartbeat env responses reply sp = sp" if "list_all (answered env responses) (sp_living sp)"
    using that by (simp add: heartbeat_def get_missing_instance_none ans list_all_iff)
  have first: "heartbeat env responses reply sp = sp\<lparr>sp_living := ys @ zs @
      (case reply d of Some (Info info) \<Rightarrow> [\<lparr>in_type = info, in_uuid = in_uuid d\<rparr>] | _ \<Rightarrow> [])\<rparr>"
    if split: "sp_living sp = ys @ d # zs" and ys: "list_all (answered env responses) ys" and d: "\<not> answered env responses d" for ys d zs
  proof -
    have "get_missing_instance (pe_hyphenated env) responses (sp_living sp) = Some d"
      unfolding split using ys d by (intro get_missing_instance_split) (auto simp: ans list_all_iff)
    moreover have "remove_instance (in_uuid d) sp = sp\<lparr>sp_living := ys @ zs\<rparr>"
      by (rule remove_instance_split [OF split]) (use assms(1) split in auto)
    ultimately show ?thesis
      by (auto simp: heartbeat_def add_instance_def split: option.splits response.splits)
  qed
  have "distinct (map in_uuid (sp_living (heartbeat env responses reply sp)))"
  proof (cases "list_all (answered env responses) (sp_living sp)")
    case True
    with all assms(1) show ?thesis by simp
  next
    case False
    then have "\<exists>x\<in>set (sp_living sp). \<not> answered env responses x" by (simp add: list_all_iff)
    then obtain ys d zs where "sp_living sp = ys @ d # zs" "\<not> answered env responses d" "\<forall>y\<in>set ys. \<not> \<not> answered env responses y"
      using split_list_first_prop [of "sp_living sp" "\<lambda>x. \<not> answered env responses x"] by blast
    with first [of ys d zs] assms(1) show ?thesis
      by (auto simp: list_all_iff split: option.splits response.splits)
  qed
  with all first show ?thesis by blast
qed

text \<open>C34. A round of the heartbeat changes nothing when every living instance has answered.
  Otherwise it deals with the first one that has not, and only with that one: its entry is
  removed and, when it still answers the question for its type, added again at the end with
  the type it told. Entries stay distinct, so an instance that answered is never lost.\<close>

theorem heartbeat_replaces_first_missing:
  assumes "distinct (map in_uuid (sp_living sp))"
  shows "(list_all (answered env responses) (sp_living sp) \<longrightarrow> heartbeat env responses reply sp = sp) \<and>
    (\<forall>ys d zs. sp_living sp = ys @ d # zs \<and> list_all (answered env responses) ys \<and> \<not> answered env responses d \<longrightarrow>
      heartbeat env responses reply sp = sp\<lparr>sp_living := ys @ zs @
        (case reply d of Some (Info info) \<Rightarrow> [\<lparr>in_type = info, in_uuid = in_uuid d\<rparr>] | _ \<Rightarrow> [])\<rparr>) \<and>
    distinct (map in_uuid (sp_living (heartbeat env responses reply sp)))"
  by (rule heartbeat_result [OF assms])

definition ex_spawner :: spawner where
  "ex_spawner = (spawner_new 1)\<lparr>sp_living := [\<lparr>in_type = ''Logger'', in_uuid = 2\<rparr>,
     \<lparr>in_type = ''Backtester'', in_uuid = 3\<rparr>, \<lparr>in_type = ''Spawner'', in_uuid = 1\<rparr>]\<rparr>"

definition ex_spawner_env :: spawner_env where
  "ex_spawner_env = \<lparr>pe_hyphenated = show_word, pe_instance_json = (\<lambda>i. Inr []), pe_debug_command = (\<lambda>c. []),
     pe_start = (\<lambda>args. Inr ()), pe_node_binary_path = ''node''\<rparr>"

theorem heartbeat_replaces_first_missing_witness:
  "heartbeat ex_spawner_env [Res_Pong [''2''], Res_Pong [''1'']] (\<lambda>i. Some (Info ''Back'')) ex_spawner =
    ex_spawner\<lparr>sp_living := [\<lparr>in_type = ''Logger'', in_uuid = 2\<rparr>,
      \<lparr>in_type = ''Spawner'', in_uuid = 1\<rparr>, \<lparr>in_type = ''Back'', in_uuid = 3\<rparr>]\<rparr>"
proof -
  have d: "distinct (map in_uuid (sp_living ex_spawner))" by (simp add: ex_spawner_def)
  have living: "sp_living ex_spawner = [\<lparr>in_type = ''Logger'', in_uuid = 2\<rparr>] @
      \<lparr>in_type = ''Backtester'', in_uuid = 3\<rparr> # [\<lparr>in_type = ''Spawner'', in_uuid = 1\<rparr>]"
    by (simp add: ex_spawner_def)
  have names: "show_word (2 :: uuid) = ''2''" "show_word (3 :: uuid) = ''3''" by code_simp+
  let ?pongs = "[Res_Pong [''2''], Res_Pong [''1'']]"
  have "list_all (answered ex_spawner_env ?pongs) [\<lparr>in_type = ''Logger'', in_uuid = 2\<rparr>]"
    "\<not> answered ex_spawner_env ?pongs \<lparr>in_type = ''Backtester'', in_uuid = 3\<rparr>"
    by (simp_all add: answered_def ex_spawner_env_def names)
  with heartbeat_replaces_first_missing [OF d, THEN conjunct2, THEN conjunct1, rule_format,
      OF conjI [OF living conjI], of ex_spawner_env ?pongs "\<lambda>i. Some (Info ''Back'')"]
  show ?thesis by simp
qed

section \<open>The spawner as a module\<close>

text \<open>The response published: the store answers through the given function, if at all.\<close>

definition spawner_module :: "spawner_env \<Rightarrow> (store_request \<Rightarrow> response option) \<Rightarrow> spawner handler" where
  "spawner_module env store u cmd sp = do {
     (r, sp') \<leftarrow> spawner_command env u cmd sp;
     ret (case r of Reply res \<Rightarrow> Some res | To_store req \<Rightarrow> store req | No_reply \<Rightarrow> None, sp')
   }"

interpretation spawning: platform_module "spawner_module env store" "\<lambda>sp. pe_hyphenated env (sp_uuid sp)"
  by unfold_locales (simp_all add: spawner_module_def spawner_command_def)

end
