(* ===== verification/Tg_Proxy.thy ===== *)
theory Tg_Proxy
  imports Tg_Commands
begin

text \<open>
  The proxy between Redis and the websockets of the browsers
  (\<open>spawner/src/redis_proxy.rs\<close>): the record of the messages already passed on, which
  keeps the newest 10000, and the three handlers that forward a message unless it is
  recorded. Messages published and broadcast are listed; JSON is a parameter.
\<close>

section \<open>Messages received\<close>

record ws_msg =
  wm_uuid :: uuid
  wm_channel :: string
  wm_message :: string

record received_messages =
  rm_hm :: "(ws_msg, usize) hash_map"
  rm_first_id :: usize
  rm_last_id :: usize

definition max_size :: nat where
  "max_size = 10000"

definition received_new :: received_messages where
  "received_new = \<lparr>rm_hm = hm_new, rm_first_id = 0, rm_last_id = 0\<rparr>"

definition received_contains :: "ws_msg \<Rightarrow> received_messages \<Rightarrow> bool" where
  "received_contains msg r \<longleftrightarrow> hm_get (rm_hm r) msg \<noteq> None"

definition received_add :: "ws_msg \<Rightarrow> received_messages \<Rightarrow> received_messages run" where
  "received_add msg r =
     (let hm = hm_insert msg (rm_last_id r) (rm_hm r);
          r1 = r\<lparr>rm_hm := hm, rm_last_id := rm_last_id r + 1\<rparr>
      in if max_size < length hm
         then (case find (\<lambda>(k, v). v = rm_first_id r) hm of
                 Some (oldest_msg, v) \<Rightarrow>
                   ret (r1\<lparr>rm_hm := hm_remove oldest_msg hm, rm_first_id := rm_first_id r + 1\<rparr>)
               | None \<Rightarrow> panic)
         else ret r1)"

section \<open>Handlers\<close>

datatype ws_frame = Text string | Binary string

text \<open>The client of our own server: a text not yet recorded is published on its channel.\<close>

definition ws_proxy_message ::
  "(string \<Rightarrow> ws_msg option) \<Rightarrow> ws_frame \<Rightarrow> received_messages \<Rightarrow>
     ((string \<times> string) list \<times> received_messages) run" where
  "ws_proxy_message from_json frame r =
     (case frame of
        Binary b \<Rightarrow> ret ([], r)
      | Text s \<Rightarrow>
          (case from_json s of
             None \<Rightarrow> ret ([], r)
           | Some wsmsg \<Rightarrow>
               if received_contains wsmsg r then ret ([], r)
               else do {
                 r' \<leftarrow> received_add wsmsg r;
                 ret ([(wm_channel wsmsg, wm_message wsmsg)], r')
               }))"

text \<open>The server: a text not yet recorded is broadcast as it is.\<close>

definition ws_server_message ::
  "(string \<Rightarrow> ws_msg option) \<Rightarrow> ws_frame \<Rightarrow> received_messages \<Rightarrow> (ws_frame list \<times> received_messages) run" where
  "ws_server_message from_json frame r =
     (case frame of
        Binary b \<Rightarrow> ret ([], r)
      | Text s \<Rightarrow>
          (case from_json s of
             None \<Rightarrow> ret ([], r)
           | Some wsmsg \<Rightarrow>
               if received_contains wsmsg r then ret ([], r)
               else do {
                 r' \<leftarrow> received_add wsmsg r;
                 ret ([frame], r')
               }))"

text \<open>The channels of the configuration and the JSON of what is received over Redis.\<close>

record proxy_env =
  px_control_channel :: string
  px_log_channel :: string
  px_command :: "string \<Rightarrow> wrapped_command option"
  px_response :: "string \<Rightarrow> wrapped_response option"
  px_to_json :: "ws_msg \<Rightarrow> string"

definition message_uuid :: "proxy_env \<Rightarrow> string \<Rightarrow> string \<Rightarrow> uuid option" where
  "message_uuid env chan msg =
     (if chan = px_control_channel env \<or> chan = px_log_channel env
      then map_option wc_uuid (px_command env msg)
      else map_option wr_uuid (px_response env msg))"

text \<open>A message of Redis: the records of the websockets and of Redis, and what is broadcast.\<close>

definition proxy_redis ::
  "proxy_env \<Rightarrow> string \<times> string \<Rightarrow> received_messages \<times> received_messages \<Rightarrow>
     (string list \<times> received_messages \<times> received_messages) run" where
  "proxy_redis env chan_msg collections =
     (case (chan_msg, collections) of ((chan, msg), (ws_collection, redis_collection)) \<Rightarrow>
       (case message_uuid env chan msg of
          None \<Rightarrow> ret ([], ws_collection, redis_collection)
        | Some u \<Rightarrow>
            (let wsmsg = \<lparr>wm_uuid = u, wm_channel = chan, wm_message = msg\<rparr>
             in if received_contains wsmsg ws_collection then ret ([], ws_collection, redis_collection)
                else do {
                  ws' \<leftarrow> received_add wsmsg ws_collection;
                  redis' \<leftarrow> received_add wsmsg redis_collection;
                  ret ([px_to_json env wsmsg], ws', redis')
                })))"

section \<open>The record is a bounded queue\<close>

text \<open>
  What the record promises: it is a queue of at most \<^term>\<open>max_size\<close> different messages.
\<close>

definition fifo_add :: "'a \<Rightarrow> 'a list \<Rightarrow> 'a list" where
  "fifo_add x q = (if length q < max_size then q @ [x] else tl q @ [x])"

text \<open>The ids of the messages are consecutive from the first one, modulo the word size.\<close>

definition received_queue :: "received_messages \<Rightarrow> ws_msg list \<Rightarrow> bool" where
  "received_queue r q \<longleftrightarrow> distinct q \<and> length q \<le> max_size \<and> hm_ok (rm_hm r) \<and>
     (\<forall>i<length q. hm_get (rm_hm r) (q ! i) = Some (rm_first_id r + of_nat i)) \<and>
     (\<forall>m. m \<notin> set q \<longrightarrow> hm_get (rm_hm r) m = None) \<and>
     rm_last_id r = rm_first_id r + of_nat (length q)"

lemma received_queueI:
  assumes "distinct q" and "length q \<le> max_size" and "hm_ok hm"
    and "\<And>i. i < length q \<Longrightarrow> hm_get hm (q ! i) = Some (f + of_nat i)"
    and "\<And>k. k \<notin> set q \<Longrightarrow> hm_get hm k = None" and "l = f + of_nat (length q)"
  shows "received_queue \<lparr>rm_hm = hm, rm_first_id = f, rm_last_id = l\<rparr> q"
  using assms by (simp add: received_queue_def)

lemma received_queue_new: "received_queue received_new []"
  by (simp add: received_queue_def received_new_def hm_new_def hm_get_def hm_ok_def)

lemma received_queue_contains: "received_queue r q \<Longrightarrow> received_contains m r \<longleftrightarrow> m \<in> set q"
  by (auto simp: received_queue_def received_contains_def in_set_conv_nth)

lemma received_queue_keys: "received_queue r q \<Longrightarrow> {k. hm_get (rm_hm r) k \<noteq> None} = set q"
  using received_queue_contains by (auto simp: received_contains_def)

lemma hm_keys: "set (map fst m) = {k. hm_get m k \<noteq> None}"
  unfolding hm_get_def by (auto simp: map_of_eq_None_iff)

lemma hm_length:
  assumes "hm_ok m" and "distinct q" and "{k. hm_get m k \<noteq> None} = set q"
  shows "length m = length q"
proof -
  have "length m = card (set (map fst m))"
    using assms(1) distinct_card [of "map fst m"] by (simp add: hm_ok_def)
  also have "\<dots> = card (set q)" by (simp only: hm_keys assms(3))
  finally show ?thesis using assms(2) by (simp add: distinct_card)
qed

lemma find_SomeD: "find P xs = Some x \<Longrightarrow> P x \<and> x \<in> set xs"
  by (induction xs) (auto split: if_splits)

lemma hm_find:
  assumes "hm_ok m" and "hm_get m k = Some v" and "\<And>k'. hm_get m k' = Some v \<Longrightarrow> k' = k"
  shows "find (\<lambda>(k, v'). v' = v) m = Some (k, v)"
proof -
  note entry = hm.get_entries [OF assms(1)]
  have mem: "(k, v) \<in> set m" using entry [of k v] assms(2) by simp
  have key: "k' = k" if "(k', v) \<in> set m" for k'
    by (rule assms(3)) (use entry [of k' v] that in simp)
  show ?thesis
  proof (cases "find (\<lambda>(k, v'). v' = v) m")
    case None
    from find_None_iff [THEN iffD1, OF None] mem have False by blast
    then show ?thesis ..
  next
    case (Some e)
    obtain k' v' where e: "e = (k', v')" by fastforce
    from find_SomeD [OF Some] have "v' = v" "(k', v) \<in> set m" by (auto simp: e)
    then have "k' = k" "v' = v" using key [of k'] by simp_all
    with e Some show ?thesis by simp
  qed
qed

text \<open>The map after a new message, before the trim.\<close>

lemma received_insert:
  assumes "received_queue r q" and "m \<notin> set q"
  defines "hm \<equiv> hm_insert m (rm_last_id r) (rm_hm r)"
  shows "hm_ok hm" and "length hm = Suc (length q)"
    and "\<And>i. i \<le> length q \<Longrightarrow> hm_get hm ((q @ [m]) ! i) = Some (rm_first_id r + of_nat i)"
    and "\<And>k. k \<notin> set (q @ [m]) \<Longrightarrow> hm_get hm k = None"
proof -
  show ok: "hm_ok hm" using assms by (simp add: received_queue_def hm.ok_ins)
  show get: "hm_get hm ((q @ [m]) ! i) = Some (rm_first_id r + of_nat i)" if "i \<le> length q" for i
    using that assms by (auto simp: received_queue_def hm.get_ins nth_append)
  show none: "hm_get hm k = None" if "k \<notin> set (q @ [m])" for k
    using that assms by (auto simp: received_queue_def hm.get_ins)
  have "{k. hm_get hm k \<noteq> None} = set (q @ [m])"
  proof (rule set_eqI)
    fix k
    show "k \<in> {k. hm_get hm k \<noteq> None} \<longleftrightarrow> k \<in> set (q @ [m])"
    proof (cases "k \<in> set (q @ [m])")
      case True
      then obtain i where "i \<le> length q" "k = (q @ [m]) ! i" by (metis in_set_conv_nth length_append_singleton less_Suc_eq_le)
      with get True show ?thesis by simp
    qed (use none in auto)
  qed
  from hm_length [OF ok _ this] assms(1,2) show "length hm = Suc (length q)"
    by (simp add: received_queue_def)
qed

lemma word_offset_inj:
  "(a :: usize) + of_nat i = a + of_nat j \<Longrightarrow> i < 2 ^ 64 \<Longrightarrow> j < 2 ^ 64 \<Longrightarrow> i = j"
  by (simp add: word_of_nat_eq_iff take_bit_nat_eq_self)

lemma received_add_room:
  assumes q: "received_queue r q" and new: "m \<notin> set q" and room: "length q < max_size"
  shows "\<exists>r'. received_add m r = Some r' \<and> received_queue r' (q @ [m])"
proof -
  let ?hm = "hm_insert m (rm_last_id r) (rm_hm r)"
  let ?r = "\<lparr>rm_hm = ?hm, rm_first_id = rm_first_id r, rm_last_id = rm_last_id r + 1\<rparr>"
  note ins = received_insert [OF q new]
  have "received_add m r = Some ?r" using ins(2) room by (simp add: received_add_def Let_def)
  moreover have "received_queue ?r (q @ [m])"
  proof (rule received_queueI)
    show "hm_get ?hm ((q @ [m]) ! i) = Some (rm_first_id r + of_nat i)" if "i < length (q @ [m])" for i
      by (rule ins(3)) (use that in simp)
    show "rm_last_id r + 1 = rm_first_id r + of_nat (length (q @ [m]))"
      using q by (simp add: received_queue_def)
  qed (use q new room ins(1,4) in \<open>simp_all add: received_queue_def\<close>)
  ultimately show ?thesis by blast
qed

lemma received_add_full:
  assumes q: "received_queue r q" and new: "m \<notin> set q" and full: "length q = max_size"
  shows "\<exists>r'. received_add m r = Some r' \<and> received_queue r' (tl q @ [m])"
proof -
  obtain x xs where qx: "q = x # xs" using full by (cases q) (auto simp: max_size_def)
  let ?hm = "hm_insert m (rm_last_id r) (rm_hm r)"
  note ins = received_insert [OF q new]
  have x: "hm_get ?hm x = Some (rm_first_id r)" using ins(3) [of 0] qx by simp
  have only: "k = x" if k: "hm_get ?hm k = Some (rm_first_id r)" for k
  proof -
    have "k \<in> set (q @ [m])" by (rule ccontr) (use k ins(4) [of k] in simp)
    then obtain i where i: "i \<le> length q" "k = (q @ [m]) ! i"
      by (metis in_set_conv_nth length_append_singleton less_Suc_eq_le)
    have "Some (rm_first_id r + of_nat i) = Some (rm_first_id r)"
      by (rule trans [OF sym [OF ins(3) [OF i(1)]] k [unfolded i(2)]])
    then have "rm_first_id r + of_nat i = rm_first_id r + of_nat 0" by simp
    then have "i = 0" by (rule word_offset_inj) (use i(1) full in \<open>simp_all add: max_size_def\<close>)
    with i qx show ?thesis by simp
  qed
  have find: "find (\<lambda>(k, v). v = rm_first_id r) ?hm = Some (x, rm_first_id r)"
    by (rule hm_find [OF ins(1) x only])
  let ?r = "\<lparr>rm_hm = hm_remove x ?hm, rm_first_id = rm_first_id r + 1, rm_last_id = rm_last_id r + 1\<rparr>"
  have "received_add m r = Some ?r"
    using find ins(2) full by (simp add: received_add_def Let_def)
  moreover have "received_queue ?r (xs @ [m])"
  proof (rule received_queueI)
    show dist: "distinct (xs @ [m])" using q new qx by (simp add: received_queue_def)
    have out: "x \<notin> set (xs @ [m])" using q new qx by (auto simp: received_queue_def)
    show "hm_get (hm_remove x ?hm) ((xs @ [m]) ! i) = Some (rm_first_id r + 1 + of_nat i)"
      if i: "i < length (xs @ [m])" for i
    proof -
      have "(xs @ [m]) ! i \<noteq> x" using out i by (metis nth_mem)
      moreover have "hm_get ?hm ((q @ [m]) ! Suc i) = Some (rm_first_id r + of_nat (Suc i))"
        by (rule ins(3)) (use i qx in simp)
      ultimately show ?thesis unfolding qx by (simp only: hm.get_del if_False append_Cons nth_Cons_Suc of_nat_Suc add.assoc)
    qed
    show "hm_get (hm_remove x ?hm) k = None" if "k \<notin> set (xs @ [m])" for k
    proof (cases "k = x")
      case False
      with that qx have "hm_get ?hm k = None" by (intro ins(4)) simp
      with False show ?thesis by (simp only: hm.get_del if_False)
    qed (simp add: hm.get_del)
    show "rm_last_id r + 1 = rm_first_id r + 1 + of_nat (length (xs @ [m]))"
      using q qx by (simp add: received_queue_def)
  qed (use full qx ins(1) in \<open>simp_all add: hm.ok_del\<close>)
  ultimately show ?thesis using qx by auto
qed

text \<open>C35. The record of messages is a queue of the newest 10000: it contains exactly the messages
  of the queue, and adding one that it does not contain never panics, appends it and drops
  the oldest when the queue is full, even when the ids wrap around.\<close>

theorem received_refines_queue:
  assumes "received_queue r q"
  shows "(\<forall>m. received_contains m r = (m \<in> set q)) \<and>
    (\<forall>m. \<not> received_contains m r \<longrightarrow>
      (\<exists>r'. received_add m r = Some r' \<and> received_queue r' (fifo_add m q)))"
proof -
  have "length q \<le> max_size" using assms by (simp add: received_queue_def)
  then show ?thesis
    using received_queue_contains [OF assms] received_add_room [OF assms] received_add_full [OF assms]
    by (auto simp: fifo_add_def)
qed

theorem received_refines_queue_witness:
  "\<exists>r'. received_add \<lparr>wm_uuid = 1, wm_channel = ''c'', wm_message = ''m''\<rparr> received_new = Some r' \<and>
    received_queue r' [\<lparr>wm_uuid = 1, wm_channel = ''c'', wm_message = ''m''\<rparr>]"
  using received_refines_queue [OF received_queue_new] by (auto simp: fifo_add_def max_size_def)

text \<open>
  The hypothesis that the message is new matters: adding the oldest message again, as
  \<open>proxy_redis\<close> does without a check for the record of Redis, gives it a new id, and the
  next new message finds no entry with the first id and panics.
\<close>

lemma readding_oldest_panics:
  assumes q: "received_queue r (x # xs)" and full: "length (x # xs) = max_size"
    and new: "m \<notin> set (x # xs)"
  shows "\<exists>r'. received_add x r = Some r' \<and> received_add m r' = None"
proof -
  let ?hm = "hm_insert x (rm_last_id r) (rm_hm r)"
  let ?r = "r\<lparr>rm_hm := ?hm, rm_last_id := rm_last_id r + 1\<rparr>"
  let ?hm' = "hm_insert m (rm_last_id ?r) ?hm"
  have ok: "hm_ok ?hm" "hm_ok ?hm'" using q by (simp_all add: received_queue_def hm.ok_ins)
  have keys: "{k. hm_get ?hm k \<noteq> None} = set (x # xs)"
    using received_queue_keys [OF q] by (auto simp: hm.get_ins)
  have keys': "{k. hm_get ?hm' k \<noteq> None} = set (m # x # xs)"
    using keys by (auto simp: hm.get_ins)
  have "distinct (m # x # xs)" using q new by (simp add: received_queue_def)
  then have "distinct (x # xs)" by simp
  note len = hm_length [OF ok(1) this keys] hm_length [OF ok(2) \<open>distinct (m # x # xs)\<close> keys']
  have "hm_get ?hm' k \<noteq> Some (rm_first_id r)" for k
  proof
    assume k: "hm_get ?hm' k = Some (rm_first_id r)"
    have last: "rm_last_id r = rm_first_id r + of_nat max_size"
      using q unfolding received_queue_def full by blast
    have "rm_first_id r + of_nat i \<noteq> rm_first_id r" if "0 < i" "i < 2 ^ 64" for i
      using word_offset_inj [of "rm_first_id r" i 0] that by auto
    from this [of max_size] this [of "Suc max_size"] have "rm_last_id r \<noteq> rm_first_id r" "rm_last_id r + 1 \<noteq> rm_first_id r"
      by (simp_all add: last max_size_def)
    with k have "k \<in> set xs" "hm_get (rm_hm r) k = Some (rm_first_id r)"
      using q by (auto simp: hm.get_ins received_queue_def split: if_splits)
    then obtain i where "i < length xs" "k = (x # xs) ! Suc i" by (auto simp: in_set_conv_nth)
    with q \<open>hm_get (rm_hm r) k = Some _\<close> have "rm_first_id r + of_nat (Suc i) = rm_first_id r"
      by (fastforce simp: received_queue_def simp del: of_nat_Suc)
    with \<open>\<And>i. 0 < i \<Longrightarrow> i < 2 ^ 64 \<Longrightarrow> rm_first_id r + of_nat i \<noteq> rm_first_id r\<close> [of "Suc i"] \<open>i < length xs\<close> full
    show False by (simp add: max_size_def)
  qed
  then have "find (\<lambda>(k, v). v = rm_first_id r) ?hm' = None"
    using ok(2) hm.get_entries by (fastforce simp: find_None_iff)
  with len full show ?thesis by (simp add: received_add_def Let_def)
qed

end
