(* ===== verification/Tg_Configurator.thy ===== *)
theory Tg_Configurator
  imports Tg_Documents
begin

text \<open>
  The configurator (\<open>configurator/src\<close>): the schema of the settings, the values of a setting
  in JSON, Rust and JavaScript, the configuration files generated from the settings, the
  directory in which they are changed and the first-time configuration. The user interface
  is here reduced to the contents of its fields by their ids, a file to its contents; finding a
  binary, the check of the data directory and the parser of JSON are parameters.
\<close>

section \<open>Settings\<close>

datatype setting_type = StringT | UsizeT | BooleanT | OptionStringT

record setting_row =
  sr_id :: string
  sr_name :: string
  sr_default :: "string option"
  sr_type :: setting_type
  sr_comment :: "string option"

record settings_page =
  sp_name :: string
  sp_rows :: "setting_row list"
  sp_comment :: "string list option"

type_synonym settings = "string \<rightharpoonup> string"

definition settings_new :: settings where
  "settings_new = Map.empty"

definition settings_set :: "string \<Rightarrow> string \<Rightarrow> settings \<Rightarrow> settings" where
  "settings_set key val s = s(key \<mapsto> val)"

definition settings_get :: "settings \<Rightarrow> string \<Rightarrow> string option" where
  "settings_get s key = s key"

text \<open>The value given or else the default; with neither there is a panic.\<close>

definition raw_val :: "setting_row \<Rightarrow> string option \<Rightarrow> string run" where
  "raw_val row val = (case val of Some v \<Rightarrow> ret v | None \<Rightarrow> sr_default row)"

definition quoted :: "string \<Rightarrow> string" where
  "quoted s = CHR 0x22 # s @ [CHR 0x22]"

definition json_val :: "setting_row \<Rightarrow> string option \<Rightarrow> string run" where
  "json_val row val = do {
     raw \<leftarrow> raw_val row val;
     ret (case sr_type row of
            OptionStringT \<Rightarrow> if raw = [] then ''null'' else quoted raw
          | _ \<Rightarrow> quoted raw)
   }"

definition rust_val :: "setting_row \<Rightarrow> string option \<Rightarrow> string run" where
  "rust_val row val = do {
     raw \<leftarrow> raw_val row val;
     ret (case sr_type row of
            StringT \<Rightarrow> quoted raw
          | UsizeT \<Rightarrow> raw
          | BooleanT \<Rightarrow> raw
          | OptionStringT \<Rightarrow> if raw = [] then ''None'' else ''Some('' @ quoted raw @ '')'')
   }"

definition js_val :: "setting_row \<Rightarrow> string option \<Rightarrow> string run" where
  "js_val row val = do {
     raw \<leftarrow> raw_val row val;
     ret (case sr_type row of
            StringT \<Rightarrow> quoted raw
          | UsizeT \<Rightarrow> raw
          | BooleanT \<Rightarrow> raw
          | OptionStringT \<Rightarrow> if raw = [] then ''null'' else quoted raw)
   }"

definition rust_type :: "setting_row \<Rightarrow> string" where
  "rust_type row =
     (case sr_type row of
        StringT \<Rightarrow> ''&'static str''
      | UsizeT \<Rightarrow> ''usize''
      | BooleanT \<Rightarrow> ''bool''
      | OptionStringT \<Rightarrow> ''Option<&'static str>'')"

section \<open>The schema\<close>

definition postgres_settings :: settings_page where
  "postgres_settings = settings_page.make ''Postgres''
     [setting_row.make ''postgres_host'' ''Host'' (Some ''localhost'') StringT
       None,
      setting_row.make ''postgres_port'' ''Port'' (Some ''5432'') UsizeT
       None,
      setting_row.make ''postgres_user'' ''Username'' None StringT
       None,
      setting_row.make ''postgres_password'' ''Password'' None StringT
       None,
      setting_row.make ''postgres_db'' ''Database'' None StringT
       None]
     (Some [''PostgreSQL Settings''])"

definition redis_settings :: settings_page where
  "redis_settings = settings_page.make ''Redis''
     [setting_row.make ''redis_host'' ''Host'' (Some ''redis://localhost:6379/'') StringT
       (Some ''In this format: redis://hostname:port/'')]
     (Some [''Redis Settings''])"

definition mm_settings :: settings_page where
  "mm_settings = settings_page.make ''Management/Monitoring Web Interface''
     [setting_row.make ''mm_cache_size'' ''Message Cache Size'' (Some ''2500'') UsizeT
       (Some ''How many of each Command, Response, and Log Line to keep in memory''),
      setting_row.make ''store_buffer_size'' ''Tantivy Document Store Buffer Size'' (Some ''50000000'') UsizeT
       (Some ''How large (in bytes) to make the Tantivy writer buffer for the document store'')]
     (Some [''Settings for configuring the Management/Monitoring Web Interface.''])"

definition fxcm_settings :: settings_page where
  "fxcm_settings = settings_page.make ''FXCM''
     [setting_row.make ''fxcm_username'' ''Username'' None StringT
       None,
      setting_row.make ''fxcm_password'' ''Password'' None StringT
       None,
      setting_row.make ''fxcm_url'' ''URL'' (Some ''http://www.fxcorporate.com/Hosts.jsp'') StringT
       (Some ''Path to the `Hosts.jsp` file for the FXCM API.''),
      setting_row.make ''fxcm_pin'' ''PIN (Optional)'' (Some []) OptionStringT
       None]
     (Some [''FXCM Broker Settings.  Should be valid credentials for a FXCM broker account.  You can get'',
      ''// a practice account that is compatible with the platform here for free with no account creation'',
      ''// or registration required: https://www.fxcm.com/forex-trading-demo/''])"

definition general_settings :: settings_page where
  "general_settings = settings_page.make ''General''
     [setting_row.make ''redis_responses_channel'' ''Responses Channel'' (Some ''responses'') StringT
       (Some ''Changing this will currently break the platform; it's just here for backwards compatibility.''),
      setting_row.make ''redis_control_channel'' ''Control Channel'' (Some ''control'') StringT
       (Some ''Changing this will currently break the platform; it's just here for backwards compatibility.''),
      setting_row.make ''redis_log_channel'' ''Log Channel'' (Some ''log'') StringT
       (Some ''The redis pub/sub channel on which log messages will be sent.''),
      setting_row.make ''data_dir'' ''Data Directory'' None StringT
       (Some ''Data directory for the platform where things like historical ticks and settings are stored.''),
      setting_row.make ''websocket_port'' ''MM Websocket Port'' (Some ''7037'') UsizeT
       (Some ''This port must be open on the host in order for the client to communicate over it.''),
      setting_row.make ''mm_port'' ''MM Port'' (Some ''8002'') UsizeT
       (Some ''The port the MM web GUI will listen on.  Deprecated.''),
      setting_row.make ''node_binary_path'' ''NodeJS Binary Path'' None StringT
       (Some ''The absolute path to the `node` binary.''),
      setting_row.make ''redis_server_binary_path'' ''Redis Server Path'' (Some []) OptionStringT
       (Some ''The absolute path to the `redis-server` executable.  Empty if Redis is installed remotely.''),
      setting_row.make ''logger_persistance_table'' ''Logger Table Name'' (Some ''logs'') StringT
       None]
     None"

definition commandserver_queryserver_settings :: settings_page where
  "commandserver_queryserver_settings = settings_page.make ''CommandServer + QueryServer Settings''
     [setting_row.make ''cs_timeout'' ''CommandServer Timeout'' (Some ''399'') UsizeT
       (Some ''The timeout of commands sent in ms.  If a response isn't recieved within the timeout window, the command is re-sent.''),
      setting_row.make ''conn_senders'' ''CommandServer Worker Count'' (Some ''4'') UsizeT
       None,
      setting_row.make ''cs_max_retries'' ''Max CommandServer message retransmit attempts'' (Some ''3'') UsizeT
       None,
      setting_row.make ''qs_connections'' ''QueryServer Worker Count'' (Some ''4'') UsizeT
       None,
      setting_row.make ''database_conns'' ''QueryServer DB Connection Count'' (Some ''10'') UsizeT
       None]
     (Some [''CommandServer/QueryServer settings.  You can leave these at defaults safely.''])"

definition runtime_settings :: settings_page where
  "runtime_settings = settings_page.make ''Runtime Settings''
     [setting_row.make ''kill_stragglers'' ''Kill Stragglers'' (Some ''true'') BooleanT
       (Some ''If instances from a previous spawner are detected when the spawner spawns, kill them?''),
      setting_row.make ''reset_db_on_load'' ''Reset DB On Load'' (Some ''false'') BooleanT
       (Some ''If true, entire PostgreSQL database will be wiped every time a Tick Processor is spawned.'')]
     None"

definition fuzzer_settings :: settings_page where
  "fuzzer_settings = settings_page.make ''Fuzzer Settings''
     [setting_row.make ''fuzzer_deterministic_rng'' ''Use Deterministic RNG'' (Some ''true'') BooleanT
       (Some ''Set if the RNG used to generate the actions of the fuzzer should be seeded with the same seed every run.''),
      setting_row.make ''fuzzer_seed'' ''Seed String'' (Some ''S0 R4nD0m'') StringT
       (Some ''The string from which the fuzzer's RNG is seeded from (if the option is enabled).'')]
     (Some [''Settings for configuring the fuzzer strategy used to test broker shims.'',
      ''// For more info, see README.md in /private/strategies/fuzzer''])"

definition data_downloader_settings :: settings_page where
  "data_downloader_settings = settings_page.make ''Data Downloader Settings''
     [setting_row.make ''iex_data_downloader_tops_url'' ''IEX TOPS API URL'' (Some ''https://ws-api.iextrading.com/1.0/tops'') StringT
       (Some ''The API endpoint for the IEX top-of-book API.  Should be good default unless they change it.  If they do, please open an issue.''),
      setting_row.make ''poloniex_ws_api_url'' ''Poloniex WS API URL'' (Some ''wss://api.poloniex.com'') StringT
       (Some ''The API endpoint for the Poloniex websocket API.  Should be good as default; if it's changed please open an issue.''),
      setting_row.make ''poloniex_http_api_url'' ''Poloniex HTTP API URL'' (Some ''https://poloniex.com/public'') StringT
       (Some ''The API endpoint for the Poloniex HTTP API.  Should be good as default; if it's changed please open an issue.''),
      setting_row.make ''poloniex_ws_cache_size'' ''Poloniex WebSocket Message Cache Size'' (Some ''500'') UsizeT
       (Some ''MUST BE MULTIPLE OF 10!  How many messages to buffer before flushing into the sink.  The buffer is used to catch unordered messages.'')]
     (Some [''Settings pertaining to the platform's data downloaders used to record or retreive data from external sources''])"

definition page_list :: "settings_page list" where
  "page_list = [postgres_settings, redis_settings, mm_settings,
     fxcm_settings, general_settings,
     commandserver_queryserver_settings, runtime_settings,
     fuzzer_settings, data_downloader_settings]"

text \<open>The form's fields of the database, and the index of a page by its name.\<close>

definition postgres_ids :: "string list" where
  "postgres_ids = [''postgres_host'', ''postgres_user'', ''postgres_password'', ''postgres_port'', ''postgres_db'']"

definition all_rows :: "setting_row list" where
  "all_rows = concat (map sp_rows page_list)"

section \<open>Generated files\<close>

abbreviation nl :: string where
  "nl \<equiv> [CHR 0x0A]"

fun concat_run :: "('a \<Rightarrow> string run) \<Rightarrow> 'a list \<Rightarrow> string run" where
  "concat_run f [] = ret []"
| "concat_run f (x # xs) = do {
     s \<leftarrow> f x;
     rest \<leftarrow> concat_run f xs;
     ret (s @ rest)
   }"

definition page_comment :: "string \<Rightarrow> settings_page \<Rightarrow> string" where
  "page_comment after page =
     (case sp_comment page of
        None \<Rightarrow> []
      | Some c \<Rightarrow> nl @ ''    // '' @ join_str (nl @ ''    '') c @ after)"

definition row_comment :: "setting_row \<Rightarrow> string" where
  "row_comment row = (case sr_comment row of None \<Rightarrow> [] | Some c \<Rightarrow> ''    // '' @ c @ nl)"

definition gen_rust_schema :: string where
  "gen_rust_schema = ''pub struct Conf {'' @ nl @
     concat (map (\<lambda>page. page_comment (nl @ nl) page @
       concat (map (\<lambda>row. row_comment row @ ''    pub '' @ sr_id row @ '': '' @ rust_type row @ '','' @ nl)
         (sp_rows page))) page_list) @ ''}'' @ nl @ nl"

definition gen_rust_struct :: "settings \<Rightarrow> string run" where
  "gen_rust_struct s = do {
     content \<leftarrow> concat_run (\<lambda>page. do {
       rows \<leftarrow> concat_run (\<lambda>row. do {
         v \<leftarrow> rust_val row (settings_get s (sr_id row));
         ret (row_comment row @ ''    '' @ sr_id row @ '': '' @ v @ '','' @ nl)
       }) (sp_rows page);
       ret (page_comment nl page @ nl @ rows)
     }) page_list;
     ret (''pub const CONF: Conf = Conf {'' @ nl @ content @ ''};'')
   }"

definition json_format_page :: "settings_page \<Rightarrow> settings \<Rightarrow> string run" where
  "json_format_page page s = concat_run (\<lambda>row. do {
     v \<leftarrow> json_val row (settings_get s (sr_id row));
     ret (''    '' @ quoted (sr_id row) @ '': '' @ v @ '','' @ nl)
   }) (sp_rows page)"

text \<open>The last comma and newline are cut off.\<close>

definition write_json :: "settings \<Rightarrow> string run" where
  "write_json s = do {
     pages \<leftarrow> concat_run (\<lambda>page. json_format_page page s) page_list;
     let content = ''{'' @ nl @ pages;
     ret (take (length content - 2) content @ nl @ ''}'' @ nl)
   }"

definition rust_header :: string where
  "rust_header =
     ''//! TickGrinder platform configuration file.  This is AUTOMATICALY GENERATED by the configurator'' @ nl @
     ''//! application, but may be manually edited.  However, manual edits will be reset whenever the'' @ nl @
     ''//! configurator application is run (via first-time setup or via `make configure` in the project root).'' @ nl @ nl @
     ''#![allow(dead_code)]'' @ nl @ nl"

definition write_rust :: "settings \<Rightarrow> string run" where
  "write_rust s = do {
     struct \<leftarrow> gen_rust_struct s;
     ret (rust_header @ gen_rust_schema @ struct @ nl)
   }"

definition js_header :: string where
  "js_header =
     ''// TickGrinder JavaScript configuration file.  This is AUTOMATICALY GENERATED by the configurator'' @ nl @
     ''// application, but may be manually edited.  However, manual edits will be reset whenever the'' @ nl @
     ''// configurator application is run (via first-time setup or via `make configure` in the project root).'' @ nl @ nl @
     ''var conf = {''"

definition write_js :: "settings \<Rightarrow> string run" where
  "write_js s = do {
     content \<leftarrow> concat_run (\<lambda>page. do {
       rows \<leftarrow> concat_run (\<lambda>row. do {
         v \<leftarrow> js_val row (settings_get s (sr_id row));
         ret (row_comment row @ ''    '' @ sr_id row @ '': '' @ v @ '','' @ nl)
       }) (sp_rows page);
       ret (page_comment (nl @ nl) page @ rows)
     }) page_list;
     ret (js_header @ content @ ''}'' @ nl @ nl @ ''module.exports = conf;'' @ nl)
   }"

text \<open>The three files: JSON, Rust and JavaScript.\<close>

definition write_settings :: "settings \<Rightarrow> (string \<times> string \<times> string) run" where
  "write_settings s = do {
     json \<leftarrow> write_json s;
     rust \<leftarrow> write_rust s;
     js \<leftarrow> write_js s;
     ret (json, rust, js)
   }"

text \<open>Reading the settings back unwraps what the parser makes of the file.\<close>

definition read_json :: "(string \<Rightarrow> settings option) \<Rightarrow> string option \<Rightarrow> settings run" where
  "read_json from_json file = do {
     content \<leftarrow> file;
     from_json content
   }"

section \<open>The directory\<close>

type_synonym view = "string \<rightharpoonup> string"

fun find_row :: "string \<Rightarrow> setting_row list \<Rightarrow> setting_row run" where
  "find_row name [] = panic"
| "find_row name (row # rows) = (if sr_name row = name then ret row else find_row name rows)"

definition get_row_by_name :: "settings_page \<Rightarrow> string \<Rightarrow> setting_row run" where
  "get_row_by_name page name = find_row name (sp_rows page)"

fun page_index_from :: "nat \<Rightarrow> settings_page list \<Rightarrow> string \<Rightarrow> nat option" where
  "page_index_from i [] page_name = None"
| "page_index_from i (page # pages) page_name =
     (if sp_name page = page_name then Some i else page_index_from (Suc i) pages page_name)"

definition get_page_index :: "string \<Rightarrow> nat option" where
  "get_page_index page_name = page_index_from 0 page_list page_name"

text \<open>The rows are compared in order, up to the first one that differs.\<close>

fun changes_in :: "view \<Rightarrow> settings \<Rightarrow> setting_row list \<Rightarrow> bool run" where
  "changes_in view s [] = ret False"
| "changes_in view s (row # rows) = do {
     cur_val \<leftarrow> view (sr_id row);
     last_val \<leftarrow> raw_val row (settings_get s (sr_id row));
     if last_val \<noteq> cur_val then ret True else changes_in view s rows
   }"

definition check_changes :: "view \<Rightarrow> settings_page \<Rightarrow> settings \<Rightarrow> bool run" where
  "check_changes view page s = changes_in view s (sp_rows page)"

fun store_rows :: "view \<Rightarrow> setting_row list \<Rightarrow> settings \<Rightarrow> settings run" where
  "store_rows view [] s = ret s"
| "store_rows view (row # rows) s = do {
     cur_val \<leftarrow> view (sr_id row);
     store_rows view rows (settings_set (sr_id row) cur_val s)
   }"

definition save_changes ::
  "view \<Rightarrow> settings_page \<Rightarrow> settings \<Rightarrow> (settings \<times> string \<times> string \<times> string) run" where
  "save_changes view page s = do {
     s' \<leftarrow> store_rows view (sp_rows page) s;
     files \<leftarrow> write_settings s';
     ret (s', files)
   }"

text \<open>The fields shown for a page.\<close>

definition populate_list_view :: "settings_page \<Rightarrow> settings \<Rightarrow> view" where
  "populate_list_view page s = map_of (map (\<lambda>row. (sr_id row,
     case settings_get s (sr_id row) of
       Some v \<Rightarrow> v
     | None \<Rightarrow> (case sr_default row of Some d \<Rightarrow> d | None \<Rightarrow> []))) (sp_rows page))"

definition switch_categories :: "settings_page \<Rightarrow> settings \<Rightarrow> (view \<times> settings) run" where
  "switch_categories new_page s = do {
     i \<leftarrow> get_page_index (sp_name new_page);
     ret (populate_list_view new_page s, settings_set ''last-page'' (show_nat i) s)
   }"

text \<open>Choosing another page; \<open>save\<close> is the answer to the question whether to save changes.\<close>

definition submit_page :: "bool \<Rightarrow> settings_page \<Rightarrow> view \<Rightarrow> settings \<Rightarrow> (view \<times> settings) run" where
  "submit_page save new_page view s = do {
     last \<leftarrow> settings_get s ''last-page'';
     last_ix \<leftarrow> parse_u64 last;
     last_page \<leftarrow> vec_get page_list (unat last_ix);
     changed \<leftarrow> check_changes view last_page s;
     if changed then do {
       ix \<leftarrow> get_page_index (sp_name new_page);
       target \<leftarrow> vec_get page_list ix;
       s' \<leftarrow> (if save then map_option fst (save_changes view last_page s) else ret s);
       switch_categories target s'
     }
     else switch_categories new_page s
   }"

section \<open>First-time configuration\<close>

text \<open>\<open>which\<close> finds the path of a binary, empty when it is not installed.\<close>

definition is_installed :: "(string \<Rightarrow> string) \<Rightarrow> string \<Rightarrow> bool" where
  "is_installed which binary \<longleftrightarrow> which binary \<noteq> []"

definition first_time :: "(string \<Rightarrow> string) \<Rightarrow> settings" where
  "first_time which = settings_set ''node_binary_path'' (which ''node'') settings_new"

definition redis_local :: "(string \<Rightarrow> string) \<Rightarrow> string \<Rightarrow> settings \<Rightarrow> settings" where
  "redis_local which port s =
     settings_set ''redis_server_binary_path'' (which ''redis-server'')
       (settings_set ''redis_host'' (''redis://localhost:'' @ port @ ''/'') s)"

definition redis_remote :: "view \<Rightarrow> settings \<Rightarrow> settings run" where
  "redis_remote view s = do {
     host \<leftarrow> view ''redis_host'';
     port \<leftarrow> view ''redis_port'';
     ret (settings_set ''redis_host'' (''redis://'' @ host @ '':'' @ port @ ''/'') s)
   }"

fun save_settings :: "view \<Rightarrow> string list \<Rightarrow> settings \<Rightarrow> settings" where
  "save_settings view [] s = s"
| "save_settings view (i # ids) s =
     save_settings view ids (case view i of Some v \<Rightarrow> settings_set i v s | None \<Rightarrow> s)"

definition postgres_remote :: "view \<Rightarrow> settings \<Rightarrow> settings" where
  "postgres_remote view s = save_settings view postgres_ids s"

definition postgres_local :: "view \<Rightarrow> settings \<Rightarrow> settings" where
  "postgres_local view s =
     save_settings view postgres_ids (settings_set ''postgres_host'' ''localhost'' s)"

definition check_data_dir :: "(string \<Rightarrow> bool) \<Rightarrow> string \<Rightarrow> string + unit" where
  "check_data_dir exists dir =
     (if exists dir then Inr ()
      else Inl (''The path you specified does not exist.  Please make sure that you supplied a directory that the '' @
        ''platform's user has full read and write access to.''))"

definition set_data_dir :: "(string \<Rightarrow> bool) \<Rightarrow> view \<Rightarrow> settings \<Rightarrow> (string + settings) run" where
  "set_data_dir exists view s = do {
     dir \<leftarrow> view ''data_directory'';
     ret (case check_data_dir exists dir of
            Inr u \<Rightarrow> Inr (settings_set ''data_dir'' dir s)
          | Inl err \<Rightarrow> Inl err)
   }"

definition fxcm_config :: "view \<Rightarrow> settings \<Rightarrow> settings run" where
  "fxcm_config view s = do {
     username \<leftarrow> view ''fxcm_username'';
     password \<leftarrow> view ''fxcm_password'';
     ret (settings_set ''fxcm_url'' ''http://www.fxcorporate.com/Hosts.jsp''
       (settings_set ''fxcm_password'' password (settings_set ''fxcm_username'' username s)))
   }"

text \<open>The whole course of it, up to the settings that are written at its end.\<close>

record wizard =
  wz_which :: "string \<Rightarrow> string"
  wz_exists :: "string \<Rightarrow> bool"
  wz_redis_here :: bool
  wz_redis_port :: string
  wz_redis_view :: view
  wz_postgres_here :: bool
  wz_postgres_view :: view
  wz_data_view :: view
  wz_fxcm_view :: view

definition first_configuration :: "wizard \<Rightarrow> settings run" where
  "first_configuration w = do {
     let s = first_time (wz_which w);
     s \<leftarrow> (if wz_redis_here w then ret (redis_local (wz_which w) (wz_redis_port w) s)
          else redis_remote (wz_redis_view w) s);
     let s = (if wz_postgres_here w then postgres_local (wz_postgres_view w) s
              else postgres_remote (wz_postgres_view w) s);
     r \<leftarrow> set_data_dir (wz_exists w) (wz_data_view w) s;
     (case r of Inl err \<Rightarrow> panic | Inr s \<Rightarrow> fxcm_config (wz_fxcm_view w) s)
   }"

section \<open>Values and types\<close>

definition plain_text :: "string \<Rightarrow> bool" where
  "plain_text s \<longleftrightarrow> list_all (\<lambda>c. c \<noteq> CHR 0x22 \<and> c \<noteq> CHR 0x5C) s"

definition numeral_text :: "string \<Rightarrow> bool" where
  "numeral_text s \<longleftrightarrow> s \<noteq> [] \<and> list_all (\<lambda>c. char_digit c \<noteq> None) s \<and> parse_u64 s \<noteq> None"

definition value_ok :: "setting_type \<Rightarrow> string \<Rightarrow> bool" where
  "value_ok ty v =
     (case ty of
        UsizeT \<Rightarrow> numeral_text v
      | BooleanT \<Rightarrow> v = ''true'' \<or> v = ''false''
      | _ \<Rightarrow> plain_text v)"

text \<open>A Rust expression of one of the four types a field of the configuration can have.\<close>

definition rust_typed :: "string \<Rightarrow> string \<Rightarrow> bool" where
  "rust_typed ty v \<longleftrightarrow>
     (ty = ''&'static str'' \<and> (\<exists>s. plain_text s \<and> v = quoted s)) \<or>
     (ty = ''usize'' \<and> numeral_text v) \<or>
     (ty = ''bool'' \<and> (v = ''true'' \<or> v = ''false'')) \<or>
     (ty = ''Option<&'static str>'' \<and> (v = ''None'' \<or> (\<exists>s. plain_text s \<and> v = ''Some('' @ quoted s @ '')'')))"

lemma concat_run_returns: "\<forall>x\<in>set xs. \<exists>s. f x = Some s \<Longrightarrow> \<exists>s. concat_run f xs = Some s"
  by (induction xs) auto

lemma concat_run_split:
  "concat_run f (xs @ y # ys) = Some c \<Longrightarrow> \<exists>a b d. f y = Some b \<and> c = a @ b @ d"
proof (induction xs arbitrary: c)
  case (Cons x xs)
  then obtain s rest where "concat_run f (xs @ y # ys) = Some rest" "c = s @ rest"
    by (auto simp: bind_Some_iff)
  with Cons.IH obtain a b d where "f y = Some b" "c = (s @ a) @ b @ d" by fastforce
  then show ?case by blast
qed (auto simp: bind_Some_iff intro: exI [of _ "[]"])

lemma row_of_page: "page \<in> set page_list \<Longrightarrow> row \<in> set (sp_rows page) \<Longrightarrow> row \<in> set all_rows"
  by (auto simp: all_rows_def)

lemma bind_returns: "\<exists>x. m = Some x \<Longrightarrow> \<exists>c. m \<bind> (\<lambda>x. ret (h x)) = Some c"
  by auto

text \<open>A file is written page by page and row by row; it is complete when no row fails.\<close>

lemma rows_return:
  assumes "\<And>row. row \<in> set all_rows \<Longrightarrow> \<exists>c. f row = Some c" and "page \<in> set page_list"
  shows "\<exists>c. concat_run f (sp_rows page) = Some c"
  using assms(1) row_of_page [OF assms(2)] by (intro concat_run_returns) blast

lemma pages_return:
  assumes "\<And>row. row \<in> set all_rows \<Longrightarrow> \<exists>c. f row = Some c"
  shows "\<exists>c. concat_run (\<lambda>page. do { rows \<leftarrow> concat_run f (sp_rows page); ret (g page rows) }) page_list = Some c"
  using rows_return [OF assms] by (intro concat_run_returns ballI) fastforce

lemma write_settings_returns:
  assumes "\<forall>row\<in>set all_rows. raw_val row (s (sr_id row)) \<noteq> None"
  shows "\<exists>json rust js. write_settings s = Some (json, rust, js)"
proof -
  have val: "\<exists>v. raw_val row (s (sr_id row)) = Some v" if "row \<in> set all_rows" for row
    using assms that by auto
  have "\<exists>c. concat_run (\<lambda>page. json_format_page page s) page_list = Some c"
    unfolding json_format_page_def using val
    by (intro concat_run_returns ballI rows_return) (fastforce simp: json_val_def settings_get_def)+
  then have "\<exists>c. write_json s = Some c" by (auto simp: write_json_def Let_def)
  moreover have "\<exists>c. gen_rust_struct s = Some c"
    unfolding gen_rust_struct_def using val
    by (intro bind_returns pages_return) (fastforce simp: rust_val_def settings_get_def)
  moreover have "\<exists>c. write_js s = Some c"
    unfolding write_js_def using val
    by (intro bind_returns pages_return) (fastforce simp: js_val_def settings_get_def)
  ultimately show ?thesis by (auto simp: write_settings_def write_rust_def)
qed

lemmas page_defs = postgres_settings_def redis_settings_def mm_settings_def fxcm_settings_def
  general_settings_def commandserver_queryserver_settings_def runtime_settings_def fuzzer_settings_def
  data_downloader_settings_def

lemma default_values_ok:
  "list_all (\<lambda>row. case sr_default row of None \<Rightarrow> True | Some v \<Rightarrow> value_ok (sr_type row) v) all_rows"
  by (simp add: all_rows_def page_list_def page_defs settings_page.make_def setting_row.make_def
      value_ok_def plain_text_def numeral_text_def parse_u64_def parse_nat_def char_digit_def)

lemma rows_without_default:
  "list_all (\<lambda>row. sr_default row \<noteq> None \<or> sr_id row \<in> set [''postgres_user'', ''postgres_password'',
    ''postgres_db'', ''fxcm_username'', ''fxcm_password'', ''data_dir'', ''node_binary_path'']) all_rows"
  by code_simp

lemma distinct_ids: "distinct (map sr_id all_rows)"
  by code_simp


definition ex_settings_map :: settings where
  "ex_settings_map = map_of [(''postgres_user'', ''u''), (''postgres_password'', ''p''), (''postgres_db'', ''d''),
     (''fxcm_username'', ''u''), (''fxcm_password'', ''p''), (''data_dir'', ''dir''), (''node_binary_path'', ''node'')]"


section \<open>Reading the settings back\<close>

text \<open>What is known of the parser of a map from strings to strings: it refuses a null.\<close>

definition refuses_null :: "(string \<Rightarrow> settings option) \<Rightarrow> bool" where
  "refuses_null from_json \<longleftrightarrow>
     (\<forall>pre k post. plain_text k \<longrightarrow> from_json (pre @ quoted k @ '': null'' @ post) = None)"

lemma save_settings_other: "i \<notin> set ids \<Longrightarrow> save_settings view ids s i = s i"
  by (induction ids arbitrary: s) (auto simp: settings_set_def split: option.splits)

lemma save_settings_set: "i \<in> set ids \<Longrightarrow> view i \<noteq> None \<Longrightarrow> save_settings view ids s i \<noteq> None"
proof (induction ids arbitrary: s)
  case (Cons j ids)
  then show ?case
    by (cases "i \<in> set ids") (auto simp: save_settings_other settings_set_def split: option.splits)
qed simp

lemma take_before_end: "k \<le> length y \<Longrightarrow> take (length (x @ n @ y) - k) (x @ n @ y) = x @ n @ take (length y - k) y"
  by simp

lemma json_has_pin:
  assumes "write_json s = Some json" and "s ''fxcm_pin'' = None"
  shows "\<exists>pre post. json = pre @ quoted ''fxcm_pin'' @ '': null'' @ post"
proof -
  obtain pages where pages: "concat_run (\<lambda>page. json_format_page page s) page_list = Some pages"
    and json: "json = take (length (''{'' @ nl @ pages) - 2) (''{'' @ nl @ pages) @ nl @ ''}'' @ nl"
    using assms(1) by (auto simp: write_json_def Let_def bind_Some_iff)
  have "page_list = [postgres_settings, redis_settings, mm_settings] @ fxcm_settings #
      [general_settings, commandserver_queryserver_settings, runtime_settings, fuzzer_settings, data_downloader_settings]"
    by (simp add: page_list_def)
  from concat_run_split [OF pages [unfolded this]] obtain a b d
    where b: "json_format_page fxcm_settings s = Some b" and p: "pages = a @ b @ d" by auto
  obtain rows pin where rows: "sp_rows fxcm_settings = rows @ pin # []" "sr_id pin = ''fxcm_pin''"
      "sr_type pin = OptionStringT" "sr_default pin = Some []"
    by (simp add: fxcm_settings_def settings_page.make_def setting_row.make_def)
  from concat_run_split [OF b [unfolded json_format_page_def rows(1)]] obtain a' b' d'
    where b': "json_val pin (settings_get s (sr_id pin)) = Some ''null''"
      and c: "b = a' @ (''    '' @ quoted (sr_id pin) @ '': '' @ ''null'' @ '','' @ nl) @ d'"
    using assms(2) rows by (auto simp: json_val_def raw_val_def settings_get_def bind_Some_iff)
  let ?x = "''{'' @ nl @ a @ a' @ ''    ''"
  let ?n = "quoted ''fxcm_pin'' @ '': null''"
  let ?y = "'','' @ nl @ d' @ d"
  have content: "''{'' @ nl @ pages = ?x @ ?n @ ?y" by (simp add: p c rows(2))
  have "take (length (?x @ ?n @ ?y) - 2) (?x @ ?n @ ?y) = ?x @ ?n @ take (length ?y - 2) ?y"
    by (rule take_before_end) simp
  then have "json = ?x @ ?n @ take (length ?y - 2) ?y @ nl @ ''}'' @ nl" unfolding json content by simp
  then show ?thesis by (metis append_assoc)
qed

text \<open>The dialogs from the data directory on set four values and nothing else.\<close>

lemma data_and_fxcm_settings:
  assumes "set_data_dir ex view s2 = Some r"
    and "(case r of Inl err \<Rightarrow> panic | Inr s' \<Rightarrow> fxcm_config fview s') = Some s"
  obtains dir u p where "s = s2(''data_dir'' \<mapsto> dir, ''fxcm_username'' \<mapsto> u, ''fxcm_password'' \<mapsto> p,
      ''fxcm_url'' \<mapsto> ''http://www.fxcorporate.com/Hosts.jsp'')"
proof -
  obtain s' where s': "r = Inr s'" "fxcm_config fview s' = Some s" using assms(2) by (cases r) auto
  have "\<exists>dir. s' = s2(''data_dir'' \<mapsto> dir)"
    using assms(1) unfolding s'(1) set_data_dir_def bind_Some_iff settings_set_def check_data_dir_def
    by (auto split: if_splits)
  moreover have "\<exists>u p. s = s'(''fxcm_username'' \<mapsto> u, ''fxcm_password'' \<mapsto> p,
      ''fxcm_url'' \<mapsto> ''http://www.fxcorporate.com/Hosts.jsp'')"
    using s'(2) by (auto simp: fxcm_config_def settings_set_def bind_Some_iff)
  ultimately show ?thesis using that by blast
qed

text \<open>The first-time configuration gives every row a value, except the one of the pin.\<close>

lemma first_configuration_settings:
  assumes "first_configuration w = Some s"
    and "\<forall>i\<in>{''postgres_user'', ''postgres_password'', ''postgres_db''}. wz_postgres_view w i \<noteq> None"
  shows "\<forall>row\<in>set all_rows. raw_val row (s (sr_id row)) \<noteq> None" and "s ''fxcm_pin'' = None"
proof -
  let ?pg = "\<lambda>s1. if wz_postgres_here w then postgres_local (wz_postgres_view w) s1
    else postgres_remote (wz_postgres_view w) s1"
  have "\<exists>s1. (if wz_redis_here w then ret (redis_local (wz_which w) (wz_redis_port w) (first_time (wz_which w)))
       else redis_remote (wz_redis_view w) (first_time (wz_which w))) = Some s1 \<and>
     (\<exists>r. set_data_dir (wz_exists w) (wz_data_view w) (?pg s1) = Some r \<and>
       (case r of Inl err \<Rightarrow> panic | Inr s' \<Rightarrow> fxcm_config (wz_fxcm_view w) s') = Some s)"
    using assms(1) by (simp only: first_configuration_def Let_def bind_Some_iff)
  then obtain s1 r where "(if wz_redis_here w then ret (redis_local (wz_which w) (wz_redis_port w) (first_time (wz_which w)))
       else redis_remote (wz_redis_view w) (first_time (wz_which w))) = Some s1"
    and data: "set_data_dir (wz_exists w) (wz_data_view w) (?pg s1) = Some r"
      "(case r of Inl err \<Rightarrow> panic | Inr s' \<Rightarrow> fxcm_config (wz_fxcm_view w) s') = Some s"
    by blast
  then have s1: "s1 ''node_binary_path'' \<noteq> None" "s1 ''fxcm_pin'' = None"
    by (auto simp: first_time_def redis_local_def redis_remote_def settings_set_def settings_new_def
        bind_Some_iff split: if_splits)
  obtain dir u p where fin: "s = (?pg s1)(''data_dir'' \<mapsto> dir, ''fxcm_username'' \<mapsto> u, ''fxcm_password'' \<mapsto> p,
      ''fxcm_url'' \<mapsto> ''http://www.fxcorporate.com/Hosts.jsp'')"
    using data_and_fxcm_settings [OF data] .
  define s2 where s2: "s2 = ?pg s1"
  have s2': "s2 ''node_binary_path'' \<noteq> None" "s2 ''fxcm_pin'' = None"
    "\<forall>i\<in>{''postgres_user'', ''postgres_password'', ''postgres_db''}. s2 i \<noteq> None"
    using s1 assms(2) unfolding s2
    by (auto simp: postgres_local_def postgres_remote_def save_settings_other settings_set_def
        postgres_ids_def split: option.splits)
  show "\<forall>row\<in>set all_rows. raw_val row (s (sr_id row)) \<noteq> None"
    using rows_without_default s2' fin [folded s2] by (auto simp: list_all_iff raw_val_def split: option.splits)
  show "s ''fxcm_pin'' = None" using s2' fin [folded s2] by auto
qed

text \<open>The first-time configuration, once it gets through its forms, always ends with settings
  that can be written to all three files; but it never asks for the FXCM pin, which is
  therefore written to the JSON file as a null, and a parser that refuses a null where a
  string is wanted makes the configurator panic when it is started again.\<close>

lemma configured_cannot_reopen:
  assumes "first_configuration w = Some s"
    and "\<forall>i\<in>{''postgres_user'', ''postgres_password'', ''postgres_db''}. wz_postgres_view w i \<noteq> None"
    and "refuses_null from_json"
  shows "\<exists>json rust js. write_settings s = Some (json, rust, js) \<and> read_json from_json (Some json) = None"
proof -
  note s = first_configuration_settings [OF assms(1,2)]
  obtain json rust js where w: "write_settings s = Some (json, rust, js)"
    using write_settings_returns [OF s(1)] by blast
  then have "write_json s = Some json" by (auto simp: write_settings_def bind_Some_iff)
  with s(2) obtain pre post where "json = pre @ quoted ''fxcm_pin'' @ '': null'' @ post"
    using json_has_pin by blast
  moreover have "plain_text ''fxcm_pin''" by (simp add: plain_text_def)
  ultimately have "read_json from_json (Some json) = None"
    using assms(3) by (simp add: read_json_def refuses_null_def)
  with w show ?thesis by blast
qed

end
