(* ===== verification/Tg_Logger.thy ===== *)
theory Tg_Logger
  imports Tg_Text Tg_Commands
begin

text \<open>
  The logger (\<open>logger/src/main.rs\<close>): the loop over the messages of the platform, which
  stores log messages in the database and answers the other commands, and the statements
  it sends. JSON, the clock's printed value and the printing of uuids are parameters.
\<close>

section \<open>Statements\<close>

abbreviation apostrophe :: char where
  "apostrophe \<equiv> CHR 0x27"

fun level_to_int :: "log_level \<Rightarrow> u8" where
  "level_to_int Notice = 0"
| "level_to_int Debug = 1"
| "level_to_int Warning = 2"
| "level_to_int Error = 3"
| "level_to_int Critical = 4"

text \<open>\<open>replace\<close> of each apostrophe by two.\<close>

fun escape :: "string \<Rightarrow> string" where
  "escape [] = []"
| "escape (c # cs) = (if c = apostrophe then apostrophe # apostrophe # escape cs else c # escape cs)"

text \<open>
  The outside of the logger: the table of the configuration, the JSON of an instance, the
  current time as it is printed, uuids and the parser of commands.
\<close>

record logger_env =
  lg_table :: string
  lg_instance_json :: "instance_id \<Rightarrow> string run"
  lg_time :: string
  lg_hyphenated :: "uuid \<Rightarrow> string"
  lg_parse :: "string \<Rightarrow> wrapped_command option"

definition new_line :: string where
  "new_line = CHR 0x0A # ''        ''"

definition gen_log_query :: "logger_env \<Rightarrow> log_message \<Rightarrow> string run" where
  "gen_log_query env msg = do {
     sender \<leftarrow> lg_instance_json env (lm_sender msg);
     ret (''INSERT INTO '' @ lg_table env @ new_line @
       ''(sender_instance, message_type, message, level, log_time)'' @ new_line @
       ''VALUES('' @ [apostrophe] @ escape sender @ [apostrophe] @ '', '' @
       [apostrophe] @ escape (lm_message_type msg) @ [apostrophe] @ '', '' @
       [apostrophe] @ escape (lm_message msg) @ [apostrophe] @ '', '' @
       show_word (level_to_int (lm_level msg)) @ '', '' @ lg_time env @ '');'')
   }"

definition sql_line :: string where
  "sql_line = CHR 0x0A # ''            ''"

definition init_persistance :: "logger_env \<Rightarrow> string" where
  "init_persistance env =
     ''CREATE TABLE IF NOT EXISTS '' @ lg_table env @ sql_line @ ''('' @ sql_line @
     ''  ID SERIAL PRIMARY KEY,'' @ sql_line @ ''  sender_instance text,'' @ sql_line @
     ''  message_type text,'' @ sql_line @ ''  message text,'' @ sql_line @
     ''  level smallint,'' @ sql_line @ ''  log_time double precision NOT NULL'' @ sql_line @
     '')'' @ sql_line @ ''WITH ('' @ sql_line @ ''  OIDS=FALSE'' @ sql_line @ '');''"

section \<open>The loop\<close>

definition logger_reply :: "logger_env \<Rightarrow> uuid \<Rightarrow> command \<Rightarrow> response option" where
  "logger_reply env u cmd =
     (case cmd of
        Cmd_Type \<Rightarrow> Some (Info ''Logger'')
      | Cmd_Ping \<Rightarrow> Some (Res_Pong [lg_hyphenated env u])
      | Kill \<Rightarrow> Some (Info ''Logger shutting down in 3 seconds...'')
      | _ \<Rightarrow> None)"

text \<open>
  The statements executed and the responses published; a message that is no command ends
  the loop.
\<close>

fun logger_listen :: "logger_env \<Rightarrow> uuid \<Rightarrow> string list \<Rightarrow> (string list \<times> wrapped_response list) run" where
  "logger_listen env u [] = ret ([], [])"
| "logger_listen env u (wr_cmd_string # msgs) =
     (case lg_parse env wr_cmd_string of
        None \<Rightarrow> ret ([], [])
      | Some wr_cmd \<Rightarrow> do {
          queries \<leftarrow> (case wc_cmd wr_cmd of
              Log msg \<Rightarrow> map_option (\<lambda>q. [q]) (gen_log_query env msg)
            | _ \<Rightarrow> ret []);
          (rest_queries, rest) \<leftarrow> logger_listen env u msgs;
          ret (queries @ rest_queries,
            (case logger_reply env u (wc_cmd wr_cmd) of
               None \<Rightarrow> [] | Some r \<Rightarrow> [response_wrap r (wc_uuid wr_cmd)]) @ rest)
        })"

section \<open>Escaping\<close>

text \<open>
  How SQL reads a string after its opening apostrophe: two apostrophes are one character,
  a single one ends the string. The result is the string and what follows it.
\<close>

fun sql_string :: "string \<Rightarrow> (string \<times> string) option" where
  "sql_string [] = None"
| "sql_string (c # cs) =
     (if c \<noteq> apostrophe then map_option (map_prod ((#) c) id) (sql_string cs)
      else case cs of
          [] \<Rightarrow> Some ([], [])
        | d # ds \<Rightarrow> if d = apostrophe then map_option (map_prod ((#) apostrophe) id) (sql_string ds)
                    else Some ([], cs))"

text \<open>An escaped string is read as the string it was: it cannot end early and be taken for SQL.\<close>

lemma escape_read_back:
  assumes "rest \<noteq> []" and "hd rest \<noteq> apostrophe"
  shows "sql_string (escape s @ apostrophe # rest) = Some (s, rest)"
proof (induction s)
  case Nil
  then show ?case using assms by (cases rest) simp_all
qed simp

text \<open>
  The levels stored do not follow the severity: a notice is stored below a debug message.
\<close>

lemma level_order_differs: "Debug < Notice \<and> level_to_int Notice < level_to_int Debug"
  by (simp add: less_log_level_def)

section \<open>The logger as a module\<close>

text \<open>Its state is its uuid; the statements it executes do not change it.\<close>

definition logger_module :: "logger_env \<Rightarrow> uuid handler" where
  "logger_module env u cmd own = ret (logger_reply env own cmd, own)"

interpretation logging: platform_module "logger_module env" "lg_hyphenated env"
  by unfold_locales (simp_all add: logger_module_def logger_reply_def)

end
