(* ===== verification/Tg_Poloniex.thy ===== *)
theory Tg_Poloniex
  imports Tg_Tickstream
begin

text \<open>
  The pipelines for the streams of Poloniex (\<open>util/src/transport/tickstream/maps/poloniex.rs\<close>
  and \<open>util/src/transport/ffi/poloniex.rs\<close>): the maps from JSON to the changes of an order
  book and to trades, and the executors that feed them from outside. The prices are 32-bit
  floating point numbers, whose parser is a parameter, as is that of JSON.
\<close>

section \<open>Maps\<close>

record 'a timed =
  gt_timestamp :: u64
  gt_data :: 'a

record 'f book_modification =
  bm_rate :: 'f
  bm_is_bid :: bool
  bm_amount :: 'f

record 'f book_removal =
  br_rate :: 'f
  br_is_bid :: bool

record 'f poloniex_trade =
  pt_trade_id :: usize
  pt_rate :: 'f
  pt_amount :: 'f
  pt_date :: string
  pt_total :: 'f
  pt_is_buy :: bool

type_synonym fields = "string \<rightharpoonup> string"

text \<open>A missing field is a panic; one that cannot be parsed is an error (\<^term>\<open>Inl ()\<close>).\<close>

definition field :: "fields \<Rightarrow> string \<Rightarrow> (string \<Rightarrow> 'a option) \<Rightarrow> (unit + 'a) run" where
  "field hm key parse = do {
     v \<leftarrow> hm key;
     ret (case parse v of None \<Rightarrow> Inl () | Some x \<Rightarrow> Inr x)
   }"

definition parse_book_modification_hashmap ::
  "(string \<Rightarrow> 'f option) \<Rightarrow> fields \<Rightarrow> (unit + 'f book_modification) run" where
  "parse_book_modification_hashmap parse hm = do {
     rate \<leftarrow> field hm ''rate'' parse;
     case rate of
       Inl e \<Rightarrow> ret (Inl e)
     | Inr rate \<Rightarrow> do {
         kind \<leftarrow> hm ''type'';
         amount \<leftarrow> field hm ''amount'' parse;
         ret (case amount of
                Inl e \<Rightarrow> Inl e
              | Inr amount \<Rightarrow> Inr \<lparr>bm_rate = rate, bm_is_bid = (kind = ''bid''), bm_amount = amount\<rparr>)
       }
   }"

definition parse_book_removal_hashmap ::
  "(string \<Rightarrow> 'f option) \<Rightarrow> fields \<Rightarrow> (unit + 'f book_removal) run" where
  "parse_book_removal_hashmap parse hm = do {
     rate \<leftarrow> field hm ''rate'' parse;
     case rate of
       Inl e \<Rightarrow> ret (Inl e)
     | Inr rate \<Rightarrow> do {
         kind \<leftarrow> hm ''type'';
         ret (Inr \<lparr>br_rate = rate, br_is_bid = (kind = ''bid'')\<rparr>)
       }
   }"

definition parse_trade_hashmap ::
  "(string \<Rightarrow> 'f option) \<Rightarrow> fields \<Rightarrow> (unit + 'f poloniex_trade) run" where
  "parse_trade_hashmap parse hm = do {
     trade_id \<leftarrow> field hm ''tradeID'' parse_u64;
     case trade_id of Inl e \<Rightarrow> ret (Inl e) | Inr trade_id \<Rightarrow> do {
     rate \<leftarrow> field hm ''rate'' parse;
     case rate of Inl e \<Rightarrow> ret (Inl e) | Inr rate \<Rightarrow> do {
     amount \<leftarrow> field hm ''amount'' parse;
     case amount of Inl e \<Rightarrow> ret (Inl e) | Inr amount \<Rightarrow> do {
     date \<leftarrow> hm ''date'';
     amount_paid \<leftarrow> field hm ''total'' parse;
     case amount_paid of Inl e \<Rightarrow> ret (Inl e) | Inr amount_paid \<Rightarrow> do {
     kind \<leftarrow> hm ''type'';
     ret (Inr \<lparr>pt_trade_id = trade_id, pt_rate = rate, pt_amount = amount, pt_date = date,
       pt_total = amount_paid, pt_is_buy = (kind = ''buy'')\<rparr>)
   }}}}}"

text \<open>
  A map drops what is not JSON, lacks a key of the map's list or cannot be parsed.
\<close>

definition gen_map ::
  "(string \<Rightarrow> fields option) \<Rightarrow> string list \<Rightarrow> (fields \<Rightarrow> (unit + 'a) run) \<Rightarrow> string timed \<Rightarrow>
     'a timed option run" where
  "gen_map from_json keys parse t =
     (case from_json (gt_data t) of
        None \<Rightarrow> ret None
      | Some hm \<Rightarrow>
          if \<not> list_all (\<lambda>k. hm k \<noteq> None) keys then ret None
          else do {
            r \<leftarrow> parse hm;
            ret (case r of
                   Inl e \<Rightarrow> None
                 | Inr x \<Rightarrow> Some \<lparr>gt_timestamp = gt_timestamp t, gt_data = x\<rparr>)
          })"

definition book_modify_map ::
  "(string \<Rightarrow> fields option) \<Rightarrow> (string \<Rightarrow> 'f option) \<Rightarrow> string timed \<Rightarrow>
     'f book_modification timed option run" where
  "book_modify_map from_json parse =
     gen_map from_json [''rate'', ''type'', ''amount''] (parse_book_modification_hashmap parse)"

definition book_removal_map ::
  "(string \<Rightarrow> fields option) \<Rightarrow> (string \<Rightarrow> 'f option) \<Rightarrow> string timed \<Rightarrow>
     'f book_removal timed option run" where
  "book_removal_map from_json parse =
     gen_map from_json [''rate'', ''type''] (parse_book_removal_hashmap parse)"

definition trade_map ::
  "(string \<Rightarrow> fields option) \<Rightarrow> (string \<Rightarrow> 'f option) \<Rightarrow> string timed \<Rightarrow>
     'f poloniex_trade timed option run" where
  "trade_map from_json parse =
     gen_map from_json [''tradeID'', ''rate'', ''amount'', ''date'', ''type''] (parse_trade_hashmap parse)"

section \<open>Executors\<close>

datatype executor = Book_modification | Book_removal | New_trade

text \<open>The ids are read as 32-bit integers; other ids are not implemented.\<close>

definition executor_of :: "64 word \<Rightarrow> executor run" where
  "executor_of executor_id =
     (let i = (ucast executor_id :: 32 word)
      in if i = 25 then ret Book_modification
         else if i = 26 then ret Book_removal
         else if i = 27 then ret New_trade
         else panic)"

text \<open>The only sink is the CSV file, number \<open>5\<close>; \<open>create\<close> opens it.\<close>

definition poloniex_sink :: "(string \<Rightarrow> string + 'w) \<Rightarrow> 32 word \<Rightarrow> string \<Rightarrow> 'w run" where
  "poloniex_sink create sink_id path_string =
     (if sink_id = 5
      then (case csv_sink_new create [''output_path'' \<mapsto> path_string] of Inl e \<Rightarrow> panic | Inr w \<Rightarrow> ret w)
      else panic)"

definition get_executor ::
  "(string \<Rightarrow> string + 'w) \<Rightarrow> 64 word \<Rightarrow> 64 word \<Rightarrow> string \<Rightarrow> (executor \<times> 'w) run" where
  "get_executor create executor_id sink_id sink_arg1 = do {
     ex \<leftarrow> executor_of executor_id;
     sink \<leftarrow> poloniex_sink create (ucast sink_id) sink_arg1;
     ret (ex, sink)
   }"

datatype 'f poloniex_event =
    Modified "'f book_modification timed"
  | Removed "'f book_removal timed"
  | Traded "'f poloniex_trade timed"

text \<open>Milliseconds become nanoseconds; what the map lets through goes into the sink.\<close>

definition raw_tick :: "64 word \<Rightarrow> string \<Rightarrow> string timed" where
  "raw_tick timestamp json = \<lparr>gt_timestamp = timestamp * 1000 * 1000, gt_data = json\<rparr>"

definition process_event ::
  "(string \<Rightarrow> fields option) \<Rightarrow> (string \<Rightarrow> 'f option) \<Rightarrow> 64 word \<Rightarrow> 64 word \<Rightarrow> string \<Rightarrow>
     'f poloniex_event list \<Rightarrow> 'f poloniex_event list run" where
  "process_event from_json parse event_id timestamp json sink = do {
     ex \<leftarrow> executor_of event_id;
     out \<leftarrow> (case ex of
         Book_modification \<Rightarrow> map_option (map_option Modified) (book_modify_map from_json parse (raw_tick timestamp json))
       | Book_removal \<Rightarrow> map_option (map_option Removed) (book_removal_map from_json parse (raw_tick timestamp json))
       | New_trade \<Rightarrow> map_option (map_option Traded) (trade_map from_json parse (raw_tick timestamp json)));
     ret (case out of None \<Rightarrow> sink | Some e \<Rightarrow> sink @ [e])
   }"

section \<open>The keys that are checked\<close>

text \<open>The checks of the two book maps make their parsers total.\<close>

lemma book_maps_return:
  "book_modify_map from_json parse t \<noteq> None" "book_removal_map from_json parse t \<noteq> None"
  by (auto simp: book_modify_map_def book_removal_map_def gen_map_def parse_book_modification_hashmap_def
      parse_book_removal_hashmap_def field_def split: option.splits sum.splits)

text \<open>The check of the trade map does not: a trade without a total is a panic.\<close>

lemma trade_without_total_panics:
  assumes "from_json (gt_data t) = Some hm" and "hm ''total'' = None"
    and "hm ''tradeID'' = Some a" and "hm ''rate'' = Some b" and "hm ''amount'' = Some c"
    and "hm ''date'' = Some d" and "hm ''type'' = Some e"
    and "parse_u64 a = Some i" and "parse b = Some x" and "parse c = Some y"
  shows "trade_map from_json parse t = None"
  using assms by (simp add: trade_map_def gen_map_def parse_trade_hashmap_def field_def)

end
