(* ===== verification/Tg_CInterface.thy ===== *)
theory Tg_CInterface
  imports Tg_Data Tg_CommandServer
begin

text \<open>
  The C interface of the library (\<open>util/src/transport/ffi/mod.rs\<close>), through which the data
  downloaders in other languages move ticks and write to the log.
\<close>

section \<open>Pointers to strings\<close>

text \<open>
  A pointer is \<open>None\<close> when it is null, and otherwise the memory from it on. Reading through a
  null pointer, or a string that does not end within 100000 bytes, is undefined behaviour; the
  model has no result then. Texts are ASCII.
\<close>

type_synonym c_string = "string option"

definition ptr_to_cstring :: "c_string \<Rightarrow> string run" where
  "ptr_to_cstring ptr =
     (case ptr of
        None \<Rightarrow> panic
      | Some mem \<Rightarrow>
          (if CHR 0x00 \<in> set (take 100000 mem) then ret (takeWhile (\<lambda>c. c \<noteq> CHR 0x00) mem) else panic))"

text \<open>A string that is passed with its end is read back.\<close>

lemma ptr_to_cstring_terminated:
  assumes "CHR 0x00 \<notin> set s" and "length s < 100000"
  shows "ptr_to_cstring (Some (s @ CHR 0x00 # rest)) = ret s"
proof -
  have "takeWhile (\<lambda>c. c \<noteq> CHR 0x00) (s @ CHR 0x00 # rest) = s"
    using assms(1) by (subst takeWhile_append2) auto
  moreover have "CHR 0x00 \<in> set (take 100000 (s @ CHR 0x00 # rest))"
    using assms(2) by (cases "100000 - length s") simp_all
  ultimately show ?thesis by (simp add: ptr_to_cstring_def)
qed

section \<open>Destinations\<close>

text \<open>A number without a meaning is a panic.\<close>

definition build_htd :: "32 word \<Rightarrow> c_string \<Rightarrow> c_string \<Rightarrow> hist_tick_dst run" where
  "build_htd i arg1 arg2 =
     (if i = 0 then do { filename \<leftarrow> ptr_to_cstring arg1; ret (Flatfile filename) }
      else if i = 1 then do { table \<leftarrow> ptr_to_cstring arg1; ret (Postgres table) }
      else if i = 2 then do {
        host \<leftarrow> ptr_to_cstring arg1;
        channel \<leftarrow> ptr_to_cstring arg2;
        ret (RedisChannel host channel)
      }
      else if i = 3 then do {
        host \<leftarrow> ptr_to_cstring arg1;
        set_name \<leftarrow> ptr_to_cstring arg2;
        ret (RedisSet host set_name)
      }
      else if i = 4 then ret Console
      else panic)"

definition show_i32 :: "32 word \<Rightarrow> string" where
  "show_i32 i =
     (if 0 \<le> sint i then show_nat (nat (sint i)) else CHR ''-'' # show_nat (nat (- sint i)))"

text \<open>The transfer asked for; without one, the error that is logged and false is returned.\<close>

definition c_transfer_data ::
  "32 word \<Rightarrow> 32 word \<Rightarrow> c_string \<Rightarrow> c_string \<Rightarrow> c_string \<Rightarrow> c_string \<Rightarrow> instance_id \<Rightarrow>
     (command + hist_tick_dst \<times> hist_tick_dst) run" where
  "c_transfer_data src dst src_arg1 src_arg2 dst_arg1 dst_arg2 cs =
     (if src = 0 \<or> src = 1 \<or> src = 2 \<or> src = 3
      then do {
        src_htd \<leftarrow> build_htd src src_arg1 src_arg2;
        dst_htd \<leftarrow> build_htd dst dst_arg1 dst_arg2;
        ret (Inr (src_htd, dst_htd))
      }
      else if src = 4
      then ret (Inl (cs_error cs None ''Unable to use the console as a source of historical ticks!''))
      else ret (Inl (cs_error cs None (''Unknown historical tick src provided: '' @ show_i32 src))))"

definition c_get_rx_closure :: "storage \<Rightarrow> 32 word \<Rightarrow> c_string \<Rightarrow> c_string \<Rightarrow> rx_callback run" where
  "c_get_rx_closure st i arg1 arg2 = do {
     htd \<leftarrow> build_htd i arg1 arg2;
     r \<leftarrow> get_rx_closure st htd;
     case r of Inl e \<Rightarrow> panic | Inr cb \<Rightarrow> ret cb
   }"

definition exec_c_rx_closure ::
  "storage \<Rightarrow> (tick \<Rightarrow> string) \<Rightarrow> rx_callback \<Rightarrow> u64 \<Rightarrow> usize \<Rightarrow> usize \<Rightarrow> rx_callback run" where
  "exec_c_rx_closure st to_json cb timestamp bid ask =
     rx_call st to_json \<lparr>t_bid = bid, t_ask = ask, t_timestamp = timestamp\<rparr> cb"

text \<open>A source that is read over Redis is accepted here but is not implemented as a source.\<close>

lemma c_transfer_of_channel_panics:
  assumes "c_transfer_data 2 dst a b c d cs = Some (Inr (src_htd, dst_htd))"
  shows "transfer_data st to_json open_file query n src_htd dst_htd = None"
  using assms
  by (auto simp: c_transfer_data_def build_htd_def transfer_data_def get_tx_iterator_def bind_Some_iff)

section \<open>Logging\<close>

text \<open>The command that a message of C is logged with.\<close>

definition c_cs_log ::
  "(instance_id \<Rightarrow> string option \<Rightarrow> string \<Rightarrow> command) \<Rightarrow> instance_id \<Rightarrow> c_string \<Rightarrow> c_string \<Rightarrow> command run" where
  "c_cs_log log cs category msg = do {
     cat_str \<leftarrow> ptr_to_cstring category;
     msg_str \<leftarrow> ptr_to_cstring msg;
     ret (log cs (Some cat_str) msg_str)
   }"

definition c_cs_debug :: "instance_id \<Rightarrow> c_string \<Rightarrow> c_string \<Rightarrow> command run" where
  "c_cs_debug = c_cs_log cs_debug"

definition c_cs_notice :: "instance_id \<Rightarrow> c_string \<Rightarrow> c_string \<Rightarrow> command run" where
  "c_cs_notice = c_cs_log cs_notice"

definition c_cs_warning :: "instance_id \<Rightarrow> c_string \<Rightarrow> c_string \<Rightarrow> command run" where
  "c_cs_warning = c_cs_log cs_warning"

definition c_cs_error :: "instance_id \<Rightarrow> c_string \<Rightarrow> c_string \<Rightarrow> command run" where
  "c_cs_error = c_cs_log cs_error"

definition c_cs_critical :: "instance_id \<Rightarrow> c_string \<Rightarrow> c_string \<Rightarrow> command run" where
  "c_cs_critical = c_cs_log cs_critical"

text \<open>Against its documentation, no category is never the category \<open>General\<close>.\<close>

lemma null_category_undefined: "c_cs_log log cs None msg = panic"
  by (simp add: c_cs_log_def ptr_to_cstring_def)

end
