(* ===== verification/Tg_Downloaders.thy ===== *)
theory Tg_Downloaders
  imports Tg_Data Tg_Documents
begin

text \<open>
  The two downloaders of historical ticks of FXCM: the one that fetches weekly archives
  (\<open>data_downloaders/fxcm_flatfile/src/main.rs\<close>) and the one that reads from the native
  interface (\<open>data_downloaders/fxcm_native/src/main.rs\<close>). The calendar, HTTP, floating point
  numbers and the native library are parameters.
\<close>

section \<open>Weekly archives\<close>

definition flatfile_name :: string where
  "flatfile_name = ''FXCM Flatfile Data Downloader''"

definition supported_pairs :: "string list" where
  "supported_pairs =
     [''AUDCAD'', ''AUDCHF'', ''AUDJPY'', ''AUDNZD'', ''CADCHF'', ''EURAUD'', ''EURCHF'', ''EURGBP'',
      ''EURJPY'', ''EURUSD'', ''GBPCHF'', ''GBPJPY'', ''GBPNZD'', ''GBPUSD'', ''NZDCAD'', ''NZDCHF'',
      ''NZDJPY'', ''NZDUSD'', ''USDCAD'', ''USDCHF'', ''USDJPY'']"

text \<open>A week of a year.\<close>

type_synonym week = "nat \<times> nat"

definition get_data_url :: "string \<Rightarrow> week \<Rightarrow> string" where
  "get_data_url symbol yw = ''https://tickdata.fxcorporate.com/'' @ symbol @ ''/'' @ show_nat (fst yw) @
     ''/'' @ show_nat (snd yw) @ ''.csv.gz''"

definition week_file :: "string \<Rightarrow> week \<Rightarrow> string" where
  "week_file dir yw = dir @ ''/'' @ show_nat (fst yw) @ ''_'' @ show_nat (snd yw) @ ''.csv''"

definition next_week :: "week \<Rightarrow> week" where
  "next_week yw = (if snd yw < 52 then (fst yw, snd yw + 1) else (fst yw + 1, 1))"

text \<open>The symbol without its blanks at the ends, in capitals and without slashes.\<close>

definition upper :: "char \<Rightarrow> char" where
  "upper c = (let n = of_char c :: nat in if 97 \<le> n \<and> n \<le> 122 then char_of (n - 32) else c)"

definition clean_symbol :: "string \<Rightarrow> string" where
  "clean_symbol s = filter (\<lambda>c. c \<noteq> CHR ''/'') (map upper (trim s))"

text \<open>
  The first week: \<open>date_of\<close> gives the year and the day of the month of a time in seconds;
  times before the start of the data count as that start.
\<close>

definition data_start :: nat where
  "data_start = 1420329600"  \<comment> \<open>2015-01-04 00:00:00\<close>

definition start_week :: "(nat \<Rightarrow> nat \<times> nat) \<Rightarrow> u64 \<Rightarrow> week" where
  "start_week date_of start_time =
     (let secs = unat start_time div 1000 div 1000 div 1000;
          (year, day) = date_of (max data_start secs)
      in (year, day div 7 + 1))"

text \<open>
  The answer to a request for an archive: a status and, decompressed, a body. \<open>save\<close> writes a
  file. A request that cannot be sent is a panic.
\<close>

datatype http_reply = Http_failed | Http_reply nat "string + string"

definition download_chunk ::
  "(string \<Rightarrow> http_reply) \<Rightarrow> (string \<Rightarrow> string \<Rightarrow> string + unit) \<Rightarrow> (nat \<Rightarrow> string) \<Rightarrow> string \<Rightarrow> string \<Rightarrow>
     (string + bool) run" where
  "download_chunk http save debug_status url dst =
     (case http url of
        Http_failed \<Rightarrow> panic
      | Http_reply status body \<Rightarrow>
          (if status = 404 then ret (Inr False)
           else if status \<noteq> 200
           then ret (Inl (''Unexpected response type from HTTP request: '' @ debug_status status))
           else case body of
                  Inl e \<Rightarrow> ret (Inl e)
                | Inr content \<Rightarrow>
                    (case save dst content of Inl e \<Rightarrow> ret (Inl e) | Inr u \<Rightarrow> ret (Inr True))))"

text \<open>
  Archives are fetched week after week until one is not found; \<open>fetch\<close> is the chunk of an
  address and a file. A server that has every archive keeps the loop going.
\<close>

partial_function (option) fetch_weeks ::
  "(string \<Rightarrow> string \<Rightarrow> (string + bool) run) \<Rightarrow> string \<Rightarrow> string \<Rightarrow> week \<Rightarrow> (string + week) run" where
  "fetch_weeks fetch dir symbol yw =
     Option.bind (fetch (get_data_url symbol yw) (week_file dir yw)) (\<lambda>r.
       case r of
         Inl err \<Rightarrow> Some (Inl err)
       | Inr found \<Rightarrow> if found then fetch_weeks fetch dir symbol (next_week yw) else Some (Inr yw))"

partial_function (option) weeks_until :: "week \<Rightarrow> week \<Rightarrow> week list run" where
  "weeks_until yw stop =
     (if yw = stop then Some [yw]
      else Option.bind (weeks_until (next_week yw) stop) (\<lambda>rest. Some (yw # rest)))"

text \<open>
  The thread of a download: the files handed to the transfer, and the download taken from
  the list of running ones, which panics when it is not there. An error only ends the
  thread.
\<close>

definition download_thread ::
  "(string \<Rightarrow> string \<Rightarrow> (string + bool) run) \<Rightarrow> string \<Rightarrow> string \<Rightarrow> week \<Rightarrow> hist_tick_dst \<Rightarrow> uuid \<Rightarrow>
     (uuid, running_download) hash_map \<Rightarrow>
     ((hist_tick_dst \<times> hist_tick_dst) list \<times> command list \<times> (uuid, running_download) hash_map) run" where
  "download_thread fetch dir symbol yw dst download_id downloads = do {
     r \<leftarrow> fetch_weeks fetch dir symbol yw;
     case r of
       Inl err \<Rightarrow> ret ([], [], downloads)
     | Inr stop \<Rightarrow> do {
         weeks \<leftarrow> weeks_until yw stop;
         finished_download \<leftarrow> hm_get downloads download_id;
         ret (map (\<lambda>w. (Flatfile (week_file dir w), dst)) weeks, [DownloadComplete finished_download],
           hm_remove download_id downloads)
       }
   }"

record downloader =
  dl_us :: instance_id
  dl_running :: "(uuid, running_download) hash_map"
  dl_transfers :: "(hist_tick_dst \<times> hist_tick_dst) list"
  dl_started :: "(uuid \<times> string \<times> week \<times> hist_tick_dst) list"
  dl_dying :: bool

definition downloader_new :: "uuid \<Rightarrow> downloader" where
  "downloader_new u = \<lparr>dl_us = \<lparr>in_type = flatfile_name, in_uuid = u\<rparr>, dl_running = hm_new,
     dl_transfers = [], dl_started = [], dl_dying = False\<rparr>"

text \<open>A download is started as a thread under a drawn uuid.\<close>

definition init_download ::
  "(nat \<Rightarrow> nat \<times> nat) \<Rightarrow> uuid \<Rightarrow> u64 \<Rightarrow> u64 \<Rightarrow> string \<Rightarrow> hist_tick_dst \<Rightarrow> downloader \<Rightarrow> response \<times> downloader" where
  "init_download date_of download_id start_time end_time symbol dst d =
     (let symbol = clean_symbol symbol
      in if symbol \<notin> set supported_pairs
         then (Res_Error (''The FXCM Flatfile Data Downloader does not support the symbol '' @ symbol), d)
         else (Res_Ok, d\<lparr>dl_started := dl_started d @ [(download_id, symbol, start_week date_of start_time, dst)]\<rparr>))"

definition downloader_command ::
  "(uuid \<Rightarrow> string) \<Rightarrow> (nat \<Rightarrow> nat \<times> nat) \<Rightarrow> uuid \<Rightarrow> command \<Rightarrow> downloader \<Rightarrow> response option \<times> downloader" where
  "downloader_command hyphenated date_of u cmd d =
     (case cmd of
        Cmd_Ping \<Rightarrow> (Some (Res_Pong [hyphenated (in_uuid (dl_us d))]), d)
      | Cmd_Type \<Rightarrow> (Some (Info flatfile_name), d)
      | Kill \<Rightarrow> (Some (Info (flatfile_name @ '' will terminate in 3 seconds.'')), d\<lparr>dl_dying := True\<rparr>)
      | DownloadTicks start_time end_time symbol dst \<Rightarrow>
          map_prod Some id (init_download date_of u start_time end_time symbol dst d)
      | GetDownloadProgress i \<Rightarrow>
          (case hm_get (dl_running d) i of
             Some download \<Rightarrow> (Some (DownloadProgress download), d)
           | None \<Rightarrow> (Some (Res_Error (''No such data download running with that id: '' @ hyphenated i)), d))
      | CancelDataDownload i \<Rightarrow>
          (Some (Res_Error ''The FXCM Flatfile Downloader does not support cancelling downloads.''), d)
      | ListRunningDownloads \<Rightarrow> (Some (RunningDownloads (map snd (dl_running d))), d)
      | TransferHistData src dst \<Rightarrow> (Some Res_Ok, d\<lparr>dl_transfers := dl_transfers d @ [(src, dst)]\<rparr>)
      | _ \<Rightarrow> (None, d))"

text \<open>No command ever adds to the running downloads, so a download never gets to its end.\<close>

lemma downloader_running: "dl_running (snd (downloader_command h date_of u cmd d)) = dl_running d"
  by (simp add: downloader_command_def init_download_def Let_def split: command.splits option.splits)

text \<open>The loop over the archives ends some weeks later, and found those before.\<close>

lemma fetch_weeks_found:
  assumes "fetch_weeks fetch dir symbol yw = Some (Inr stop)"
  shows "\<exists>n. stop = (next_week ^^ n) yw \<and>
    (\<forall>i<n. let w = (next_week ^^ i) yw in fetch (get_data_url symbol w) (week_file dir w) = Some (Inr True)) \<and>
    fetch (get_data_url symbol stop) (week_file dir stop) = Some (Inr False)"
proof -
  have "Inr stop = r \<longrightarrow> ?thesis" if "fetch_weeks fetch dir symbol yw = Some r" for r
  proof (rule fetch_weeks.raw_induct [OF _ that], intro impI)
    fix f fetch dir symbol yw r
    assume IH: "\<And>fetch dir symbol yw r. f fetch dir symbol yw = Some r \<Longrightarrow> Inr stop = r \<longrightarrow>
        (\<exists>n. stop = (next_week ^^ n) yw \<and>
          (\<forall>i<n. let w = (next_week ^^ i) yw in fetch (get_data_url symbol w) (week_file dir w) = Some (Inr True)) \<and>
          fetch (get_data_url symbol stop) (week_file dir stop) = Some (Inr False))"
      and run: "Option.bind (fetch (get_data_url symbol yw) (week_file dir yw)) (\<lambda>r.
          case r of
            Inl err \<Rightarrow> Some (Inl err)
          | Inr found \<Rightarrow> if found then f fetch dir symbol (next_week yw) else Some (Inr yw)) = Some r"
      and r: "Inr stop = r"
    from run obtain x where x: "fetch (get_data_url symbol yw) (week_file dir yw) = Some x"
      by (auto simp: bind_Some_iff)
    with run r consider "fetch (get_data_url symbol yw) (week_file dir yw) = Some (Inr False)" "stop = yw"
      | "fetch (get_data_url symbol yw) (week_file dir yw) = Some (Inr True)"
        "f fetch dir symbol (next_week yw) = Some (Inr stop)"
      by (cases x) (auto split: if_splits)
    then show "\<exists>n. stop = (next_week ^^ n) yw \<and>
        (\<forall>i<n. let w = (next_week ^^ i) yw in fetch (get_data_url symbol w) (week_file dir w) = Some (Inr True)) \<and>
        fetch (get_data_url symbol stop) (week_file dir stop) = Some (Inr False)"
    proof cases
      case 1
      then show ?thesis by (intro exI [of _ 0]) simp
    next
      case 2
      with IH obtain n where n: "stop = (next_week ^^ n) (next_week yw)"
        "\<forall>i<n. let w = (next_week ^^ i) (next_week yw)
           in fetch (get_data_url symbol w) (week_file dir w) = Some (Inr True)"
        "fetch (get_data_url symbol stop) (week_file dir stop) = Some (Inr False)"
        by blast
      then show ?thesis
        using 2(1) by (intro exI [of _ "Suc n"]) (simp add: funpow_swap1 Let_def All_less_Suc2)
    qed
  qed
  with assms show ?thesis by blast
qed

lemma fetch_weeks_ends:
  assumes "\<And>i. i < n \<Longrightarrow> fetch (get_data_url symbol ((next_week ^^ i) yw)) (week_file dir ((next_week ^^ i) yw)) =
      Some (Inr True)"
    and "fetch (get_data_url symbol ((next_week ^^ n) yw)) (week_file dir ((next_week ^^ n) yw)) = Some (Inr False)"
  shows "fetch_weeks fetch dir symbol yw = Some (Inr ((next_week ^^ n) yw))"
  using assms
proof (induction n arbitrary: yw)
  case 0
  then show ?case by (subst fetch_weeks.simps) simp
next
  case (Suc n)
  from Suc.prems(1) [of 0] have "fetch (get_data_url symbol yw) (week_file dir yw) = Some (Inr True)" by simp
  moreover have "fetch_weeks fetch dir symbol (next_week yw) = Some (Inr ((next_week ^^ n) (next_week yw)))"
    by (rule Suc.IH) (use Suc.prems(1) [of "Suc _"] Suc.prems(2) in \<open>simp_all add: funpow_swap1\<close>)
  ultimately show ?case by (subst fetch_weeks.simps) (simp add: funpow_swap1)
qed

text \<open>Weeks never come again, so the loop over the files ends.\<close>

definition week_before :: "week \<Rightarrow> week \<Rightarrow> bool" where
  "week_before v w \<longleftrightarrow> fst v < fst w \<or> fst v = fst w \<and> snd v < snd w"

lemma week_before_later: "week_before yw ((next_week ^^ Suc n) yw)"
proof (induction n)
  case (Suc n)
  then show ?case by (auto simp: week_before_def next_week_def Let_def)
qed (simp add: week_before_def next_week_def)

lemma weeks_until_later:
  "weeks_until yw ((next_week ^^ n) yw) = Some (map (\<lambda>i. (next_week ^^ i) yw) [0..<Suc n])"
proof (induction n arbitrary: yw)
  case (Suc n)
  have "yw \<noteq> (next_week ^^ Suc n) yw"
    using week_before_later [of yw n] by (auto simp: week_before_def)
  moreover have "map (\<lambda>i. (next_week ^^ i) yw) [0..<Suc (Suc n)] =
      yw # map (\<lambda>i. (next_week ^^ i) (next_week yw)) [0..<Suc n]"
    by (subst upt_conv_Cons) (simp_all add: map_Suc_upt [symmetric] funpow_swap1 del: upt_Suc)
  ultimately show ?case
    using Suc.IH [of "next_week yw"]
    by (subst weeks_until.simps) (simp add: funpow_swap1 del: upt_Suc)
qed (simp add: weeks_until.simps)

text \<open>
  A download that gets to its end panics there; the last file it has transferred is the one
  that was not found.
\<close>

lemma download_never_completes:
  assumes "fetch_weeks fetch dir symbol yw = Some (Inr stop)" and "hm_get downloads download_id = None"
  shows "download_thread fetch dir symbol yw dst download_id downloads = panic"
  using assms by (simp add: download_thread_def)

lemma last_week_missing:
  assumes "fetch_weeks fetch dir symbol yw = Some (Inr stop)"
  shows "\<exists>ws. weeks_until yw stop = Some (ws @ [stop]) \<and>
    fetch (get_data_url symbol stop) (week_file dir stop) = Some (Inr False)"
proof -
  from fetch_weeks_found [OF assms] obtain n where "stop = (next_week ^^ n) yw"
    and "fetch (get_data_url symbol stop) (week_file dir stop) = Some (Inr False)"
    by blast
  then show ?thesis using weeks_until_later [of yw n] by simp
qed

section \<open>The native interface\<close>

text \<open>
  A tick of the interface has floating point prices; \<open>to_usize\<close> multiplies one and truncates
  it. The power wraps, and the exponent is cut to 32 bits.
\<close>

record 'f c_tick =
  ct_timestamp :: u64
  ct_bid :: 'f
  ct_ask :: 'f

definition to_tick :: "(usize \<Rightarrow> 'f \<Rightarrow> usize) \<Rightarrow> usize \<Rightarrow> 'f c_tick \<Rightarrow> tick" where
  "to_tick to_usize decimals ct =
     (let multiplier = 10 ^ unat (ucast decimals :: 32 word)
      in \<lparr>t_bid = to_usize multiplier (ct_bid ct), t_ask = to_usize multiplier (ct_ask ct),
          t_timestamp = ct_timestamp ct\<rparr>)"

record download_descriptor =
  dd_symbol :: string
  dd_start_time :: u64
  dd_cur_time :: u64
  dd_end_time :: u64
  dd_dst :: hist_tick_dst

record native_downloader =
  nd_uuid :: uuid
  nd_running :: "download_descriptor list"
  nd_sent :: "command list"
  nd_started :: "(u64 \<times> u64 \<times> string \<times> hist_tick_dst) list"
  nd_transfers :: "(hist_tick_dst \<times> hist_tick_dst) list"
  nd_dying :: bool

definition native_new :: "uuid \<Rightarrow> native_downloader" where
  "native_new u = \<lparr>nd_uuid = u, nd_running = [], nd_sent = [], nd_started = [], nd_transfers = [],
     nd_dying = False\<rparr>"

definition native_name :: string where
  "native_name = ''FXCM Native Data Downloader''"

definition running_of ::
  "instance_id \<Rightarrow> uuid \<Rightarrow> string \<Rightarrow> hist_tick_dst \<Rightarrow> u64 \<Rightarrow> u64 \<Rightarrow> running_download" where
  "running_of us download_id symbol dst start_time end_time =
     \<lparr>rd_id = download_id, rd_symbol = symbol, rd_downloader = us, rd_start_time = start_time,
      rd_cur_time = start_time, rd_end_time = end_time, rd_dst = dst\<rparr>"

fun remove_first :: "'a \<Rightarrow> 'a list \<Rightarrow> 'a list" where
  "remove_first x [] = []"
| "remove_first x (y # ys) = (if y = x then ys else y # remove_first x ys)"

text \<open>
  A download: the session, its digits, and the ticks the interface calls back with, which
  the callback of the destination consumes. The result is also the callback at the end. A
  symbol with a null character is a panic.
\<close>

definition native_download ::
  "storage \<Rightarrow> (tick \<Rightarrow> string) \<Rightarrow> (usize \<Rightarrow> 'f \<Rightarrow> usize) \<Rightarrow> (usize \<times> 'f c_tick list) option \<Rightarrow> instance_id \<Rightarrow> uuid \<Rightarrow>
     string \<Rightarrow> hist_tick_dst \<Rightarrow> u64 \<Rightarrow> u64 \<Rightarrow> native_downloader \<Rightarrow>
     ((string + rx_callback run) \<times> native_downloader) run" where
  "native_download st to_json to_usize session us download_id symbol dst start_time end_time d =
     (if CHR 0x00 \<in> set symbol then panic else case session of
        None \<Rightarrow> ret (Inl ''External login function returned nullptr; FXCM servers are likely down.'', d)
      | Some (digit_count, cts) \<Rightarrow> do {
          r \<leftarrow> get_rx_closure st dst;
          case r of
            Inl e \<Rightarrow> ret (Inl e, d)
          | Inr cb \<Rightarrow>
              (let descriptor = \<lparr>dd_symbol = symbol, dd_start_time = start_time, dd_cur_time = start_time,
                     dd_end_time = end_time, dd_dst = dst\<rparr>;
                   running = running_of us download_id symbol dst start_time end_time
               in ret (Inr (rx_calls st to_json (map (to_tick to_usize digit_count) cts) cb),
                    d\<lparr>nd_running := remove_first descriptor (nd_running d @ [descriptor]),
                      nd_sent := nd_sent d @ [DownloadStarted running, DownloadComplete running]\<rparr>))
        })"

text \<open>
  Every command is answered; downloads and transfers are started as threads.
  \<open>downloads_json\<close> prints the running downloads.
\<close>

definition native_command ::
  "(uuid \<Rightarrow> string) \<Rightarrow> (download_descriptor list \<Rightarrow> string) \<Rightarrow> command \<Rightarrow> native_downloader \<Rightarrow>
     response \<times> native_downloader" where
  "native_command hyphenated downloads_json cmd d =
     (case cmd of
        Cmd_Ping \<Rightarrow> (Res_Pong [hyphenated (nd_uuid d)], d)
      | Cmd_Type \<Rightarrow> (Info native_name, d)
      | DownloadTicks start_time end_time symbol dst \<Rightarrow>
          (Res_Ok, d\<lparr>nd_started := nd_started d @ [(start_time, end_time, symbol, dst)]\<rparr>)
      | ListRunningDownloads \<Rightarrow> (Info (downloads_json (nd_running d)), d)
      | GetDownloadProgress i \<Rightarrow>
          (Res_Error ''FXCM Native Data Downloader doesn't support checking the status of running downloads.'', d)
      | CancelDataDownload i \<Rightarrow>
          (Res_Error ''The FXCM Native Data Downloader doesn't support cancelling downloads.'', d)
      | TransferHistData src dst \<Rightarrow> (Res_Ok, d\<lparr>nd_transfers := nd_transfers d @ [(src, dst)]\<rparr>)
      | Kill \<Rightarrow> (Info ''Data Downloader shutting down in 3 seconds...'', d\<lparr>nd_dying := True\<rparr>)
      | _ \<Rightarrow> (Res_Error ''Data Downloader doesn't recognize that command.'', d))"

text \<open>A message that is no command is reported and then a panic.\<close>

fun native_listen ::
  "(string \<Rightarrow> wrapped_command option) \<Rightarrow> (uuid \<Rightarrow> string) \<Rightarrow> (download_descriptor list \<Rightarrow> string) \<Rightarrow> string list \<Rightarrow>
     native_downloader \<Rightarrow> (wrapped_response list \<times> native_downloader) run" where
  "native_listen from_json hyphenated downloads_json [] d = ret ([], d)"
| "native_listen from_json hyphenated downloads_json (msg # msgs) d = do {
     wr_cmd \<leftarrow> from_json msg;
     let (res, d') = native_command hyphenated downloads_json (wc_cmd wr_cmd) d;
     (rs, d'') \<leftarrow> native_listen from_json hyphenated downloads_json msgs d';
     ret (response_wrap res (wc_uuid wr_cmd) # rs, d'')
   }"

text \<open>A loop that goes on has answered every message, in order.\<close>

lemma native_listen_answers:
  "native_listen from_json hyphenated downloads_json msgs d = Some (rs, d') \<Longrightarrow>
     map wr_uuid rs = map (\<lambda>m. wc_uuid (the (from_json m))) msgs"
proof (induction msgs arbitrary: d rs)
  case (Cons m ms)
  from Cons.prems obtain c where c: "from_json m = Some c" by (auto simp: bind_Some_iff)
  obtain res d1 where d1: "native_command hyphenated downloads_json (wc_cmd c) d = (res, d1)"
    by (cases "native_command hyphenated downloads_json (wc_cmd c) d")
  from Cons.prems c d1 obtain rs' where "native_listen from_json hyphenated downloads_json ms d1 = Some (rs', d')"
    and "rs = response_wrap res (wc_uuid c) # rs'"
    by (auto simp: bind_Some_iff)
  with Cons.IH c show ?case by (simp add: response_wrap_def)
qed simp

text \<open>A download leaves the list of running ones as it was.\<close>

lemma mset_remove_first: "mset (remove_first x xs) = mset xs - {#x#}"
proof (induction xs)
  case (Cons y ys)
  then show ?case by (cases "y = x") simp_all
qed simp

lemma native_download_running:
  assumes "native_download st to_json to_usize session us i symbol dst a b d = Some (r, d')"
  shows "mset (nd_running d') = mset (nd_running d)"
proof (cases session)
  case None
  with assms show ?thesis by (simp add: native_download_def split: if_splits)
next
  case (Some s)
  with assms obtain x where "get_rx_closure st dst = Some x"
    by (auto simp: native_download_def bind_Some_iff split: prod.splits if_splits)
  with assms Some show ?thesis
    by (cases s; cases x) (auto simp: native_download_def Let_def mset_remove_first split: if_splits)
qed

section \<open>The downloaders as modules\<close>

definition flatfile_module :: "(uuid \<Rightarrow> string) \<Rightarrow> (nat \<Rightarrow> nat \<times> nat) \<Rightarrow> downloader handler" where
  "flatfile_module hyphenated date_of u cmd d = ret (downloader_command hyphenated date_of u cmd d)"

interpretation flatfile_loading: platform_module "flatfile_module hyphenated date_of"
    "\<lambda>d. hyphenated (in_uuid (dl_us d))"
  by unfold_locales (simp_all add: flatfile_module_def downloader_command_def)

definition native_module ::
  "(uuid \<Rightarrow> string) \<Rightarrow> (download_descriptor list \<Rightarrow> string) \<Rightarrow> native_downloader handler" where
  "native_module hyphenated downloads_json u cmd d =
     ret (map_prod Some id (native_command hyphenated downloads_json cmd d))"

interpretation native_loading: platform_module "native_module hyphenated downloads_json"
    "\<lambda>d. hyphenated (nd_uuid d)"
  by unfold_locales (simp_all add: native_module_def native_command_def)

end
