(* ===== verification/Tg_Modules.thy ===== *)
theory Tg_Modules
  imports Tg_CInterface Tg_Objects
begin

text \<open>
  The smaller modules: the optimizer (\<open>optimizer/src/main.rs\<close>) and the tick processor
  (\<open>tick_parser/src\<close>), which so far only answer commands, the statements that prepare the
  database (\<open>util/src/transport/postgres.rs\<close>), and the shim to the native broker of FXCM (\<open>broker_shims/FXCM/native/src\<close>), whose actions are not implemented.
\<close>

section \<open>Optimizer and tick processor\<close>

definition optimizer_response :: "(uuid \<Rightarrow> string) \<Rightarrow> uuid \<Rightarrow> command \<Rightarrow> response" where
  "optimizer_response hyphenated u cmd =
     (case cmd of
        Cmd_Ping \<Rightarrow> Res_Pong [hyphenated u]
      | Cmd_Type \<Rightarrow> Info ''Optimizer''
      | Kill \<Rightarrow> Info ''Optimizer ending life in 3 seconds...''
      | _ \<Rightarrow> Res_Error ''Optimizer doesn't recognize that command.'')"

text \<open>A message that is no command is skipped.\<close>

fun optimizer_listen ::
  "(string \<Rightarrow> wrapped_command option) \<Rightarrow> (uuid \<Rightarrow> string) \<Rightarrow> uuid \<Rightarrow> string list \<Rightarrow> wrapped_response list" where
  "optimizer_listen from_json hyphenated u [] = []"
| "optimizer_listen from_json hyphenated u (msg # msgs) =
     (case from_json msg of
        None \<Rightarrow> optimizer_listen from_json hyphenated u msgs
      | Some wr_cmd \<Rightarrow> response_wrap (optimizer_response hyphenated u (wc_cmd wr_cmd)) (wc_uuid wr_cmd) #
          optimizer_listen from_json hyphenated u msgs)"

text \<open>The tick processor answers a ping with the arguments it was started with.\<close>

definition processor_response :: "string list \<Rightarrow> command \<Rightarrow> response run" where
  "processor_response args cmd =
     (case cmd of
        Shutdown \<Rightarrow> panic
      | Kill \<Rightarrow> ret (Info ''Shutting down in 3 seconds...'')
      | Cmd_Ping \<Rightarrow> ret (Res_Pong (tl args))
      | Cmd_Type \<Rightarrow> ret (Info ''Tick Processor'')
      | AddCondition condition_string \<Rightarrow> panic
      | RemoveCondition condition_string \<Rightarrow> panic
      | ListConditions \<Rightarrow> panic
      | _ \<Rightarrow> ret (Res_Error ''Command not recognized''))"

definition execute_command ::
  "(string \<Rightarrow> wrapped_command option) \<Rightarrow> string list \<Rightarrow> string \<Rightarrow> wrapped_response run" where
  "execute_command from_json args raw_cmd = do {
     wrapped_cmd \<leftarrow> parse_wrapped_command from_json raw_cmd;
     res \<leftarrow> processor_response args (wc_cmd wrapped_cmd);
     ret (response_wrap res (wc_uuid wrapped_cmd))
   }"

fun processor_listen ::
  "(string \<Rightarrow> wrapped_command option) \<Rightarrow> string list \<Rightarrow> string \<Rightarrow> string \<Rightarrow> (string \<times> string) list \<Rightarrow>
     wrapped_response list run" where
  "processor_listen from_json args control_channel own_channel [] = ret []"
| "processor_listen from_json args control_channel own_channel ((channel, message) # msgs) =
     (if channel = own_channel \<or> channel = control_channel
      then do {
        r \<leftarrow> execute_command from_json args message;
        rs \<leftarrow> processor_listen from_json args control_channel own_channel msgs;
        ret (r # rs)
      }
      else processor_listen from_json args control_channel own_channel msgs)"

text \<open>
  Both are modules of the platform; the state of the tick processor is its uuid and its
  symbol, with which it was started.
\<close>

definition optimizer_module :: "(uuid \<Rightarrow> string) \<Rightarrow> uuid handler" where
  "optimizer_module hyphenated u cmd own = ret (Some (optimizer_response hyphenated own cmd), own)"

interpretation optimizing: platform_module "optimizer_module hyphenated" hyphenated
  by unfold_locales (simp_all add: optimizer_module_def optimizer_response_def)

definition processor_module :: "(uuid \<Rightarrow> string) \<Rightarrow> (uuid \<times> string) handler" where
  "processor_module hyphenated u cmd st = do {
     r \<leftarrow> processor_response [''./tick_processor'', hyphenated (fst st), snd st] cmd;
     ret (Some r, st)
   }"

interpretation processing: platform_module "processor_module hyphenated" "\<lambda>st. hyphenated (fst st)"
  by unfold_locales (simp_all add: processor_module_def processor_response_def)

section \<open>Preparing the database\<close>

definition pg_line :: string where
  "pg_line = CHR 0x0A # ''    ''"

text \<open>Whether the statements succeed is ignored.\<close>

definition tick_table_inner :: "string \<Rightarrow> string \<Rightarrow> string list \<times> (string + unit)" where
  "tick_table_inner table_name pg_user =
     ([''CREATE TABLE IF NOT EXISTS '' @ table_name @ pg_line @ ''('' @ pg_line @
         ''  tick_time BIGINT NOT NULL PRIMARY KEY UNIQUE,'' @ pg_line @
         ''  bid BIGINT NOT NULL,'' @ pg_line @ ''  ask BIGINT NOT NULL'' @ pg_line @
         '')'' @ pg_line @ ''WITH ('' @ pg_line @ ''  OIDS=FALSE'' @ pg_line @ '');'',
       ''ALTER TABLE '' @ table_name @ pg_line @ ''  OWNER TO '' @ pg_user @ '';''],
      Inr ())"

definition init_tick_table :: "string \<Rightarrow> string \<Rightarrow> string list \<times> (string + unit)" where
  "init_tick_table symbol pg_user = tick_table_inner (''ticks_'' @ symbol) pg_user"

definition init_hist_data_table :: "string \<Rightarrow> string \<Rightarrow> string list \<times> (string + unit)" where
  "init_hist_data_table table_name pg_user = tick_table_inner table_name pg_user"

text \<open>The statements that reset the database, one line each.\<close>

definition reset_db :: "string \<Rightarrow> string" where
  "reset_db pg_user =
     (let line = CHR 0x0A # ''        ''
      in ''DROP SCHEMA public CASCADE;'' @ line @ ''CREATE SCHEMA public AUTHORIZATION '' @ pg_user @ '';'' @ line @
         ''ALTER SCHEMA public OWNER TO '' @ pg_user @ '';'' @ line @
         ''GRANT ALL ON SCHEMA public TO '' @ pg_user @ '';'')"

definition csv_to_tick_table :: "string \<Rightarrow> string \<Rightarrow> string" where
  "csv_to_tick_table filename table_name =
     ''COPY '' @ table_name @ ''(tick_time, bid, ask) FROM '' @ filename @ '' DELIMETER '' @
     [CHR 0x27] @ '', '' @ [CHR 0x27] @ '' CSV HEADER''"

section \<open>The shim to FXCM\<close>

datatype server_response =
    POSITION_OPENED
  | POSITION_CLOSED
  | TRADE_EXECUTED
  | TRADE_CLOSED
  | SESSION_TERMINATED
  | PONG
  | ERROR
  | TICK_SUB_SUCCESSFUL
  | OFFER_ROW
  | ORDER_MODIFIED

text \<open>The payload as it is read for the response: a time, a text or the digits of an offer.\<close>

record server_message =
  sm_response :: server_response
  sm_time :: u64
  sm_text :: string
  sm_digits :: usize

record 'f c_symbol_tick =
  cs_symbol :: string
  cs_timestamp :: u64
  cs_bid :: 'f
  cs_ask :: 'f

definition symbol_to_tick :: "(usize \<Rightarrow> 'f \<Rightarrow> usize) \<Rightarrow> usize \<Rightarrow> 'f c_symbol_tick \<Rightarrow> tick" where
  "symbol_to_tick to_usize decimals cst =
     (let multiplier = 10 ^ unat (ucast decimals :: 32 word)
      in \<lparr>t_bid = to_usize multiplier (cs_bid cst), t_ask = to_usize multiplier (cs_ask cst),
          t_timestamp = cs_timestamp cst\<rparr>)"

record subbed_pair =
  su_symbol :: string
  su_sent :: "tick list"
  su_decimals :: usize

record fxcm_native =
  fx_stream :: "(u64 \<times> (string + u64)) list"
  fx_stream_taken :: bool
  fx_pairs :: "subbed_pair list"
  fx_pipe :: "string list"

text \<open>
  A message of the server goes into the stream (an error text or the time of a pong, always
  at time 0), over Redis to the caller that waits for the digits, or is not implemented.
\<close>

definition handle_message :: "server_message \<Rightarrow> fxcm_native \<Rightarrow> fxcm_native run" where
  "handle_message message b =
     (case sm_response message of
        PONG \<Rightarrow> ret (b\<lparr>fx_stream := fx_stream b @ [(0, Inr (sm_time message))]\<rparr>)
      | ERROR \<Rightarrow> ret (b\<lparr>fx_stream := fx_stream b @ [(0, Inl (sm_text message))]\<rparr>)
      | OFFER_ROW \<Rightarrow> ret (b\<lparr>fx_pipe := fx_pipe b @ [show_word (sm_digits message)]\<rparr>)
      | TICK_SUB_SUCCESSFUL \<Rightarrow> ret b
      | _ \<Rightarrow> panic)"

text \<open>A tick goes to the first subscription of its symbol.\<close>

fun send_subbed :: "(usize \<Rightarrow> 'f \<Rightarrow> usize) \<Rightarrow> 'f c_symbol_tick \<Rightarrow> subbed_pair list \<Rightarrow> subbed_pair list" where
  "send_subbed to_usize cst [] = []"
| "send_subbed to_usize cst (p # ps) =
     (if su_symbol p = cs_symbol cst
      then p\<lparr>su_sent := su_sent p @ [symbol_to_tick to_usize (su_decimals p) cst]\<rparr> # ps
      else p # send_subbed to_usize cst ps)"

definition tick_cb :: "(usize \<Rightarrow> 'f \<Rightarrow> usize) \<Rightarrow> 'f c_symbol_tick \<Rightarrow> fxcm_native \<Rightarrow> fxcm_native" where
  "tick_cb to_usize cst b = b\<lparr>fx_pairs := send_subbed to_usize cst (fx_pairs b)\<rparr>"

text \<open>No action is implemented.\<close>

definition fxcm_execute :: "broker_action \<Rightarrow> fxcm_native \<Rightarrow> fxcm_native run" where
  "fxcm_execute action b = panic"

definition fxcm_get_stream :: "fxcm_native \<Rightarrow> (string + (u64 \<times> (string + u64)) list) \<times> fxcm_native" where
  "fxcm_get_stream b =
     (if \<not> fx_stream_taken b then (Inr (fx_stream b), b\<lparr>fx_stream_taken := True\<rparr>)
      else (Inl ''The stream for this broker has already been taken.'', b))"

text \<open>
  Subscribing waits for the digits of the symbol, the next text on the pipe; a symbol with a
  null character cannot be passed on.
\<close>

definition fxcm_sub_ticks ::
  "(string \<Rightarrow> string) \<Rightarrow> string \<Rightarrow> string \<Rightarrow> fxcm_native \<Rightarrow> (string + unit) \<times> fxcm_native" where
  "fxcm_sub_ticks parse_error symbol msg b =
     (if CHR 0x00 \<in> set symbol then (Inl ''Unable to convert symbol into CString!'', b)
      else case parse_u64 msg of
          None \<Rightarrow> (Inl (''Unable to convert the result from Redis into an int: '' @ parse_error msg), b)
        | Some decimals \<Rightarrow>
            (Inr (), b\<lparr>fx_pairs := fx_pairs b @ [\<lparr>su_symbol = symbol, su_sent = [], su_decimals = decimals\<rparr>]\<rparr>))"

text \<open>
  The callback of the native library for its log: a message that is no text is replaced by
  the error, which is an argument.
\<close>

definition fxcm_log_cb :: "instance_id \<Rightarrow> string option \<Rightarrow> string \<Rightarrow> c_log_level \<Rightarrow> command" where
  "fxcm_log_cb sender msg err sev =
     (let loglevel = convert sev
      in case msg of
           Some msg_str \<Rightarrow> cs_log sender None msg_str loglevel
         | None \<Rightarrow> cs_log sender None (''Error when converting CString into &str: '' @ err) Error)"

text \<open>
  Logging in with the configured account, through the external function, which gives a
  session or none. A null character in one of the three settings is a panic.
\<close>

definition c_string_new :: "string \<Rightarrow> string run" where
  "c_string_new s = (if CHR 0x00 \<in> set s then panic else ret s)"

definition fxcm_login ::
  "(string \<Rightarrow> string \<Rightarrow> string \<Rightarrow> 'session option) \<Rightarrow> string \<Rightarrow> string \<Rightarrow> string \<Rightarrow> (string + 'session) run" where
  "fxcm_login external fxcm_username fxcm_password fxcm_url = do {
     username \<leftarrow> c_string_new fxcm_username;
     password \<leftarrow> c_string_new fxcm_password;
     url \<leftarrow> c_string_new fxcm_url;
     ret (case external username password url of
            None \<Rightarrow> Inl ''The external login function returned NULL; the FXCM servers are likely down.''
          | Some session \<Rightarrow> Inr session)
   }"

text \<open>
  Starting the shim: what the caller gets, at once, and what the thread that logs in comes to,
  the session with which the server runs or the text it prints.
\<close>

definition fxcm_init :: "(string + 'session) run \<Rightarrow> (broker_error + fxcm_native) \<times> (string + 'session) run" where
  "fxcm_init login =
     (Inr \<lparr>fx_stream = [], fx_stream_taken = False, fx_pairs = [], fx_pipe = []\<rparr>, login)"

text \<open>The caller is told of success although no account could be logged in.\<close>

lemma failed_login_succeeds:
  assumes "CHR 0x00 \<notin> set u \<union> set p \<union> set url" and "external u p url = None"
  shows "\<exists>b err. fxcm_init (fxcm_login external u p url) = (Inr b, Some (Inl err))"
  using assms by (simp add: fxcm_init_def fxcm_login_def c_string_new_def)

text \<open>Only the first subscription of a symbol ever receives a tick.\<close>

lemma length_send_subbed: "length (send_subbed to_usize cst ps) = length ps"
  by (induction ps) auto

lemma send_subbed_found:
  "p \<in> set ps \<Longrightarrow> su_symbol p = cs_symbol cst \<Longrightarrow>
     send_subbed to_usize cst (ps @ qs) = send_subbed to_usize cst ps @ qs"
  by (induction ps) auto

lemma send_subbed_other:
  "su_symbol q \<noteq> cs_symbol cst \<Longrightarrow>
     send_subbed to_usize cst (ps @ [q]) = send_subbed to_usize cst ps @ [q]"
  by (induction ps) auto

lemma second_subscription_idle:
  assumes "p \<in> set ps" and "su_symbol p = su_symbol q"
  shows "fx_pairs (tick_cb to_usize cst (b\<lparr>fx_pairs := ps @ [q]\<rparr>)) =
    fx_pairs (tick_cb to_usize cst (b\<lparr>fx_pairs := ps\<rparr>)) @ [q]"
  using assms by (cases "su_symbol q = cs_symbol cst") (simp_all add: tick_cb_def send_subbed_found send_subbed_other)

end
