(* ===== verification/Tg_Platform.thy ===== *)
theory Tg_Platform
  imports Tg_Spawner Tg_Backtester Tg_Logger Tg_Downloaders Tg_Modules Tg_CommandServer
begin

text \<open>
  The modules together. A module is one of the processes the spawner starts; they announce
  themselves to the spawner, answer the pings of its heartbeat and the commands other
  modules send through their command servers. Messages travel over Redis: which of them
  arrive before a timeout, and in which order, is left open.
\<close>

section \<open>Modules\<close>

datatype 'g module =
    Spawner_mod spawner
  | Backtester_mod "'g backtester"
  | Optimizer_mod uuid
  | Processor_mod uuid string
  | Logger_mod uuid
  | Flatfile_mod downloader
  | Native_mod native_downloader

text \<open>The outside of all modules; uuids are printed in one way.\<close>

record 'g platform_env =
  pl_hyphenated :: "uuid \<Rightarrow> string"
  pl_spawner :: spawner_env
  pl_store :: "store_request \<Rightarrow> response option"
  pl_backtester :: "'g backtester_env"
  pl_logger :: logger_env
  pl_date_of :: "nat \<Rightarrow> nat \<times> nat"
  pl_downloads_json :: "download_descriptor list \<Rightarrow> string"

fun module_uuid :: "'g module \<Rightarrow> uuid" where
  "module_uuid (Spawner_mod sp) = sp_uuid sp"
| "module_uuid (Backtester_mod b) = bt_uuid b"
| "module_uuid (Optimizer_mod own) = own"
| "module_uuid (Processor_mod own symbol) = own"
| "module_uuid (Logger_mod own) = own"
| "module_uuid (Flatfile_mod d) = in_uuid (dl_us d)"
| "module_uuid (Native_mod d) = nd_uuid d"

text \<open>A module handles a command with its own handler.\<close>

definition handled_as :: "('s \<Rightarrow> 'm) \<Rightarrow> (response option \<times> 's) run \<Rightarrow> (response option \<times> 'm) run" where
  "handled_as f = map_option (map_prod id f)"

fun module_command :: "'g platform_env \<Rightarrow> 'g module handler" where
  "module_command e u cmd (Spawner_mod sp) =
     handled_as Spawner_mod
       (spawner_module ((pl_spawner e)\<lparr>pe_hyphenated := pl_hyphenated e\<rparr>) (pl_store e) u cmd sp)"
| "module_command e u cmd (Backtester_mod b) =
     handled_as Backtester_mod (backtester_command ((pl_backtester e)\<lparr>be_hyphenated := pl_hyphenated e\<rparr>) u cmd b)"
| "module_command e u cmd (Optimizer_mod own) =
     handled_as Optimizer_mod (optimizer_module (pl_hyphenated e) u cmd own)"
| "module_command e u cmd (Processor_mod own symbol) =
     handled_as (\<lambda>(own, symbol). Processor_mod own symbol) (processor_module (pl_hyphenated e) u cmd (own, symbol))"
| "module_command e u cmd (Logger_mod own) =
     handled_as Logger_mod (logger_module ((pl_logger e)\<lparr>lg_hyphenated := pl_hyphenated e\<rparr>) u cmd own)"
| "module_command e u cmd (Flatfile_mod d) =
     handled_as Flatfile_mod (flatfile_module (pl_hyphenated e) (pl_date_of e) u cmd d)"
| "module_command e u cmd (Native_mod d) =
     handled_as Native_mod (native_module (pl_hyphenated e) (pl_downloads_json e) u cmd d)"

text \<open>How a module that starts announces itself; the spawner only enters itself into its list.\<close>

fun announcement :: "'g module \<Rightarrow> command option" where
  "announcement (Spawner_mod sp) = None"
| "announcement (Backtester_mod b) = Some (listen_ready (bt_uuid b))"
| "announcement (Optimizer_mod own) = Some (Ready ''Optimizer'' own)"
| "announcement (Processor_mod own symbol) = Some (Ready ''Tick Processor'' own)"
| "announcement (Logger_mod own) = Some (Ready ''Logger'' own)"
| "announcement (Flatfile_mod d) = Some (listen_ready (in_uuid (dl_us d)))"
| "announcement (Native_mod d) = Some (Ready native_name (nd_uuid d))"

section \<open>Every module keeps the contract\<close>

lemma handled_ping:
  assumes "platform_module h n"
  shows "\<exists>args. handled_as f (h u Cmd_Ping s) = Some (Some (Res_Pong (n s # args)), f s)"
  using platform_module.ping [OF assms, of u s] by (auto simp: handled_as_def)

lemma handled_type:
  assumes "platform_module h n"
  shows "\<exists>info. handled_as f (h u Cmd_Type s) = Some (Some (Info info), f s)"
  using platform_module.asked_type [OF assms, of u s] by (auto simp: handled_as_def)

lemmas contracts = spawning.platform_module_axioms backtesting.platform_module_axioms
  optimizing.platform_module_axioms processing.platform_module_axioms logging.platform_module_axioms
  flatfile_loading.platform_module_axioms native_loading.platform_module_axioms

interpretation modules: platform_module "module_command e" "\<lambda>m. pl_hyphenated e (module_uuid m)"
proof unfold_locales
  fix u m
  show "\<exists>args. module_command e u Cmd_Ping m =
      Some (Some (Res_Pong (pl_hyphenated e (module_uuid m) # args)), m)"
  proof (cases m)
    case (Spawner_mod sp)
    then show ?thesis
      using handled_ping [OF contracts(1) [of "(pl_spawner e)\<lparr>pe_hyphenated := pl_hyphenated e\<rparr>" "pl_store e"],
        of Spawner_mod u sp] by simp
  next
    case (Backtester_mod b)
    then show ?thesis
      using handled_ping [OF contracts(2) [of "(pl_backtester e)\<lparr>be_hyphenated := pl_hyphenated e\<rparr>"],
        of Backtester_mod u b] by simp
  next
    case (Optimizer_mod own)
    then show ?thesis using handled_ping [OF contracts(3), of Optimizer_mod] by simp
  next
    case (Processor_mod own symbol)
    then show ?thesis
      using handled_ping [OF contracts(4) [of "pl_hyphenated e"], of "\<lambda>(own, symbol). Processor_mod own symbol" u "(own, symbol)"]
      by simp
  next
    case (Logger_mod own)
    then show ?thesis
      using handled_ping [OF contracts(5) [of "(pl_logger e)\<lparr>lg_hyphenated := pl_hyphenated e\<rparr>"],
        of Logger_mod u own] by simp
  next
    case (Flatfile_mod d)
    then show ?thesis
      using handled_ping [OF contracts(6) [of "pl_hyphenated e" "pl_date_of e"], of Flatfile_mod u d] by simp
  next
    case (Native_mod d)
    then show ?thesis
      using handled_ping [OF contracts(7) [of "pl_hyphenated e" "pl_downloads_json e"], of Native_mod u d] by simp
  qed
  show "\<exists>info. module_command e u Cmd_Type m = Some (Some (Info info), m)"
    by (cases m) (auto intro: handled_type contracts
        simp: handled_type [OF contracts(4), where f = "\<lambda>(own, symbol). Processor_mod own symbol" and s = "(a, b)" for a b, simplified])
qed

section \<open>The heartbeat\<close>

text \<open>The ping of all modules, with the uuid and the channel drawn for it and what arrives in time.\<close>

definition ping_all ::
  "string \<Rightarrow> uuid \<Rightarrow> chan \<Rightarrow> wrapped_response list \<Rightarrow> alert_list \<Rightarrow> response list \<times> alert_list \<times> published" where
  "ping_all control_channel u c arrivals al = broadcast u c Cmd_Ping control_channel arrivals al"

text \<open>
  The spawner broadcasts a ping under the uuid \<open>w\<close>; the modules that run answer it, and their
  answers arrive in any order, among responses to other commands.
\<close>

definition ping_replies :: "'g platform_env \<Rightarrow> uuid \<Rightarrow> uuid \<Rightarrow> 'g module list \<Rightarrow> wrapped_response list" where
  "ping_replies e u w ms = concat (map (reply_to (module_command e) u w Cmd_Ping) ms)"

definition runs :: "'g module list \<Rightarrow> instance_id \<Rightarrow> bool" where
  "runs ms inst \<longleftrightarrow> (\<exists>m\<in>set ms. module_uuid m = in_uuid inst)"

lemma ping_replies_uuid: "r \<in> set (ping_replies e u w ms) \<Longrightarrow> wr_uuid r = w"
proof (induction ms)
  case (Cons m ms)
  then show ?case
    using modules.reply_to_ping [of e u w m] by (auto simp: ping_replies_def response_wrap_def)
qed (simp add: ping_replies_def)

lemma ping_replies_pongs:
  "(\<exists>args. Res_Pong (n # args) \<in> wr_res ` set (ping_replies e u w ms)) \<longleftrightarrow>
     (\<exists>m\<in>set ms. pl_hyphenated e (module_uuid m) = n)"
proof (induction ms)
  case (Cons m ms)
  obtain args where "reply_to (module_command e) u w Cmd_Ping m =
      [response_wrap (Res_Pong (pl_hyphenated e (module_uuid m) # args)) w]"
    using modules.reply_to_ping [of e u w m] by blast
  with Cons show ?case by (auto simp: ping_replies_def response_wrap_def)
qed (simp add: ping_replies_def)

lemma broadcast_responses:
  "u \<notin> fst ` set al \<Longrightarrow> c \<notin> snd ` set al \<Longrightarrow>
     fst (broadcast u c cmd channel arrivals al) = map wr_res (filter (\<lambda>res. wr_uuid res = u) arrivals)"
  by (simp add: broadcast_result)

lemma answered_iff_runs:
  assumes "w \<notin> fst ` set al" and "c \<notin> snd ` set al" and "inj (pl_hyphenated e)"
    and "mset arrivals = mset (ping_replies e u w ms) + mset others" and "\<forall>r\<in>set others. wr_uuid r \<noteq> w"
  shows "answered ((pl_spawner e)\<lparr>pe_hyphenated := pl_hyphenated e\<rparr>)
      (fst (ping_all channel w c arrivals al)) inst \<longleftrightarrow> runs ms inst"
proof -
  have "set arrivals = set (ping_replies e u w ms) \<union> set others"
    using assms(4) by (metis set_mset_mset set_mset_union)
  then have "set (filter (\<lambda>res. wr_uuid res = w) arrivals) = set (ping_replies e u w ms)"
    using assms(5) ping_replies_uuid [of _ e u w ms] by auto
  then have "set (fst (ping_all channel w c arrivals al)) = wr_res ` set (ping_replies e u w ms)"
    unfolding ping_all_def using broadcast_responses [OF assms(1,2)] by (metis list.set_map)
  then show ?thesis
    using ping_replies_pongs [of "pl_hyphenated e (in_uuid inst)" e u w ms] assms(3)
    by (auto simp: answered_def runs_def inj_eq)
qed

text \<open>C6. The heartbeat of the whole platform. The ping the spawner broadcasts reaches the modules
  that run, their answers come back in any order and among other responses, and the
  spawner looks through them. When every entry of its list stands for a module that runs,
  the list is left as it is, whatever kinds of modules these are; otherwise the first entry
  without a module is taken out, and no other.\<close>

theorem running_modules_survive_heartbeat:
  assumes "w \<notin> fst ` set al" and "c \<notin> snd ` set al" and "inj (pl_hyphenated e)"
    and "mset arrivals = mset (ping_replies e u w ms) + mset others" and "\<forall>r\<in>set others. wr_uuid r \<noteq> w"
    and "distinct (map in_uuid (sp_living sp))"
    and "env = (pl_spawner e)\<lparr>pe_hyphenated := pl_hyphenated e\<rparr>"
    and "responses = fst (ping_all channel w c arrivals al)"
  shows "(list_all (runs ms) (sp_living sp) \<longrightarrow> heartbeat env responses type_reply sp = sp) \<and>
    (\<forall>ys d zs. sp_living sp = ys @ d # zs \<and> list_all (runs ms) ys \<and> \<not> runs ms d \<and> type_reply d = None \<longrightarrow>
      heartbeat env responses type_reply sp = sp\<lparr>sp_living := ys @ zs\<rparr>)"
proof -
  have iff: "answered env responses inst \<longleftrightarrow> runs ms inst" for inst
    unfolding assms(7,8) by (rule answered_iff_runs [OF assms(1-5)])
  have "answered env responses = runs ms" by (rule ext) (rule iff)
  with heartbeat_result [OF assms(6), of env responses type_reply]
  have same: "list_all (runs ms) (sp_living sp) \<longrightarrow> heartbeat env responses type_reply sp = sp"
    and first: "\<And>ys d zs. sp_living sp = ys @ d # zs \<and> list_all (runs ms) ys \<and> \<not> runs ms d \<Longrightarrow>
      heartbeat env responses type_reply sp = sp\<lparr>sp_living := ys @ zs @
        (case type_reply d of Some (Info info) \<Rightarrow> [\<lparr>in_type = info, in_uuid = in_uuid d\<rparr>] | _ \<Rightarrow> [])\<rparr>"
    by simp_all
  have "heartbeat env responses type_reply sp = sp\<lparr>sp_living := ys @ zs\<rparr>"
    if "sp_living sp = ys @ d # zs \<and> list_all (runs ms) ys \<and> \<not> runs ms d \<and> type_reply d = None" for ys d zs
    using first [of ys d zs] that by simp
  with same show ?thesis by blast
qed

definition ex_platform :: "nat platform_env" where
  "ex_platform = \<lparr>pl_hyphenated = show_word, pl_spawner = ex_spawner_env, pl_store = (\<lambda>req. None),
     pl_backtester = ex_env, pl_logger = \<lparr>lg_table = ''logs'', lg_instance_json = (\<lambda>i. None), lg_time = ''0'',
       lg_hyphenated = show_word, lg_parse = (\<lambda>s. None)\<rparr>,
     pl_date_of = (\<lambda>s. (2016, 1)), pl_downloads_json = (\<lambda>ds. [])\<rparr>"

text \<open>The example: the backtester of the list does not run, and a response to another command arrives.\<close>

theorem running_modules_survive_heartbeat_witness:
  "heartbeat ((pl_spawner ex_platform)\<lparr>pe_hyphenated := pl_hyphenated ex_platform\<rparr>)
      (fst (ping_all ''control'' 7 0
        (ping_replies ex_platform 0 7 [Spawner_mod ex_spawner, Logger_mod 2] @ [response_wrap Res_Ok 9]) []))
      (\<lambda>i. None) ex_spawner =
    ex_spawner\<lparr>sp_living := [\<lparr>in_type = ''Logger'', in_uuid = 2\<rparr>, \<lparr>in_type = ''Spawner'', in_uuid = 1\<rparr>]\<rparr>"
proof -
  let ?ms = "[Spawner_mod ex_spawner, Logger_mod 2]"
  have inj: "inj (pl_hyphenated ex_platform)" by (simp add: ex_platform_def inj_show_word)
  have arrivals: "mset (ping_replies ex_platform 0 7 ?ms @ [response_wrap Res_Ok 9]) =
      mset (ping_replies ex_platform 0 7 ?ms) + mset [response_wrap Res_Ok 9]"
    by simp
  have others: "\<forall>r\<in>set [response_wrap Res_Ok 9]. wr_uuid r \<noteq> 7" by (simp add: response_wrap_def)
  have d: "distinct (map in_uuid (sp_living ex_spawner))" by (simp add: ex_spawner_def)
  have living: "sp_living ex_spawner = [\<lparr>in_type = ''Logger'', in_uuid = 2\<rparr>] @
      \<lparr>in_type = ''Backtester'', in_uuid = 3\<rparr> # [\<lparr>in_type = ''Spawner'', in_uuid = 1\<rparr>] \<and>
    list_all (runs ?ms) [\<lparr>in_type = ''Logger'', in_uuid = 2\<rparr>] \<and>
    \<not> runs ?ms \<lparr>in_type = ''Backtester'', in_uuid = 3\<rparr> \<and> (\<lambda>i. None) \<lparr>in_type = ''Backtester'', in_uuid = 3\<rparr> = None"
    by (simp add: ex_spawner_def runs_def spawner_new_def)
  show ?thesis
    using running_modules_survive_heartbeat [OF _ _ inj arrivals others d refl refl, of "[]" 0 "''control''" "\<lambda>i. None",
        THEN conjunct2, rule_format, OF _ _ living]
    by simp
qed

section \<open>Stragglers\<close>

text \<open>
  At the start every module that answers the ping is killed, also the logger the spawner has
  just started, if it is up by then.
\<close>

lemma straggler_kills_pong: "Res_Pong (n # args) \<in> set responses \<Longrightarrow> n \<in> set (straggler_kills responses)"
  by (induction responses rule: straggler_kills.induct) (auto split: response.splits list.splits)

lemma fresh_logger_killed:
  assumes "spawner_init env l True responses sp = Some sp'" and "answered env responses \<lparr>in_type = t, in_uuid = l\<rparr>"
  shows "pe_hyphenated env l \<in> set (sp_killed sp')"
  using assms
  by (auto simp: spawner_init_def answered_def bind_Some_iff add_instance_def dest: straggler_kills_pong)

text \<open>The spawner is an entry of its own list, so killing all instances kills it too.\<close>

lemma kill_all_kills_spawner:
  assumes "spawner_init env l kill responses sp = Some sp'"
  shows "pe_hyphenated env (sp_uuid sp') \<in> set (sp_killed (snd (kill_all env sp')))"
  using assms by (auto simp: spawner_init_def bind_Some_iff add_instance_def kill_all_def)

section \<open>Announcements\<close>

text \<open>
  A module registers under its uuid. The type it announces is the one it answers when asked,
  but for the flatfile downloader, which is entered as a backtester.
\<close>

lemma announcement_registers:
  assumes "announcement m = Some cmd"
  shows "\<exists>t. spawner_command env u cmd sp =
    Some (Reply Res_Ok, add_instance \<lparr>in_type = t, in_uuid = module_uuid m\<rparr> sp) \<and>
    (module_command e u Cmd_Type m = Some (Some (Info t), m) \<longleftrightarrow> (\<nexists>d. m = Flatfile_mod d))"
  using assms
  by (cases m) (auto simp: spawner_command_def listen_ready_def handled_as_def backtester_command_def
      optimizer_module_def optimizer_response_def processor_module_def processor_response_def logger_module_def
      logger_reply_def flatfile_module_def downloader_command_def flatfile_name_def native_module_def
      native_command_def)

section \<open>Commands sent again\<close>

text \<open>The modules a command starts, with their arguments.\<close>

definition started_args :: "spawner_env \<Rightarrow> uuid \<Rightarrow> command \<Rightarrow> string list option" where
  "started_args env u cmd =
     (case cmd of
        SpawnOptimizer strategy \<Rightarrow> Some [''./optimizer'', pe_hyphenated env u, strategy]
      | SpawnTickParser symbol \<Rightarrow> Some [''./tick_processor'', pe_hyphenated env u, symbol]
      | SpawnBacktester \<Rightarrow> Some [''./backtester'', pe_hyphenated env u]
      | SpawnFxcmFlatfileDataDownloader \<Rightarrow> Some [''./fxcm_flatfile_downloader'', pe_hyphenated env u]
      | SpawnFxcmNativeDataDownloader \<Rightarrow> Some [''./fxcm_native_downloader'', pe_hyphenated env u]
      | _ \<Rightarrow> None)"

lemma spawner_command_starts:
  assumes "started_args env u cmd = Some args" and "pe_start env args = Inr ()"
  shows "spawner_command env u cmd sp = Some (Reply Res_Ok, sp\<lparr>sp_started := sp_started sp @ [args]\<rparr>)"
  using assms
  by (cases cmd) (auto simp: started_args_def spawner_command_def spawn_module_def spawn_optimizer_def
      spawn_tick_parser_def spawn_backtester_def spawn_fxcm_dd_def spawn_fxcm_flatfile_dd_def)

lemma spawner_listen_starts:
  assumes "\<And>w. w \<in> set ws \<Longrightarrow> from_json (to_json (command_wrap w cmd)) = Some (command_wrap w cmd)"
    and "\<And>u. u \<in> set us \<Longrightarrow> \<exists>args. started_args env u cmd = Some args \<and> pe_start env args = Inr ()"
    and "length us = length ws"
  shows "spawner_listen env from_json store (zip (map (\<lambda>w. to_json (command_wrap w cmd)) ws) us) sp =
    Some (map (response_wrap Res_Ok) ws,
      sp\<lparr>sp_started := sp_started sp @ map (\<lambda>u. the (started_args env u cmd)) us\<rparr>)"
  using assms(3,1,2)
proof (induction us ws arbitrary: sp rule: list_induct2)
  case (Cons u us w ws)
  then obtain args where "started_args env u cmd = Some args" "pe_start env args = Inr ()" by force
  with Cons show ?case
    by (simp add: spawner_command_starts command_wrap_def)
qed simp

text \<open>C7. A command that starts a module is sent again after every timeout, under a new uuid. The
  spawner cannot tell, and starts one more module for every attempt that reaches it: when
  all the attempts before the last have timed out, however late the spawner was, as many
  modules run as there were attempts, although the caller gets one result.\<close>

theorem retries_start_modules_again:
  assumes "send_command_outer m cmd channel 0 as al [] = Some (r, al', sent)" and "0 < m"
    and "\<forall>a\<in>set as. at_uuid a \<notin> fst ` set al"
    and "\<forall>a\<in>set as. from_json (to_json (command_wrap (at_uuid a) cmd)) = Some (command_wrap (at_uuid a) cmd)"
    and "\<forall>u\<in>set us. \<exists>args. started_args env u cmd = Some args \<and> pe_start env args = Inr ()"
    and "length us = length sent"
  shows "\<exists>n. 0 < n \<and> n \<le> m \<and> length us = n \<and> (\<forall>i<n - 1. at_outcome (as ! i) = None) \<and>
    spawner_listen env from_json store (zip (map (to_json \<circ> snd) sent) us) sp =
      Some (map (\<lambda>a. response_wrap Res_Ok (at_uuid a)) (take n as),
        sp\<lparr>sp_started := sp_started sp @ map (\<lambda>u. the (started_args env u cmd)) us\<rparr>)"
proof -
  from send_command_outer_result [OF assms(1-3)] obtain n where out: "al' = al" "0 < n \<and> n \<le> m - 0 \<and> n \<le> length as \<and>
      sent = [] @ map (\<lambda>a. (channel, command_wrap (at_uuid a) cmd)) (take n as) \<and>
      (case r of
         Inr res \<Rightarrow> at_outcome (as ! (n - 1)) = Some res \<and> (\<forall>i<n - 1. at_outcome (as ! i) = None)
       | Inl e \<Rightarrow> n = m - 0 \<and> (\<forall>i<n. at_outcome (as ! i) = None))"
    by blast
  then have n: "0 < n" "n \<le> m" "n \<le> length as"
    and sent: "sent = map (\<lambda>a. (channel, command_wrap (at_uuid a) cmd)) (take n as)"
    and r: "\<forall>i<n - 1. at_outcome (as ! i) = None"
    by (cases r; simp)+
  have len: "length us = length (map at_uuid (take n as))" using assms(6) sent n by simp
  have json: "from_json (to_json (command_wrap w cmd)) = Some (command_wrap w cmd)"
    if "w \<in> set (map at_uuid (take n as))" for w
    using that assms(4) by (auto dest: in_set_takeD)
  have "map (to_json \<circ> snd) sent = map (\<lambda>w. to_json (command_wrap w cmd)) (map at_uuid (take n as))"
    by (simp add: sent)
  with spawner_listen_starts [of "map at_uuid (take n as)" from_json to_json cmd us env store sp, OF json _ len]
    assms(5) len n r
  show ?thesis by (intro exI [of _ n]) (simp add: comp_def)
qed

theorem retries_start_modules_again_witness:
  "spawner_listen ex_spawner_env (\<lambda>s. Some (command_wrap (if s = ''1'' then 1 else 2) SpawnBacktester)) (\<lambda>q. None)
      [(''1'', 11), (''2'', 12)] ex_spawner =
    Some ([response_wrap Res_Ok 1, response_wrap Res_Ok 2],
      ex_spawner\<lparr>sp_started := [[''./backtester'', ''11''], [''./backtester'', ''12'']]\<rparr>)"
proof -
  let ?json = "\<lambda>c. if wc_uuid c = 1 then ''1'' else ''2''"
  let ?parse = "\<lambda>s. Some (command_wrap (if s = ''1'' then 1 else 2) SpawnBacktester)"
  have names: "show_word (11 :: uuid) = ''11''" "show_word (12 :: uuid) = ''12''" by code_simp+
  have sent: "send_command_outer 3 SpawnBacktester ''c'' 0 ex_attempts [] [] =
      Some (Inr Res_Ok, [], [(''c'', command_wrap 1 SpawnBacktester), (''c'', command_wrap 2 SpawnBacktester)])"
    by (simp add: ex_attempts_def al_register_def command_wrap_def)
  have "\<forall>a\<in>set ex_attempts. ?parse (?json (command_wrap (at_uuid a) SpawnBacktester)) =
      Some (command_wrap (at_uuid a) SpawnBacktester)"
    by (simp add: ex_attempts_def command_wrap_def)
  moreover have "\<forall>u\<in>set [11, 12]. \<exists>args. started_args ex_spawner_env u SpawnBacktester = Some args \<and>
      pe_start ex_spawner_env args = Inr ()"
    by (simp add: started_args_def ex_spawner_env_def)
  ultimately obtain n where "length [11 :: uuid, 12] = n"
    "spawner_listen ex_spawner_env ?parse (\<lambda>q. None)
      (zip (map (?json \<circ> snd) [(''c'', command_wrap 1 SpawnBacktester), (''c'', command_wrap 2 SpawnBacktester)]) [11, 12])
      ex_spawner =
      Some (map (\<lambda>a. response_wrap Res_Ok (at_uuid a)) (take n ex_attempts),
        ex_spawner\<lparr>sp_started := sp_started ex_spawner @
          map (\<lambda>u. the (started_args ex_spawner_env u SpawnBacktester)) [11, 12]\<rparr>)"
    using retries_start_modules_again [OF sent, of ?parse ?json "[11, 12]" ex_spawner_env "\<lambda>q. None" ex_spawner]
    by auto
  then show ?thesis
    by (auto simp: ex_attempts_def command_wrap_def started_args_def ex_spawner_env_def names ex_spawner_def
        spawner_new_def)
qed

end
