(* ===== verification/Tg_Pipelines.thy ===== *)
theory Tg_Pipelines
  imports Tg_CInterface Tg_Logger Tg_Downloaders Tg_Tickstream
begin

text \<open>
  Two pipelines through several modules: a message logged by C code until its row in the
  database, and ticks downloaded into a file until a backtest reads them.
\<close>

section \<open>From a C string to the log table\<close>

text \<open>
  The literals of an \<open>INSERT\<close> as SQL reads them: each starts with an apostrophe, and a comma
  follows. \<open>insert_prefix\<close> is the statement up to its values.
\<close>

fun sql_fields :: "nat \<Rightarrow> string \<Rightarrow> (string list \<times> string) option" where
  "sql_fields 0 s = Some ([], s)"
| "sql_fields (Suc n) s =
     (case s of
        [] \<Rightarrow> None
      | c # cs \<Rightarrow>
          if c \<noteq> apostrophe then None
          else case sql_string cs of
              None \<Rightarrow> None
            | Some (f, rest) \<Rightarrow>
                if take 2 rest = '', '' then map_option (map_prod ((#) f) id) (sql_fields n (drop 2 rest)) else None)"

definition insert_prefix :: "logger_env \<Rightarrow> string" where
  "insert_prefix env = ''INSERT INTO '' @ lg_table env @ new_line @
     ''(sender_instance, message_type, message, level, log_time)'' @ new_line @ ''VALUES(''"

lemma sql_fields_literal:
  "sql_fields (Suc n) (apostrophe # escape s @ apostrophe # '', '' @ rest) =
     map_option (map_prod ((#) s) id) (sql_fields n rest)"
proof -
  have "sql_string (escape s @ apostrophe # '', '' @ rest) = Some (s, '', '' @ rest)"
    by (rule escape_read_back) simp_all
  then show ?thesis by simp
qed

lemma gen_log_query_fields:
  assumes "lg_instance_json env (lm_sender msg) = Some sender"
  shows "\<exists>vals. gen_log_query env msg = Some (insert_prefix env @ vals) \<and>
    sql_fields 3 vals = Some ([sender, lm_message_type msg, lm_message msg],
      show_word (level_to_int (lm_level msg)) @ '', '' @ lg_time env @ '');'')"
proof -
  define tail where "tail = show_word (level_to_int (lm_level msg)) @ '', '' @ lg_time env @ '');''"
  define vals where "vals = apostrophe # escape sender @ apostrophe # '', '' @
    (apostrophe # escape (lm_message_type msg) @ apostrophe # '', '' @
      (apostrophe # escape (lm_message msg) @ apostrophe # '', '' @ tail))"
  have "gen_log_query env msg = Some (insert_prefix env @ vals)"
    using assms by (simp add: gen_log_query_def insert_prefix_def vals_def tail_def)
  moreover have "sql_fields 3 vals = Some ([sender, lm_message_type msg, lm_message msg], tail)"
    by (simp only: vals_def numeral_3_eq_3 sql_fields_literal) simp
  ultimately show ?thesis by (auto simp: tail_def)
qed


definition ex_logger_env :: logger_env where
  "ex_logger_env = \<lparr>lg_table = ''logs'', lg_instance_json = (\<lambda>i. Some ''me''), lg_time = ''0'', lg_hyphenated = show_word,
     lg_parse = (\<lambda>s. Some (command_wrap 5 (cs_error \<lparr>in_type = ''C'', in_uuid = 1\<rparr> (Some ''x'')
       (''it'' @ [apostrophe] @ '');--''))))\<rparr>"


section \<open>From a download to a backtest\<close>

text \<open>What the effects of a callback leave in a file.\<close>

definition appended :: "string \<Rightarrow> rx_effect list \<Rightarrow> string" where
  "appended filename effects = concat [row. Appended f row \<leftarrow> effects, f = filename]"

lemma rx_calls_flatfile:
  assumes "rx_calls st to_json ts cb = Some cb'" and "rx_dst cb = Flatfile filename"
  shows "appended filename (rx_done cb') = appended filename (rx_done cb) @ concat (map to_csv_row ts)"
  using assms
proof (induction ts arbitrary: cb)
  case (Cons t ts)
  then obtain cb1 where cb1: "rx_call st to_json t cb = Some cb1" "rx_calls st to_json ts cb1 = Some cb'"
    by (auto simp: bind_Some_iff)
  with Cons.prems(2) have "rx_dst cb1 = Flatfile filename"
    "appended filename (rx_done cb1) = appended filename (rx_done cb) @ to_csv_row t"
    by (auto simp: rx_call_def bind_Some_iff appended_def)
  with Cons.IH [OF cb1(2)] show ?case by simp
qed simp

text \<open>C9. Ticks downloaded into a file are those a backtest reads from it. The prices are converted
  with the digits of the session, each tick is appended as a row, and the reader of the
  file gives back all ticks, the ones that were in the file before and then the
  downloaded ones in their order.\<close>

theorem download_then_read:
  assumes "native_download st to_json to_usize (Some (digits, cts)) us i symbol (Flatfile filename) a b d =
      Some (Inr (Some cb), d')"
    and "open_file [data_dir, ''historical_ticks'', map upper_char name @ ''.csv''] =
      Inr (concat (map to_csv_row old) @ appended filename (rx_done cb))"
  shows "flatfile_get_raw open_file data_dir name None = Some (old @ map (to_tick to_usize digits) cts)"
proof -
  let ?ts = "map (to_tick to_usize digits) cts"
  let ?cb = "\<lparr>rx_dst = Flatfile filename, rx_buffer = [], rx_done = []\<rparr>"
  have "rx_calls st to_json ?ts ?cb = Some cb"
    using assms(1) by (auto simp: native_download_def get_rx_closure_def Let_def bind_Some_iff split: if_splits)
  from rx_calls_flatfile [OF this] have "appended filename (rx_done cb) = concat (map to_csv_row ?ts)"
    by (simp add: appended_def)
  with assms(2) have "open_file [data_dir, ''historical_ticks'', map upper_char name @ ''.csv''] =
      Inr (concat (map to_csv_row (old @ ?ts)))"
    by simp
  from csv_rows_read [of open_file data_dir name "old @ ?ts", OF this] show ?thesis
    by (simp add: too_early_def dropWhile_eq_self_iff)
qed

definition ex_storage :: storage where
  "ex_storage = \<lparr>fs_touch = (\<lambda>f. True), fs_open = (\<lambda>f. True), fs_write = (\<lambda>f row. True), db_connect = False,
     db_init_table = (\<lambda>t. Inr ())\<rparr>"

theorem download_then_read_witness:
  "flatfile_get_raw (\<lambda>path. Inr (to_csv_row \<lparr>t_bid = 1, t_ask = 2, t_timestamp = 3\<rparr> @
      to_csv_row \<lparr>t_bid = 70, t_ask = 80, t_timestamp = 5\<rparr>)) ''data'' ''eurusd'' None =
    Some [\<lparr>t_bid = 1, t_ask = 2, t_timestamp = 3\<rparr>, \<lparr>t_bid = 70, t_ask = 80, t_timestamp = 5\<rparr>]"
proof -
  let ?t = "\<lparr>t_bid = 70, t_ask = 80, t_timestamp = 5\<rparr> :: tick"
  let ?old = "\<lparr>t_bid = 1, t_ask = 2, t_timestamp = 3\<rparr> :: tick"
  let ?ct = "\<lparr>ct_timestamp = 5, ct_bid = 7, ct_ask = 8\<rparr> :: usize c_tick"
  let ?us = "\<lparr>in_type = native_name, in_uuid = 1\<rparr>"
  have tick: "to_tick (\<lambda>m f. m * f) 1 ?ct = ?t" by (simp add: to_tick_def)
  let ?running = "running_of ?us 7 ''EURUSD'' (Flatfile ''f'') 0 9"
  have run: "native_download ex_storage (\<lambda>t. []) (\<lambda>m f. m * f) (Some (1, [?ct])) ?us 7 ''EURUSD'' (Flatfile ''f'') 0 9
      (native_new 1) =
    Some (Inr (Some \<lparr>rx_dst = Flatfile ''f'', rx_buffer = [], rx_done = [Appended ''f'' (to_csv_row ?t)]\<rparr>),
      (native_new 1)\<lparr>nd_sent := [DownloadStarted ?running, DownloadComplete ?running]\<rparr>)"
    by (simp add: native_download_def get_rx_closure_def ex_storage_def rx_call_def tick native_new_def Let_def)
  show ?thesis
    using download_then_read [OF run, of "\<lambda>path. Inr (to_csv_row ?old @ to_csv_row ?t)" "''data''" "''eurusd''" "[?old]"]
    by (simp add: appended_def tick)
qed

end
