(* ===== verification/Tg_Startup.thy ===== *)
theory Tg_Startup
  imports Tg_Platform
begin

text \<open>
  From the spawner's command to the entry in its list: the \<open>main\<close> functions of the modules,
  which read the arguments the spawner has started them with, and the announcement each
  sends when it listens. Parsing a uuid is the uuid crate's and a parameter, as are the
  connection to the database and the settings compiled in. The programs are found under
  the names the \<open>Makefile\<close> copies them to.
\<close>

section \<open>The programs\<close>

record startup_env =
  su_parse_uuid :: "string \<Rightarrow> uuid option"
  su_reset_db_on_load :: bool
  su_connected :: bool
  su_reset_ok :: bool
  su_postgres_user :: string
  su_logger :: logger_env

text \<open>A program that starts is its module and the statements it has sent to the database.\<close>

type_synonym 'g started = "('g module \<times> string list) run"

definition backtester_main :: "startup_env \<Rightarrow> string list \<Rightarrow> 'g started" where
  "backtester_main st args =
     (case args of
        [_, uuid_str] \<Rightarrow> do {
          u \<leftarrow> su_parse_uuid st uuid_str;
          ret (Backtester_mod (backtester_new u), [])
        }
      | _ \<Rightarrow> panic)"

definition flatfile_main :: "startup_env \<Rightarrow> string list \<Rightarrow> 'g started" where
  "flatfile_main st args =
     (case args of
        [_, uuid_str] \<Rightarrow> do {
          u \<leftarrow> su_parse_uuid st uuid_str;
          ret (Flatfile_mod (downloader_new u), [])
        }
      | _ \<Rightarrow> panic)"

definition native_main :: "startup_env \<Rightarrow> string list \<Rightarrow> 'g started" where
  "native_main st args =
     (if length args < 2 then panic
      else do {
        uuid_str \<leftarrow> vec_get args 1;
        u \<leftarrow> su_parse_uuid st uuid_str;
        ret (Native_mod (native_new u), [])
      })"

definition optimizer_main :: "startup_env \<Rightarrow> string list \<Rightarrow> 'g started" where
  "optimizer_main st args =
     (case args of
        [_, uuid_str] \<Rightarrow> do {
          u \<leftarrow> su_parse_uuid st uuid_str;
          ret (Optimizer_mod u, [])
        }
      | _ \<Rightarrow> panic)"

text \<open>The logger makes sure that its table exists.\<close>

definition logger_main :: "startup_env \<Rightarrow> string list \<Rightarrow> 'g started" where
  "logger_main st args =
     (case args of
        [_, uuid_str] \<Rightarrow> do {
          u \<leftarrow> su_parse_uuid st uuid_str;
          ret (Logger_mod u, [init_persistance (su_logger st)])
        }
      | _ \<Rightarrow> panic)"

text \<open>
  The tick processor connects to the database, which it resets when the configuration says
  so, and makes sure that the table of its symbol exists.
\<close>

definition processor_new :: "startup_env \<Rightarrow> string \<Rightarrow> string list run" where
  "processor_new st symbol = do {
     require (su_connected st);
     ret (fst (init_tick_table symbol (su_postgres_user st)))
   }"

definition processor_main :: "startup_env \<Rightarrow> string list \<Rightarrow> 'g started" where
  "processor_main st args =
     (case args of
        [_, uuid_str, symbol_str] \<Rightarrow> do {
          u \<leftarrow> su_parse_uuid st uuid_str;
          resets \<leftarrow> (if su_reset_db_on_load st
             then do {
               require (su_connected st);
               require (su_reset_ok st);
               ret [reset_db (su_postgres_user st)]
             }
             else ret []);
          tables \<leftarrow> processor_new st symbol_str;
          ret (Processor_mod u symbol_str, resets @ tables)
        }
      | _ \<Rightarrow> panic)"

text \<open>The program a process runs is the one its first argument names.\<close>

definition start_program :: "startup_env \<Rightarrow> string list \<Rightarrow> 'g started" where
  "start_program st args = do {
     path \<leftarrow> vec_get args 0;
     (if path = ''./backtester'' then backtester_main st args
      else if path = ''./optimizer'' then optimizer_main st args
      else if path = ''./tick_processor'' then processor_main st args
      else if path = ''./logger'' then logger_main st args
      else if path = ''./fxcm_flatfile_downloader'' then flatfile_main st args
      else if path = ''./fxcm_native_downloader'' then native_main st args
      else panic)
   }"

lemmas main_defs = backtester_main_def flatfile_main_def native_main_def optimizer_main_def
  logger_main_def processor_main_def processor_new_def start_program_def vec_get_def

section \<open>From the command to the entry\<close>

text \<open>What the arguments of the spawner make of each program.\<close>

lemma spawned_program:
  assumes "su_parse_uuid st (pe_hyphenated env u) = Some u" and "started_args env u cmd = Some args"
    and "su_connected st" and "su_reset_ok st"
  shows "(\<exists>strategy. cmd = SpawnOptimizer strategy \<and> (start_program st args :: 'g started) = panic) \<or>
    (\<nexists>strategy. cmd = SpawnOptimizer strategy) \<and>
    (\<exists>m stmts ready. (start_program st args :: 'g started) = Some (m, stmts) \<and> module_uuid m = u \<and>
       announcement m = Some ready)"
  using assms by (cases cmd) (auto simp: started_args_def main_defs backtester_new_def downloader_new_def native_new_def)

text \<open>C10. The spawner answers a command that starts a module with success as soon as the process is
  started. Unless it is the optimizer, the module then reads back exactly the uuid the
  spawner has drawn, comes up, and its announcement enters it into the spawner's list
  under that uuid. The optimizer is started with its strategy as a third argument, which
  its \<open>main\<close> does not accept: it panics before it announces itself, whatever the strategy.\<close>

theorem spawned_modules_register:
  assumes "su_parse_uuid st (pe_hyphenated env u) = Some u" and "started_args env u cmd = Some args"
    and "pe_start env args = Inr ()" and "su_connected st" and "su_reset_ok st"
  shows "\<exists>sp'. spawner_command env u cmd sp = Some (Reply Res_Ok, sp') \<and> sp_living sp' = sp_living sp \<and>
    (case cmd of
       SpawnOptimizer strategy \<Rightarrow> (start_program st args :: 'g started) = panic
     | _ \<Rightarrow> (\<exists>m stmts ready t. (start_program st args :: 'g started) = Some (m, stmts) \<and>
         module_uuid m = u \<and> announcement m = Some ready \<and>
         spawner_command env v ready sp' = Some (Reply Res_Ok, add_instance \<lparr>in_type = t, in_uuid = u\<rparr> sp')))"
proof -
  let ?sp = "sp\<lparr>sp_started := sp_started sp @ [args]\<rparr>"
  have sp: "spawner_command env u cmd sp = Some (Reply Res_Ok, ?sp)"
    by (rule spawner_command_starts [OF assms(2,3)])
  have up: "\<exists>t. spawner_command env v ready ?sp = Some (Reply Res_Ok, add_instance \<lparr>in_type = t, in_uuid = module_uuid m\<rparr> ?sp)"
    if "announcement m = Some ready" for m :: "'g module" and ready
    using announcement_registers [OF that, of env v ?sp] by blast
  from spawned_program [OF assms(1,2,4,5), where 'g = 'g] up show ?thesis
    by (intro exI [of _ ?sp] conjI sp) (fastforce split: command.splits)+
qed

definition ex_startup :: startup_env where
  "ex_startup = \<lparr>su_parse_uuid = (\<lambda>s. if s = ''11'' then Some 11 else None), su_reset_db_on_load = True,
     su_connected = True, su_reset_ok = True, su_postgres_user = ''u'',
     su_logger = pl_logger ex_platform\<rparr>"

theorem spawned_modules_register_witness:
  "\<exists>sp'. spawner_command ex_spawner_env 11 (SpawnOptimizer ''sma'') ex_spawner = Some (Reply Res_Ok, sp') \<and>
    sp_living sp' = sp_living ex_spawner \<and>
    (start_program ex_startup [''./optimizer'', ''11'', ''sma''] :: nat started) = panic"
proof -
  have name: "show_word (11 :: uuid) = ''11''" by code_simp
  have "su_parse_uuid ex_startup (pe_hyphenated ex_spawner_env 11) = Some 11"
    by (simp add: ex_startup_def ex_spawner_env_def name)
  moreover have "started_args ex_spawner_env 11 (SpawnOptimizer ''sma'') = Some [''./optimizer'', ''11'', ''sma'']"
    by (simp add: started_args_def ex_spawner_env_def name)
  moreover have "pe_start ex_spawner_env [''./optimizer'', ''11'', ''sma''] = Inr ()"
    by (simp add: ex_spawner_env_def)
  ultimately show ?thesis
    using spawned_modules_register [of ex_startup ex_spawner_env 11 "SpawnOptimizer ''sma''" _ ex_spawner, where 'g = nat]
    by (simp add: ex_startup_def)
qed

end
