(* ===== verification/Tg_CommandThreads.thy ===== *)
theory Tg_CommandThreads
  imports Tg_CommandServer
begin

text \<open>
  The threads behind a command server (\<open>util/src/transport/command_server.rs\<close>): the one that
  hands the responses to the listeners, and a worker with the sleeper that times its
  attempts. The sleeper is one thread for all attempts of its worker; it announces itself,
  parks for the duration of the timeout and resolves the future of the timeout, and an
  answered attempt ends the timeout early by unparking it. Unparking a thread that is not
  parked leaves a token with which its next park returns at once.
\<close>

section \<open>Responses\<close>

text \<open>
  The thread that receives the responses: what is sent to the listeners, and whether it
  still runs; a message that is no response is a panic of the thread.
\<close>

fun response_thread ::
  "(string \<Rightarrow> wrapped_response option) \<Rightarrow> alert_list \<Rightarrow> string list \<Rightarrow> (chan \<times> response) list \<times> bool" where
  "response_thread from_json al [] = ([], True)"
| "response_thread from_json al (raw # raws) =
     (case from_json raw of
        None \<Rightarrow> ([], False)
      | Some res \<Rightarrow>
          (let (sent, alive) = response_thread from_json al raws
           in ((case send_messages res al of None \<Rightarrow> [] | Some m \<Rightarrow> [m]) @ sent, alive)))"

text \<open>
  One message that is no response makes the command server deaf: whatever arrives later is
  delivered to nobody, so every later command times out.
\<close>

lemma response_thread_deaf:
  assumes "from_json bad = None"
  shows "response_thread from_json al (raws @ bad # later) = (fst (response_thread from_json al raws), False)"
  using assms by (induction raws) (auto split: option.splits prod.splits)

lemma response_thread_delivers:
  assumes "\<forall>raw\<in>set raws. from_json raw \<noteq> None"
  shows "response_thread from_json al raws =
    ([m. Some m \<leftarrow> map (\<lambda>raw. send_messages (the (from_json raw)) al) raws], True)"
  using assms by (induction raws) (auto split: option.splits)

section \<open>A worker and its sleeper\<close>

text \<open>
  The attempts are numbered. A sleeper waits for a request, has completed the future with
  its handle, is parked, or has returned from the park.
\<close>

datatype sleeper = Waiting | Announced nat | Parked nat | Woken nat

text \<open>
  A worker is between attempts, has sent the request for a timeout and waits for the handle
  of the sleeper, or has registered its listener and waits for the response or the timeout.
\<close>

datatype attempting = No_attempt | Asked nat | Listening nat

record timer =
  tm_requests :: "nat list"
  tm_sleeper :: sleeper
  tm_token :: bool
  tm_handles :: "nat list"
  tm_fired :: "nat list"
  tm_worker :: attempting
  tm_arrived :: "response option"
  tm_next :: nat
  tm_outcomes :: "response option list"

definition timer_new :: timer where
  "timer_new = \<lparr>tm_requests = [], tm_sleeper = Waiting, tm_token = False, tm_handles = [], tm_fired = [],
     tm_worker = No_attempt, tm_arrived = None, tm_next = 0, tm_outcomes = []\<rparr>"

text \<open>The loop of \<open>init_sleeper\<close>: it takes a request, parks, and when it wakes resolves the timeout.\<close>

definition sleeper_take :: "timer \<Rightarrow> timer option" where
  "sleeper_take s = (case (tm_sleeper s, tm_requests s) of
     (Waiting, n # ns) \<Rightarrow>
       Some (s\<lparr>tm_sleeper := Announced n, tm_requests := ns, tm_handles := n # tm_handles s\<rparr>)
   | _ \<Rightarrow> None)"

definition sleeper_park :: "timer \<Rightarrow> timer option" where
  "sleeper_park s = (case tm_sleeper s of
     Announced n \<Rightarrow>
       Some (if tm_token s then s\<lparr>tm_sleeper := Woken n, tm_token := False\<rparr>
             else s\<lparr>tm_sleeper := Parked n\<rparr>)
   | _ \<Rightarrow> None)"

definition timer_elapses :: "timer \<Rightarrow> timer option" where
  "timer_elapses s = (case tm_sleeper s of Parked n \<Rightarrow> Some (s\<lparr>tm_sleeper := Woken n\<rparr>) | _ \<Rightarrow> None)"

definition sleeper_fire :: "timer \<Rightarrow> timer option" where
  "sleeper_fire s = (case tm_sleeper s of
     Woken n \<Rightarrow> Some (s\<lparr>tm_sleeper := Waiting, tm_fired := n # tm_fired s\<rparr>)
   | _ \<Rightarrow> None)"

text \<open>The parts of \<open>send_command_outer\<close>; unparking wakes a parked thread or leaves the token.\<close>

definition sleeper_unpark :: "timer \<Rightarrow> timer" where
  "sleeper_unpark s = (case tm_sleeper s of
     Parked n \<Rightarrow> s\<lparr>tm_sleeper := Woken n\<rparr>
   | _ \<Rightarrow> s\<lparr>tm_token := True\<rparr>)"

definition worker_ask :: "timer \<Rightarrow> timer option" where
  "worker_ask s = (case tm_worker s of
     No_attempt \<Rightarrow> Some (s\<lparr>tm_worker := Asked (tm_next s), tm_requests := tm_requests s @ [tm_next s],
       tm_next := Suc (tm_next s)\<rparr>)
   | _ \<Rightarrow> None)"

definition worker_register :: "timer \<Rightarrow> timer option" where
  "worker_register s = (case tm_worker s of
     Asked n \<Rightarrow> (if n \<in> set (tm_handles s) then Some (s\<lparr>tm_worker := Listening n, tm_arrived := None\<rparr>) else None)
   | _ \<Rightarrow> None)"

definition response_arrives :: "response \<Rightarrow> timer \<Rightarrow> timer option" where
  "response_arrives r s = (case (tm_worker s, tm_arrived s) of
     (Listening n, None) \<Rightarrow> Some (s\<lparr>tm_arrived := Some r\<rparr>)
   | _ \<Rightarrow> None)"

definition worker_answered :: "timer \<Rightarrow> timer option" where
  "worker_answered s = (case (tm_worker s, tm_arrived s) of
     (Listening n, Some r) \<Rightarrow>
       Some ((sleeper_unpark s)\<lparr>tm_worker := No_attempt, tm_outcomes := tm_outcomes s @ [Some r]\<rparr>)
   | _ \<Rightarrow> None)"

text \<open>
  The two futures are polled one after the other, so a timeout may be found even when the
  response has arrived in between.
\<close>

definition worker_timed_out :: "timer \<Rightarrow> timer option" where
  "worker_timed_out s = (case tm_worker s of
     Listening n \<Rightarrow> (if n \<in> set (tm_fired s)
       then Some (s\<lparr>tm_worker := No_attempt, tm_outcomes := tm_outcomes s @ [None]\<rparr>) else None)
   | _ \<Rightarrow> None)"

datatype timer_event =
    Take | Park | Elapse | Fire | Ask | Register | Arrive response | Answered | Timed_out

fun timer_step :: "timer_event \<Rightarrow> timer \<Rightarrow> timer option" where
  "timer_step Take s = sleeper_take s"
| "timer_step Park s = sleeper_park s"
| "timer_step Elapse s = timer_elapses s"
| "timer_step Fire s = sleeper_fire s"
| "timer_step Ask s = worker_ask s"
| "timer_step Register s = worker_register s"
| "timer_step (Arrive r) s = response_arrives r s"
| "timer_step Answered s = worker_answered s"
| "timer_step Timed_out s = worker_timed_out s"

fun timer_run :: "timer_event list \<Rightarrow> timer \<Rightarrow> timer option" where
  "timer_run [] s = Some s"
| "timer_run (e # es) s = Option.bind (timer_step e s) (timer_run es)"

lemmas timer_defs = sleeper_take_def sleeper_park_def timer_elapses_def sleeper_fire_def sleeper_unpark_def
  worker_ask_def worker_register_def response_arrives_def worker_answered_def worker_timed_out_def

section \<open>Accounting for timeouts\<close>

text \<open>
  The attempt under way is the one the sleeper times: it waits for the request, or holds
  it, or has resolved its timeout.
\<close>

definition timing :: "nat \<Rightarrow> timer \<Rightarrow> bool" where
  "timing n s \<longleftrightarrow> tm_sleeper s \<in> {Announced n, Parked n, Woken n} \<or> tm_sleeper s = Waiting \<and> n \<in> set (tm_fired s)"

fun sleeper_number :: "sleeper \<Rightarrow> nat set" where
  "sleeper_number Waiting = {}"
| "sleeper_number (Announced n) = {n}"
| "sleeper_number (Parked n) = {n}"
| "sleeper_number (Woken n) = {n}"

definition timer_inv :: "timer \<Rightarrow> bool" where
  "timer_inv s \<longleftrightarrow>
     set (tm_requests s) \<union> sleeper_number (tm_sleeper s) \<union> set (tm_handles s) \<union> set (tm_fired s) \<subseteq> {..<tm_next s} \<and>
     (case tm_worker s of
        No_attempt \<Rightarrow> tm_requests s = []
      | Asked n \<Rightarrow> n < tm_next s \<and>
          (if n \<in> set (tm_handles s) then tm_requests s = [] \<and> timing n s else tm_requests s = [n])
      | Listening n \<Rightarrow> tm_requests s = [] \<and> timing n s)"

lemma timer_inv_new: "timer_inv timer_new"
  by (simp add: timer_inv_def timer_new_def)

lemma inv_Take: "timer_inv s \<Longrightarrow> sleeper_take s = Some s' \<Longrightarrow> timer_inv s'"
  by (auto simp: sleeper_take_def timer_inv_def timing_def split: sleeper.splits attempting.splits list.splits option.splits if_splits)

lemma inv_Park: "timer_inv s \<Longrightarrow> sleeper_park s = Some s' \<Longrightarrow> timer_inv s'"
  by (auto simp: sleeper_park_def timer_inv_def timing_def split: sleeper.splits attempting.splits list.splits option.splits if_splits)

lemma inv_Elapse: "timer_inv s \<Longrightarrow> timer_elapses s = Some s' \<Longrightarrow> timer_inv s'"
  by (auto simp: timer_elapses_def timer_inv_def timing_def split: sleeper.splits attempting.splits list.splits option.splits if_splits)

lemma inv_Fire: "timer_inv s \<Longrightarrow> sleeper_fire s = Some s' \<Longrightarrow> timer_inv s'"
  by (auto simp: sleeper_fire_def timer_inv_def timing_def split: sleeper.splits attempting.splits list.splits option.splits if_splits)

lemma inv_Ask: "timer_inv s \<Longrightarrow> worker_ask s = Some s' \<Longrightarrow> timer_inv s'"
  by (auto simp: worker_ask_def timer_inv_def timing_def split: sleeper.splits attempting.splits list.splits option.splits if_splits)

lemma inv_Register: "timer_inv s \<Longrightarrow> worker_register s = Some s' \<Longrightarrow> timer_inv s'"
  by (auto simp: worker_register_def timer_inv_def timing_def split: sleeper.splits attempting.splits list.splits option.splits if_splits)

lemma inv_Arrive: "timer_inv s \<Longrightarrow> response_arrives r s = Some s' \<Longrightarrow> timer_inv s'"
  by (auto simp: response_arrives_def timer_inv_def timing_def split: sleeper.splits attempting.splits list.splits option.splits if_splits)

lemma inv_Answered: "timer_inv s \<Longrightarrow> worker_answered s = Some s' \<Longrightarrow> timer_inv s'"
  by (auto simp: worker_answered_def sleeper_unpark_def timer_inv_def timing_def split: sleeper.splits attempting.splits list.splits option.splits if_splits)

lemma inv_Timed_out: "timer_inv s \<Longrightarrow> worker_timed_out s = Some s' \<Longrightarrow> timer_inv s'"
  by (auto simp: worker_timed_out_def timer_inv_def timing_def split: sleeper.splits attempting.splits list.splits option.splits if_splits)

lemmas inv_steps = inv_Take inv_Park inv_Elapse inv_Fire inv_Ask inv_Register inv_Arrive inv_Answered inv_Timed_out

lemma timer_inv_step: "timer_inv s \<Longrightarrow> timer_step e s = Some s' \<Longrightarrow> timer_inv s'"
  by (cases e) (auto intro: inv_steps)

lemma timer_inv_run: "timer_run es s = Some s' \<Longrightarrow> timer_inv s \<Longrightarrow> timer_inv s'"
  by (induction es arbitrary: s) (auto simp: bind_Some_iff intro: timer_inv_step)

text \<open>
  Timers that have run out and are not yet paid for by a timeout: a token that a late
  response has left, and the wake of the sleeper in the attempt under way. A token left for
  an attempt that is over before the sleeper has parked does not count.
\<close>

fun current :: "attempting \<Rightarrow> nat option" where
  "current No_attempt = None"
| "current (Asked n) = Some n"
| "current (Listening n) = Some n"

definition token_credit :: "timer \<Rightarrow> nat" where
  "token_credit s = (if tm_token s \<and>
       (case tm_sleeper s of Announced n \<Rightarrow> current (tm_worker s) = Some n | _ \<Rightarrow> True) then 1 else 0)"

definition wake_credit :: "timer \<Rightarrow> nat" where
  "wake_credit s = (case current (tm_worker s) of
     None \<Rightarrow> 0
   | Some n \<Rightarrow> if tm_sleeper s = Woken n \<or> n \<in> set (tm_fired s) then 1 else 0)"

definition timeouts :: "timer \<Rightarrow> nat" where
  "timeouts s = length (filter (\<lambda>r. r = None) (tm_outcomes s))"

definition owed :: "timer \<Rightarrow> nat" where
  "owed s = timeouts s + token_credit s + wake_credit s"

lemmas credit_defs = owed_def timeouts_def token_credit_def wake_credit_def

lemma owed_Take: "timer_inv s \<Longrightarrow> sleeper_take s = Some s' \<Longrightarrow> owed s' \<le> owed s"
  by (cases "tm_sleeper s"; cases "tm_requests s"; cases "tm_worker s")
    (auto simp: sleeper_take_def timer_inv_def timing_def credit_defs split: if_splits)

lemma owed_Park: "timer_inv s \<Longrightarrow> sleeper_park s = Some s' \<Longrightarrow> owed s' \<le> owed s"
  by (cases "tm_sleeper s"; cases "tm_worker s")
    (auto simp: sleeper_park_def timer_inv_def timing_def credit_defs split: if_splits)

lemma owed_Elapse: "timer_inv s \<Longrightarrow> timer_elapses s = Some s' \<Longrightarrow> owed s' \<le> owed s + 1"
  by (cases "tm_sleeper s"; cases "tm_worker s")
    (auto simp: timer_elapses_def timer_inv_def timing_def credit_defs split: if_splits)

lemma owed_Fire: "timer_inv s \<Longrightarrow> sleeper_fire s = Some s' \<Longrightarrow> owed s' \<le> owed s"
  by (cases "tm_sleeper s"; cases "tm_worker s")
    (auto simp: sleeper_fire_def timer_inv_def timing_def credit_defs split: if_splits)

lemma owed_Ask: "timer_inv s \<Longrightarrow> worker_ask s = Some s' \<Longrightarrow> owed s' \<le> owed s"
  by (cases "tm_sleeper s"; cases "tm_worker s")
    (auto simp: worker_ask_def timer_inv_def timing_def credit_defs split: if_splits)

lemma owed_Register: "timer_inv s \<Longrightarrow> worker_register s = Some s' \<Longrightarrow> owed s' \<le> owed s"
  by (cases "tm_sleeper s"; cases "tm_worker s")
    (auto simp: worker_register_def timer_inv_def timing_def credit_defs split: if_splits)

lemma owed_Arrive: "timer_inv s \<Longrightarrow> response_arrives r s = Some s' \<Longrightarrow> owed s' \<le> owed s"
  by (cases "tm_sleeper s"; cases "tm_worker s"; cases "tm_arrived s")
    (auto simp: response_arrives_def timer_inv_def timing_def credit_defs split: if_splits)

lemma owed_Answered: "timer_inv s \<Longrightarrow> worker_answered s = Some s' \<Longrightarrow> owed s' \<le> owed s"
  by (cases "tm_sleeper s"; cases "tm_worker s"; cases "tm_arrived s")
    (auto simp: worker_answered_def sleeper_unpark_def timer_inv_def timing_def credit_defs split: if_splits)

lemma owed_Timed_out: "timer_inv s \<Longrightarrow> worker_timed_out s = Some s' \<Longrightarrow> owed s' \<le> owed s"
  by (cases "tm_sleeper s"; cases "tm_worker s")
    (auto simp: worker_timed_out_def timer_inv_def timing_def credit_defs split: if_splits)

lemmas owed_steps = owed_Take owed_Park owed_Elapse owed_Fire owed_Ask owed_Register owed_Arrive owed_Answered owed_Timed_out

lemma owed_step:
  assumes "timer_inv s" and "timer_step e s = Some s'"
  shows "owed s' \<le> owed s + count_list [e] Elapse"
  using assms by (cases e) (auto dest: owed_steps)

lemma owed_run: "timer_run es s = Some s' \<Longrightarrow> timer_inv s \<Longrightarrow> owed s' \<le> owed s + count_list es Elapse"
proof (induction es arbitrary: s)
  case (Cons e es)
  from Cons.prems(1) obtain s1 where s1: "timer_step e s = Some s1" "timer_run es s1 = Some s'"
    by (auto simp: bind_Some_iff)
  from Cons.IH [OF s1(2) timer_inv_step [OF Cons.prems(2) s1(1)]] owed_step [OF Cons.prems(2) s1(1)]
  show ?case by (auto split: if_splits)
qed simp

section \<open>No attempt hangs\<close>

text \<open>The sleeper can always finish what it does, with the timer running out where it is needed.\<close>

definition finish :: "timer \<Rightarrow> timer_event list" where
  "finish s = (case tm_sleeper s of
     Waiting \<Rightarrow> []
   | Announced n \<Rightarrow> if tm_token s then [Park, Fire] else [Park, Elapse, Fire]
   | Parked n \<Rightarrow> [Elapse, Fire]
   | Woken n \<Rightarrow> [Fire])"

lemma timer_run_append: "timer_run (es @ fs) s = Option.bind (timer_run es s) (timer_run fs)"
  by (induction es arbitrary: s) (auto split: bind_split)

definition finished :: "timer \<Rightarrow> timer" where
  "finished s = (case tm_sleeper s of
     Waiting \<Rightarrow> s
   | Announced n \<Rightarrow> s\<lparr>tm_sleeper := Waiting, tm_token := False, tm_fired := n # tm_fired s\<rparr>
   | Parked n \<Rightarrow> s\<lparr>tm_sleeper := Waiting, tm_fired := n # tm_fired s\<rparr>
   | Woken n \<Rightarrow> s\<lparr>tm_sleeper := Waiting, tm_fired := n # tm_fired s\<rparr>)"

lemma finish_run: "timer_run (finish s) s = Some (finished s)"
  by (cases "tm_sleeper s"; cases "tm_token s") (auto simp: finish_def finished_def timer_defs)

lemma finished_simps [simp]:
  "tm_sleeper (finished s) = Waiting" "tm_worker (finished s) = tm_worker s"
  "tm_requests (finished s) = tm_requests s" "tm_handles (finished s) = tm_handles s"
  "tm_outcomes (finished s) = tm_outcomes s"
  by (simp_all add: finished_def split: sleeper.split)

lemma finished_fired: "timing n s \<Longrightarrow> n \<in> set (tm_fired (finished s))"
  by (auto simp: timing_def finished_def)

lemma length_finish: "length (finish s) \<le> 3"
  by (simp add: finish_def split: sleeper.split)

lemma listening_ends:
  assumes "tm_worker s = Listening n" and "timing n s"
  shows "\<exists>s'. timer_run (finish s @ [Timed_out]) s = Some s' \<and> tm_worker s' = No_attempt \<and>
    tm_outcomes s' = tm_outcomes s @ [None]"
proof -
  have "worker_timed_out (finished s) =
      Some ((finished s)\<lparr>tm_worker := No_attempt, tm_outcomes := tm_outcomes s @ [None]\<rparr>)"
    using finished_fired [OF assms(2)] assms(1) by (simp add: worker_timed_out_def)
  then show ?thesis by (simp add: timer_run_append finish_run)
qed

lemma asked_ends:
  assumes "tm_worker s = Asked n" and "n \<in> set (tm_handles s)" and "timing n s"
  shows "\<exists>s'. timer_run (Register # finish (s\<lparr>tm_worker := Listening n, tm_arrived := None\<rparr>) @ [Timed_out]) s = Some s' \<and>
    tm_worker s' = No_attempt \<and> tm_outcomes s' = tm_outcomes s @ [None]"
  using assms listening_ends [of "s\<lparr>tm_worker := Listening n, tm_arrived := None\<rparr>" n]
  by (simp add: worker_register_def timing_def)

lemma attempt_ends:
  assumes inv: "timer_inv s" and busy: "tm_worker s \<noteq> No_attempt"
  shows "\<exists>es s'. length es \<le> 9 \<and> (\<forall>r. Arrive r \<notin> set es) \<and> timer_run es s = Some s' \<and>
    tm_worker s' = No_attempt \<and> tm_outcomes s' = tm_outcomes s @ [None]"
proof -
  have none: "Arrive r \<notin> set (finish t)" for r t by (simp add: finish_def split: sleeper.split)
  show ?thesis
  proof (cases "tm_worker s")
    case (Listening n)
    with inv have "timing n s" by (simp add: timer_inv_def)
    with listening_ends [OF Listening this] length_finish [of s] none show ?thesis
      by (intro exI [of _ "finish s @ [Timed_out]"]) auto
  next
    case (Asked n)
    show ?thesis
    proof (cases "n \<in> set (tm_handles s)")
      case True
      with inv Asked have "timing n s" by (simp add: timer_inv_def)
      let ?t = "s\<lparr>tm_worker := Listening n, tm_arrived := None\<rparr>"
      from asked_ends [OF Asked True \<open>timing n s\<close>] length_finish [of ?t] none show ?thesis
        by (intro exI [of _ "Register # finish ?t @ [Timed_out]"]) auto
    next
      case False
      with inv Asked have req: "tm_requests s = [n]" by (simp add: timer_inv_def)
      let ?s2 = "(finished s)\<lparr>tm_sleeper := Announced n, tm_requests := [], tm_handles := n # tm_handles s\<rparr>"
      let ?t = "?s2\<lparr>tm_worker := Listening n, tm_arrived := None\<rparr>"
      have take: "timer_run (finish s @ [Take]) s = Some ?s2"
        using req by (simp add: timer_run_append finish_run sleeper_take_def)
      obtain s' where "timer_run (Register # finish ?t @ [Timed_out]) ?s2 = Some s'" "tm_worker s' = No_attempt"
        "tm_outcomes s' = tm_outcomes ?s2 @ [None]"
        using asked_ends [of ?s2 n] Asked by (auto simp: timing_def)
      moreover from this have "timer_run ((finish s @ [Take]) @ Register # finish ?t @ [Timed_out]) s = Some s'"
        unfolding timer_run_append [of "finish s @ [Take]"] take by (simp only: Option.bind.bind_lunit)
      ultimately show ?thesis
        using none length_finish [of s] length_finish [of ?t]
        by (intro exI [of _ "(finish s @ [Take]) @ Register # finish ?t @ [Timed_out]"] exI [of _ s']) auto
    qed
  qed (use busy in simp)
qed

section \<open>Properties\<close>


definition late_answer :: "response \<Rightarrow> timer_event list" where
  "late_answer r = [Ask, Take, Register, Park, Arrive r, Elapse, Answered, Fire]"

definition early_timeout :: "timer_event list" where
  "early_timeout = [Ask, Take, Register, Park, Fire, Timed_out]"


text \<open>C39. No attempt hangs: in every state that can be reached with an attempt under way, the
  attempt can end without any response, in at most nine further steps of the worker, the
  sleeper and its timer, and it then counts as timed out.\<close>

theorem attempts_can_end:
  assumes "timer_run es timer_new = Some s" and "tm_worker s \<noteq> No_attempt"
  shows "\<exists>es' s'. length es' \<le> 9 \<and> (\<forall>r. Arrive r \<notin> set es') \<and> timer_run es' s = Some s' \<and>
    tm_worker s' = No_attempt \<and> tm_outcomes s' = tm_outcomes s @ [None]"
  by (rule attempt_ends [OF timer_inv_run [OF assms(1) timer_inv_new] assms(2)])

theorem attempts_can_end_witness:
  "\<exists>es' s'. length es' \<le> 9 \<and> timer_run es' (timer_new\<lparr>tm_worker := Asked 0, tm_requests := [0], tm_next := 1\<rparr>) = Some s' \<and>
     tm_outcomes s' = [None]"
proof -
  have "timer_run [Ask] timer_new = Some (timer_new\<lparr>tm_worker := Asked 0, tm_requests := [0], tm_next := 1\<rparr>)"
    by (simp add: timer_new_def worker_ask_def)
  from attempts_can_end [OF this] show ?thesis by (fastforce simp: timer_new_def)
qed


end
