(* ===== verification/Tg_Redis.thy ===== *)
theory Tg_Redis
  imports Tg_CommandThreads
begin

text \<open>
  How messages travel: the functions over the redis crate (\<open>util/src/transport/redis.rs\<close>), the
  JSON forms of commands and responses around serde (\<open>transport/commands.rs\<close>), and what the
  platform makes of both. The crate is a parameter: whether a host is valid, a connection
  or a subscription succeeds, a message can be published, and the results of the successive
  calls that wait for a message of a subscription. So is serde: printing a value may fail,
  and reading a text may.
\<close>

section \<open>Redis\<close>

text \<open>A message has a channel and a payload, which is \<^term>\<open>None\<close> when its bytes are no text.\<close>

record redis_msg =
  rm_channel :: string
  rm_payload :: "string option"

datatype subscription = Channels "string list" | Pattern string

record redis_env =
  re_opens :: "string \<Rightarrow> bool"
  re_connects :: "string \<Rightarrow> bool"
  re_subscribes :: "string \<Rightarrow> subscription \<Rightarrow> bool"
  re_publishes :: "string \<Rightarrow> string \<Rightarrow> string \<Rightarrow> bool"
  re_arrivals :: "string \<Rightarrow> subscription \<Rightarrow> redis_msg option list"

text \<open>A client is the host it was opened for.\<close>

definition get_client :: "redis_env \<Rightarrow> string \<Rightarrow> string run" where
  "get_client env host = (if re_opens env host then ret host else panic)"

definition get_message :: "redis_msg option \<Rightarrow> string run" where
  "get_message res = do { msg \<leftarrow> res; rm_payload msg }"

definition get_chan_message :: "redis_msg option \<Rightarrow> (string \<times> string) run" where
  "get_chan_message res = do {
     msg \<leftarrow> res;
     let channel = rm_channel msg;
     message \<leftarrow> rm_payload msg;
     ret (channel, message)
   }"

text \<open>What has been sent through the channel; that the receiver may be gone is ignored.\<close>

definition get_message_outer :: "redis_msg option \<Rightarrow> string list \<Rightarrow> string list run" where
  "get_message_outer res tx = do { m \<leftarrow> get_message res; ret (tx @ [m]) }"

definition get_chan_message_outer :: "redis_msg option \<Rightarrow> (string \<times> string) list \<Rightarrow> (string \<times> string) list run" where
  "get_chan_message_outer res tx = do { m \<leftarrow> get_chan_message res; ret (tx @ [m]) }"

text \<open>The endless loop of a subscription's thread: what it has sent, and whether it still runs.\<close>

fun sub_loop :: "(redis_msg option \<Rightarrow> 'a list \<Rightarrow> 'a list run) \<Rightarrow> redis_msg option list \<Rightarrow> 'a list \<Rightarrow> 'a list \<times> bool" where
  "sub_loop outer [] tx = (tx, True)"
| "sub_loop outer (res # arrivals) tx =
     (case outer res tx of None \<Rightarrow> (tx, False) | Some tx' \<Rightarrow> sub_loop outer arrivals tx')"

definition get_pubsub :: "redis_env \<Rightarrow> string \<Rightarrow> string \<Rightarrow> subscription run" where
  "get_pubsub env host channel = do {
     client \<leftarrow> get_client env host;
     require (re_connects env client);
     require (re_subscribes env client (Channels [channel]));
     ret (Channels [channel])
   }"

definition sub_channel :: "redis_env \<Rightarrow> string \<Rightarrow> string \<Rightarrow> (string list \<times> bool) run" where
  "sub_channel env host ps_channel = do {
     ps \<leftarrow> get_pubsub env host ps_channel;
     ret (sub_loop get_message_outer (re_arrivals env host ps) [])
   }"

text \<open>The channels are subscribed to one after the other, on one connection.\<close>

fun subscribe_all :: "redis_env \<Rightarrow> string \<Rightarrow> string list \<Rightarrow> string list \<Rightarrow> string list run" where
  "subscribe_all env client subbed [] = ret subbed"
| "subscribe_all env client subbed (channel # channels) = do {
     require (re_subscribes env client (Channels [channel]));
     subscribe_all env client (subbed @ [channel]) channels
   }"

definition sub_multiple :: "redis_env \<Rightarrow> string \<Rightarrow> string list \<Rightarrow> ((string \<times> string) list \<times> bool) run" where
  "sub_multiple env host channels = do {
     client \<leftarrow> get_client env host;
     require (re_connects env client);
     subbed \<leftarrow> subscribe_all env client [] channels;
     ret (sub_loop get_chan_message_outer (re_arrivals env host (Channels subbed)) [])
   }"

definition sub_all :: "redis_env \<Rightarrow> string \<Rightarrow> ((string \<times> string) list \<times> bool) run" where
  "sub_all env host = do {
     client \<leftarrow> get_client env host;
     require (re_connects env client);
     require (re_subscribes env client (Pattern ''*''));
     ret (sub_loop get_chan_message_outer (re_arrivals env host (Pattern ''*'')) [])
   }"

definition publish :: "redis_env \<Rightarrow> string \<Rightarrow> string \<Rightarrow> string \<Rightarrow> redis_msg list \<Rightarrow> redis_msg list run" where
  "publish env client channel msg bus =
     (if re_publishes env client channel msg then ret (bus @ [\<lparr>rm_channel = channel, rm_payload = Some msg\<rparr>])
      else panic)"

section \<open>Commands and responses as text\<close>

text \<open>The error of serde is dropped by the methods and kept by the two functions that publish.\<close>

definition drop_error :: "'e + 'a \<Rightarrow> unit + 'a" where
  "drop_error r = (case r of Inl err \<Rightarrow> Inl () | Inr x \<Rightarrow> Inr x)"

definition command_to_string :: "(command \<Rightarrow> 'e + string) \<Rightarrow> command \<Rightarrow> unit + string" where
  "command_to_string to_json cmd = drop_error (to_json cmd)"

definition command_from_str :: "(string \<Rightarrow> 'e + command) \<Rightarrow> string \<Rightarrow> unit + command" where
  "command_from_str from_json raw = drop_error (from_json raw)"

definition wrapped_command_to_string :: "(wrapped_command \<Rightarrow> 'e + string) \<Rightarrow> wrapped_command \<Rightarrow> unit + string" where
  "wrapped_command_to_string to_json wr = drop_error (to_json wr)"

definition wrapped_command_from_str :: "(string \<Rightarrow> 'e + wrapped_command) \<Rightarrow> string \<Rightarrow> unit + wrapped_command" where
  "wrapped_command_from_str from_json raw = drop_error (from_json raw)"

definition response_to_string :: "(response \<Rightarrow> 'e + string) \<Rightarrow> response \<Rightarrow> unit + string" where
  "response_to_string to_json res = drop_error (to_json res)"

definition response_from_str :: "(string \<Rightarrow> 'e + response) \<Rightarrow> string \<Rightarrow> unit + response" where
  "response_from_str from_json raw = drop_error (from_json raw)"

definition wrapped_response_to_string :: "(wrapped_response \<Rightarrow> 'e + string) \<Rightarrow> wrapped_response \<Rightarrow> unit + string" where
  "wrapped_response_to_string to_json wr = drop_error (to_json wr)"

definition wrapped_response_from_str :: "(string \<Rightarrow> 'e + wrapped_response) \<Rightarrow> string \<Rightarrow> unit + wrapped_response" where
  "wrapped_response_from_str from_json raw = drop_error (from_json raw)"

definition send_command ::
  "(wrapped_command \<Rightarrow> 'e + string) \<Rightarrow> redis_env \<Rightarrow> wrapped_command \<Rightarrow> string \<Rightarrow> string \<Rightarrow> redis_msg list \<Rightarrow>
     ('e + redis_msg list) run" where
  "send_command to_json env cmd client commands_channel bus =
     (case to_json cmd of
        Inl err \<Rightarrow> ret (Inl err)
      | Inr command_string \<Rightarrow> map_option Inr (publish env client commands_channel command_string bus))"

definition send_response ::
  "(wrapped_response \<Rightarrow> 'e + string) \<Rightarrow> redis_env \<Rightarrow> wrapped_response \<Rightarrow> string \<Rightarrow> string \<Rightarrow> redis_msg list \<Rightarrow>
     ('e + redis_msg list) run" where
  "send_response to_json env res client channel bus =
     (case to_json res of
        Inl err \<Rightarrow> ret (Inl err)
      | Inr ser \<Rightarrow> map_option Inr (publish env client channel ser bus))"

section \<open>Subscriptions\<close>

lemma sub_loop_all:
  assumes "\<And>tx. outer res tx = Some (tx @ [x])"
  shows "sub_loop outer (res # arrivals) tx = sub_loop outer arrivals (tx @ [x])"
  by (simp add: assms)

lemma sub_loop_texts:
  "\<forall>m\<in>set ms. rm_payload m \<noteq> None \<Longrightarrow>
     sub_loop get_message_outer (map Some ms) tx = (tx @ map (the \<circ> rm_payload) ms, True)"
  by (induction ms arbitrary: tx) (auto simp: get_message_outer_def get_message_def)

lemma sub_loop_chan_texts:
  "\<forall>m\<in>set ms. rm_payload m \<noteq> None \<Longrightarrow>
     sub_loop get_chan_message_outer (map Some ms) tx = (tx @ map (\<lambda>m. (rm_channel m, the (rm_payload m))) ms, True)"
  by (induction ms arbitrary: tx) (auto simp: get_chan_message_outer_def get_chan_message_def)

text \<open>
  One payload that is no text, or one error of the connection, ends the thread, and the
  receiver gets nothing of what is published later.
\<close>

lemma sub_loop_stops:
  assumes "\<And>tx. outer bad tx = None"
  shows "sub_loop outer (xs @ bad # later) tx = (fst (sub_loop outer xs tx), False)"
  using assms by (induction xs arbitrary: tx) (auto split: option.split)

lemma subscribe_all_ok:
  "\<forall>channel. re_subscribes env client (Channels [channel]) \<Longrightarrow> subscribe_all env client subbed channels = Some (subbed @ channels)"
  by (induction channels arbitrary: subbed) simp_all

text \<open>
  What is documented of Redis: with a valid host every message published on a channel
  reaches its subscribers once, in the order of publication.
\<close>

definition redis_works :: "redis_env \<Rightarrow> string \<Rightarrow> redis_msg list \<Rightarrow> bool" where
  "redis_works env host bus \<longleftrightarrow> re_opens env host \<and> re_connects env host \<and>
     (\<forall>channel. re_subscribes env host (Channels [channel])) \<and>
     (\<forall>channels. re_arrivals env host (Channels channels) = map Some (filter (\<lambda>m. rm_channel m \<in> set channels) bus))"

definition on_channels :: "string list \<Rightarrow> redis_msg list \<Rightarrow> string list" where
  "on_channels channels bus = map (the \<circ> rm_payload) (filter (\<lambda>m. rm_channel m \<in> set channels) bus)"

lemma sub_multiple_receives:
  assumes "redis_works env host bus" and "\<forall>m\<in>set bus. rm_channel m \<in> set channels \<longrightarrow> rm_payload m \<noteq> None"
  shows "\<exists>msgs. sub_multiple env host channels = Some (msgs, True) \<and> map snd msgs = on_channels channels bus"
  using assms sub_loop_chan_texts [of "filter (\<lambda>m. rm_channel m \<in> set channels) bus" "[]"]
  by (auto simp: sub_multiple_def get_client_def redis_works_def subscribe_all_ok on_channels_def)

lemma sub_channel_receives:
  assumes "redis_works env host bus" and "\<forall>m\<in>set bus. rm_channel m = channel \<longrightarrow> rm_payload m \<noteq> None"
  shows "sub_channel env host channel = Some (on_channels [channel] bus, True)"
  using assms sub_loop_texts [of "filter (\<lambda>m. rm_channel m \<in> set [channel]) bus" "[]"]
  by (auto simp: sub_channel_def get_pubsub_def get_client_def redis_works_def on_channels_def)


section \<open>An instance over Redis\<close>

text \<open>Redis and serde as an instance is configured to use them.\<close>

record 'e wire =
  wi_redis :: redis_env
  wi_host :: string
  wi_control :: string
  wi_responses :: string
  wi_command :: "wrapped_command \<Rightarrow> 'e + string"
  wi_read_command :: "string \<Rightarrow> 'e + wrapped_command"
  wi_response :: "wrapped_response \<Rightarrow> 'e + string"
  wi_read_response :: "string \<Rightarrow> 'e + wrapped_response"

definition ok_of :: "'e + 'a \<Rightarrow> 'a option" where
  "ok_of r = (case r of Inl err \<Rightarrow> None | Inr x \<Rightarrow> Some x)"

text \<open>Publishing the responses unwraps both their text and the publication.\<close>

fun publish_responses :: "'e wire \<Rightarrow> string \<Rightarrow> wrapped_response list \<Rightarrow> redis_msg list \<Rightarrow> redis_msg list run" where
  "publish_responses w client [] bus = ret bus"
| "publish_responses w client (res # out) bus =
     (case wrapped_response_to_string (wi_response w) res of
        Inl err \<Rightarrow> panic
      | Inr ser \<Rightarrow> do {
          bus' \<leftarrow> publish (wi_redis w) client (wi_responses w) ser bus;
          publish_responses w client out bus'
        })"

text \<open>
  The whole of \<open>PlatformInstance::listen\<close>: the subscriptions, the announcement, whose failure
  is ignored, and the loop. The result is what has been published, and the state.
\<close>

definition instance_listen ::
  "'e wire \<Rightarrow> string \<Rightarrow> uuid \<Rightarrow> uuid \<Rightarrow> ('s \<Rightarrow> command \<Rightarrow> response option \<times> 's) \<Rightarrow> 's \<Rightarrow> (redis_msg list \<times> 's) run" where
  "instance_listen w own_channel drawn us handle s = do {
     (msgs, running) \<leftarrow> sub_multiple (wi_redis w) (wi_host w) [wi_control w, own_channel];
     client \<leftarrow> get_client (wi_redis w) (wi_host w);
     announced \<leftarrow> send_command (wi_command w) (wi_redis w) (from_command drawn (listen_ready us)) client ''control'' [];
     let (out, s') = listen (\<lambda>raw. ok_of (wrapped_command_from_str (wi_read_command w) raw)) handle (map snd msgs) s;
     bus \<leftarrow> publish_responses w client out (case announced of Inl err \<Rightarrow> [] | Inr bus \<Rightarrow> bus);
     ret (bus, s')
   }"

text \<open>What the thread behind a command server sends to one listener, with a fixed list of listeners.\<close>

definition heard :: "'e wire \<Rightarrow> alert_list \<Rightarrow> chan \<Rightarrow> response list run" where
  "heard w al c = do {
     (raws, running) \<leftarrow> sub_channel (wi_redis w) (wi_host w) (wi_responses w);
     let (sent, alive) = response_thread (parse_wrapped_response (ok_of \<circ> wi_read_response w)) al raws;
     ret (map snd (filter (\<lambda>m. fst m = c) sent))
   }"

lemma ok_of_dropped [simp]: "ok_of (drop_error r) = ok_of r"
  by (simp add: ok_of_def drop_error_def split: sum.split)

lemma ok_of_Inr [simp]: "ok_of (Inr x) = Some x"
  by (simp add: ok_of_def)

text \<open>The loop on a prefix of readable messages.\<close>

lemma listen_append:
  assumes "\<forall>raw\<in>set xs. from_json raw \<noteq> None"
  shows "listen from_json handle (xs @ ys) s =
    (fst (listen from_json handle xs s) @ fst (listen from_json handle ys (snd (listen from_json handle xs s))),
     snd (listen from_json handle ys (snd (listen from_json handle xs s))))"
  using assms by (induction xs arbitrary: s) (auto simp: split_beta)

lemma listen_other_uuid:
  assumes "\<forall>raw\<in>set xs. \<forall>c. from_json raw = Some c \<longrightarrow> wc_uuid c \<noteq> u"
  shows "filter (\<lambda>a. wr_uuid a = u) (fst (listen from_json handle xs s)) = []"
  using assms listen_answers [of _ from_json handle xs s] by (fastforce simp: filter_empty_conv)

lemma listen_answers_once:
  assumes before: "\<forall>raw\<in>set xs. \<exists>c. from_json raw = Some c \<and> wc_uuid c \<noteq> u"
    and after: "\<forall>raw\<in>set ys. \<exists>c. from_json raw = Some c \<and> wc_uuid c \<noteq> u"
    and cmd: "from_json raw = Some (command_wrap u cmd)"
    and handled: "handle (snd (listen from_json handle xs s)) cmd = (Some r, s1)"
  shows "filter (\<lambda>a. wr_uuid a = u) (fst (listen from_json handle (xs @ raw # ys) s)) = [response_wrap r u]"
proof -
  have "filter (\<lambda>a. wr_uuid a = u) (fst (listen from_json handle xs s)) = []" for s
    using before by (intro listen_other_uuid) fastforce
  moreover have "filter (\<lambda>a. wr_uuid a = u) (fst (listen from_json handle ys s)) = []" for s
    using after by (intro listen_other_uuid) fastforce
  moreover have "\<forall>raw\<in>set xs. from_json raw \<noteq> None" using before by auto
  ultimately show ?thesis
    using cmd handled by (simp add: listen_append split_beta command_wrap_def response_wrap_def)
qed

lemma publish_responses_result:
  assumes "\<And>msg. re_publishes (wi_redis w) client (wi_responses w) msg" and "\<And>a. wi_response w a = Inr (text_of a)"
  shows "publish_responses w client out bus =
    Some (bus @ map (\<lambda>a. \<lparr>rm_channel = wi_responses w, rm_payload = Some (text_of a)\<rparr>) out)"
  using assms
  by (induction out arbitrary: bus) (simp_all add: publish_def wrapped_response_to_string_def drop_error_def)


section \<open>A command and its answer\<close>

text \<open>The response a message of the bus carries, and the responses under a uuid.\<close>

definition answer_of :: "'e wire \<Rightarrow> redis_msg \<Rightarrow> wrapped_response option" where
  "answer_of w m =
     (if rm_channel m = wi_responses w
      then (case rm_payload m of None \<Rightarrow> None | Some raw \<Rightarrow> ok_of (wi_read_response w raw))
      else None)"

definition answers :: "'e wire \<Rightarrow> uuid \<Rightarrow> redis_msg list \<Rightarrow> wrapped_response list" where
  "answers w u bus = filter (\<lambda>a. wr_uuid a = u) (List.map_filter (answer_of w) bus)"

definition readable_responses :: "'e wire \<Rightarrow> redis_msg list \<Rightarrow> bool" where
  "readable_responses w bus \<longleftrightarrow> (\<forall>m\<in>set bus. rm_channel m = wi_responses w \<longrightarrow> answer_of w m \<noteq> None)"

lemma answers_simps [simp]:
  "answers w u [] = []"
  "answers w u (xs @ ys) = answers w u xs @ answers w u ys"
  by (simp_all add: answers_def List.map_filter_def)

lemma parsed_responses:
  assumes "readable_responses w bus"
  shows "map (\<lambda>raw. ok_of (wi_read_response w raw)) (on_channels [wi_responses w] bus) =
    map Some (List.map_filter (answer_of w) bus)"
  using assms
  by (induction bus) (auto simp: on_channels_def readable_responses_def answer_of_def List.map_filter_simps
      split: option.splits)

lemma heard_result:
  assumes "redis_works (wi_redis w) (wi_host w) bus" and "readable_responses w bus"
  shows "heard w al c =
    Some [snd m. Some m \<leftarrow> map (\<lambda>res. send_messages res al) (List.map_filter (answer_of w) bus), fst m = c]"
proof -
  let ?raws = "on_channels [wi_responses w] bus"
  let ?parse = "parse_wrapped_response (ok_of \<circ> wi_read_response w)"
  have "\<forall>m\<in>set bus. rm_channel m = wi_responses w \<longrightarrow> rm_payload m \<noteq> None"
    using assms(2) by (auto simp: readable_responses_def answer_of_def split: option.splits)
  note sub = sub_channel_receives [OF assms(1) this]
  have parse: "?parse = (\<lambda>raw. ok_of (wi_read_response w raw))"
    by (rule ext) (simp add: parse_wrapped_response_def)
  have p: "map ?parse ?raws = map Some (List.map_filter (answer_of w) bus)"
    using parsed_responses [OF assms(2)] by (simp add: parse)
  have "?parse raw \<noteq> None" if "raw \<in> set ?raws" for raw
    using arg_cong [OF p, of set] that by auto
  then have "\<forall>raw\<in>set ?raws. ?parse raw \<noteq> None" by blast
  note thread = response_thread_delivers [OF this, of al]
  have m: "List.map_filter (answer_of w) bus = map (\<lambda>raw. the (?parse raw)) ?raws"
    using arg_cong [OF p, of "map the"] by (simp add: comp_def)
  have "map (\<lambda>raw. send_messages (the (?parse raw)) al) ?raws =
      map (\<lambda>res. send_messages res al) (List.map_filter (answer_of w) bus)"
    unfolding m by (simp add: comp_def)
  with thread have t: "response_thread ?parse al ?raws =
      ([m. Some m \<leftarrow> map (\<lambda>res. send_messages res al) (List.map_filter (answer_of w) bus)], True)"
    by simp
  have flat: "map snd (filter (\<lambda>m. fst m = c) [m. Some m \<leftarrow> xs]) = [snd m. Some m \<leftarrow> xs, fst m = c]"
    for xs :: "(chan \<times> response) option list"
    by (induction xs) (auto split: option.split)
  then show ?thesis by (simp add: heard_def sub t flat del: map_map)
qed

lemma heard_registered:
  assumes "redis_works (wi_redis w) (wi_host w) bus" and "readable_responses w bus"
    and "u \<notin> fst ` set al" and "c \<notin> snd ` set al"
  shows "heard w (al_register u c al) c = Some (map wr_res (answers w u bus))"
  using heard_result [OF assms(1,2), of "al_register u c al" c]
    arg_cong [OF broadcast_result [OF assms(3,4), of Cmd_Ping "[]" "List.map_filter (answer_of w) bus"], of fst]
  by (simp add: answers_def broadcast_def Let_def)

lemma heard_unregistered:
  assumes "redis_works (wi_redis w) (wi_host w) bus" and "readable_responses w bus" and "c \<notin> snd ` set al"
  shows "heard w al c = Some []"
proof -
  have "[snd m. Some m \<leftarrow> map (\<lambda>res. send_messages res al) rs, fst m = c] = []" for rs
    using assms(3) send_messages_chan [of _ al] by (induction rs) (fastforce split: option.split)+
  then show ?thesis using heard_result [OF assms(1,2)] by simp
qed


text \<open>What an instance publishes: its announcement, and its answers in their order.\<close>

definition response_msg :: "'e wire \<Rightarrow> (wrapped_response \<Rightarrow> string) \<Rightarrow> wrapped_response \<Rightarrow> redis_msg" where
  "response_msg w text_of a = \<lparr>rm_channel = wi_responses w, rm_payload = Some (text_of a)\<rparr>"

lemma instance_listen_publishes:
  assumes works: "redis_works (wi_redis w) (wi_host w) bus"
    and publishes: "\<forall>client ch msg. re_publishes (wi_redis w) client ch msg"
    and serde: "\<forall>a. wi_response w a = Inr (text_of a)"
    and texts: "\<forall>m\<in>set bus. rm_channel m \<in> {wi_control w, own} \<longrightarrow> rm_payload m \<noteq> None"
  shows "\<exists>first s'. (\<forall>m\<in>set first. rm_channel m = ''control'') \<and>
    instance_listen w own drawn us handle s = Some (first @ map (response_msg w text_of)
      (fst (listen (ok_of \<circ> wi_read_command w) handle (on_channels [wi_control w, own] bus) s)), s')"
proof -
  let ?send = "send_command (wi_command w) (wi_redis w) (from_command drawn (listen_ready us)) (wi_host w) ''control'' []"
  have read: "(\<lambda>raw. ok_of (wrapped_command_from_str (wi_read_command w) raw)) = ok_of \<circ> wi_read_command w"
    by (rule ext) (simp add: wrapped_command_from_str_def)
  obtain msgs where sub: "sub_multiple (wi_redis w) (wi_host w) [wi_control w, own] = Some (msgs, True)"
    "map snd msgs = on_channels [wi_control w, own] bus"
    using sub_multiple_receives [OF works, of "[wi_control w, own]"] texts by auto
  obtain announced where sent: "?send = Some announced"
    and control: "\<forall>m\<in>set (case announced of Inl err \<Rightarrow> [] | Inr bus \<Rightarrow> bus). rm_channel m = ''control''"
    using publishes by (cases "wi_command w (from_command drawn (listen_ready us))")
      (auto simp: send_command_def publish_def)
  have "publish_responses w (wi_host w) out first = Some (first @ map (response_msg w text_of) out)" for out first
    using publish_responses_result [of w "wi_host w" text_of out first] publishes serde
    by (simp add: response_msg_def)
  with sent control sub works show ?thesis
    by (auto simp: instance_listen_def read get_client_def redis_works_def split_beta)
qed

lemma answers_published:
  assumes once: "filter (\<lambda>a. wr_uuid a = u) out = [response_wrap r u]"
    and control: "\<forall>m\<in>set first. rm_channel m = ''control''" "wi_responses w \<noteq> ''control''"
    and serde: "wi_read_response w (text_of (response_wrap r u)) = Inr (response_wrap r u)"
      "\<forall>a b. wr_uuid a \<noteq> u \<and> wi_read_response w (text_of a) = Inr b \<longrightarrow> wr_uuid b \<noteq> u"
  shows "answers w u (first @ map (response_msg w text_of) out) = [response_wrap r u]"
proof -
  have "List.map_filter (answer_of w) first = []"
    using control by (auto simp: List.map_filter_def answer_of_def filter_empty_conv)
  moreover have "\<forall>a\<in>set out. wr_uuid a = u \<longrightarrow> a = response_wrap r u"
    using arg_cong [OF once, of set] by auto
  then have "filter (\<lambda>a. wr_uuid a = u) (List.map_filter (answer_of w) (map (response_msg w text_of) out)) =
      filter (\<lambda>a. wr_uuid a = u) out"
    using serde
    by (induction out) (auto simp: response_msg_def answer_of_def List.map_filter_simps ok_of_def split: sum.splits)
  ultimately show ?thesis
    using once by (simp add: answers_def List.map_filter_def)
qed

text \<open>C12. A command travels over Redis and back. An instance subscribed to the channel a command is
  published on executes it, after the commands published before it, and publishes its
  answer; if it alone answers under the uuid of the command, the sender hears exactly this
  answer when it had registered its listener by the time the answer arrives, and nothing
  when it had not. The code publishes a command before it registers the listener, so the
  second case is a race it can lose; the command is then sent and executed again.\<close>

theorem command_answered_over_redis:
  assumes works: "redis_works (wi_redis w) (wi_host w) bus"
    and publishes: "\<forall>client ch msg. re_publishes (wi_redis w) client ch msg"
    and serde: "\<forall>a. wi_response w a = Inr (text_of a)" "wi_read_response w (text_of (response_wrap r u)) = Inr (response_wrap r u)"
      "\<forall>a b. wr_uuid a \<noteq> u \<and> wi_read_response w (text_of a) = Inr b \<longrightarrow> wr_uuid b \<noteq> u"
      "wi_command w (command_wrap u cmd) = Inr raw" "wi_read_command w raw = Inr (command_wrap u cmd)"
    and bus: "bus = before @ \<lparr>rm_channel = ch, rm_payload = Some raw\<rparr> # after"
    and channels: "ch \<in> {wi_control w, own}" "wi_responses w \<noteq> ''control''"
    and readable: "\<forall>m\<in>set before \<union> set after. rm_channel m \<in> {wi_control w, own} \<longrightarrow>
      (\<exists>raw c. rm_payload m = Some raw \<and> wi_read_command w raw = Inr c \<and> wc_uuid c \<noteq> u)"
    and readable': "readable_responses w bus"
    and handled: "handle (snd (listen (ok_of \<circ> wi_read_command w) handle (on_channels [wi_control w, own] before) s)) cmd =
      (Some r, s1)"
    and fresh: "u \<notin> fst ` set al" "c \<notin> snd ` set al"
  shows "\<exists>published s'. instance_listen w own drawn us handle s = Some (published, s') \<and>
    answers w u published = [response_wrap r u] \<and>
    (answers w u bus = answers w u published \<longrightarrow>
       heard w (al_register u c al) c = Some [r] \<and> heard w al c = Some [])"
proof -
  let ?chs = "[wi_control w, own]"
  let ?out = "fst (listen (ok_of \<circ> wi_read_command w) handle (on_channels ?chs bus) s)"
  have split: "on_channels ?chs bus = on_channels ?chs before @ raw # on_channels ?chs after"
    using channels(1) by (simp add: bus on_channels_def)
  have texts: "\<forall>raw\<in>set (on_channels ?chs ms). \<exists>c. (ok_of \<circ> wi_read_command w) raw = Some c \<and> wc_uuid c \<noteq> u"
    if "set ms \<subseteq> set before \<union> set after" for ms
    using readable that by (fastforce simp: on_channels_def)
  have once: "filter (\<lambda>a. wr_uuid a = u) ?out = [response_wrap r u]"
    unfolding split by (rule listen_answers_once) (use texts handled serde(5) in auto)
  have "\<forall>m\<in>set bus. rm_channel m \<in> {wi_control w, own} \<longrightarrow> rm_payload m \<noteq> None"
    using readable by (fastforce simp: bus)
  from instance_listen_publishes [OF works publishes serde(1) this, of drawn us handle s] obtain first s'
    where control: "\<forall>m\<in>set first. rm_channel m = ''control''"
      and listening: "instance_listen w own drawn us handle s = Some (first @ map (response_msg w text_of) ?out, s')"
    by blast
  note ans = answers_published [OF once control channels(2) serde(2,3)]
  have "heard w (al_register u c al) c = Some [r] \<and> heard w al c = Some []"
    if "answers w u bus = answers w u (first @ map (response_msg w text_of) ?out)"
    using heard_registered [OF works readable' fresh] heard_unregistered [OF works readable' fresh(2)] that [unfolded ans]
    by (simp add: response_wrap_def)
  with listening ans show ?thesis by blast
qed


text \<open>The example: one ping and its answer; of a serializer only these two texts are known.\<close>

definition ex_bus :: "redis_msg list" where
  "ex_bus = [\<lparr>rm_channel = ''own'', rm_payload = Some ''ping''\<rparr>, \<lparr>rm_channel = ''responses'', rm_payload = Some ''ok''\<rparr>]"

definition ex_wire :: "unit wire" where
  "ex_wire = \<lparr>wi_redis = \<lparr>re_opens = (\<lambda>h. True), re_connects = (\<lambda>h. True), re_subscribes = (\<lambda>h sub. True),
       re_publishes = (\<lambda>h ch msg. True), re_arrivals = (\<lambda>h sub. case sub of
         Channels chs \<Rightarrow> map Some (filter (\<lambda>m. rm_channel m \<in> set chs) ex_bus) | Pattern p \<Rightarrow> [])\<rparr>,
     wi_host = ''redis://localhost:6379/'', wi_control = ''control'', wi_responses = ''responses'',
     wi_command = (\<lambda>c. Inr (if c = command_wrap 7 Cmd_Ping then ''ping'' else ''other'')),
     wi_read_command = (\<lambda>raw. if raw = ''ping'' then Inr (command_wrap 7 Cmd_Ping) else Inl ()),
     wi_response = (\<lambda>a. Inr (if a = response_wrap Res_Ok 7 then ''ok'' else ''other'')),
     wi_read_response = (\<lambda>raw. if raw = ''ok'' then Inr (response_wrap Res_Ok 7) else Inl ())\<rparr>"

theorem command_answered_over_redis_witness:
  "heard ex_wire (al_register 7 1 []) 1 = Some [Res_Ok] \<and> heard ex_wire [] 1 = Some []"
proof -
  let ?text = "\<lambda>a. if a = response_wrap Res_Ok 7 then ''ok'' else ''other''"
  have works: "redis_works (wi_redis ex_wire) (wi_host ex_wire) ex_bus"
    by (simp add: redis_works_def ex_wire_def)
  have serde: "\<forall>a. wi_response ex_wire a = Inr (?text a)"
    "wi_read_response ex_wire (?text (response_wrap Res_Ok 7)) = Inr (response_wrap Res_Ok 7)"
    "\<forall>a b. wr_uuid a \<noteq> 7 \<and> wi_read_response ex_wire (?text a) = Inr b \<longrightarrow> wr_uuid b \<noteq> 7"
    by (auto simp: ex_wire_def response_wrap_def split: if_splits)
  have cmd: "wi_command ex_wire (command_wrap 7 Cmd_Ping) = Inr ''ping''"
    "wi_read_command ex_wire ''ping'' = Inr (command_wrap 7 Cmd_Ping)"
    by (simp_all add: ex_wire_def)
  have bus: "ex_bus = [] @ \<lparr>rm_channel = ''own'', rm_payload = Some ''ping''\<rparr> #
      [\<lparr>rm_channel = ''responses'', rm_payload = Some ''ok''\<rparr>]"
    by (simp add: ex_bus_def)
  have "readable_responses ex_wire ex_bus"
    by (simp add: readable_responses_def ex_bus_def answer_of_def ex_wire_def)
  from command_answered_over_redis [OF works _ serde cmd bus _ _ _ this, of "''own''" "\<lambda>s c. (Some Res_Ok, s)" "()" "()" "[]" 1 0 0]
  obtain published s' where p: "answers ex_wire 7 published = [response_wrap Res_Ok 7]"
    "answers ex_wire 7 ex_bus = answers ex_wire 7 published \<longrightarrow>
       heard ex_wire (al_register 7 1 []) 1 = Some [Res_Ok] \<and> heard ex_wire [] 1 = Some []"
    by (auto simp: ex_wire_def)
  moreover have "answers ex_wire 7 ex_bus = [response_wrap Res_Ok 7]"
    by (simp add: answers_def ex_bus_def List.map_filter_simps answer_of_def ex_wire_def response_wrap_def)
  ultimately show ?thesis by simp
qed

end
