(* ===== verification/Tg_Dialogs.thy ===== *)
theory Tg_Dialogs
  imports Tg_Configurator
begin

text \<open>
  The dialogs of the configurator (\<open>configurator/src/main.rs\<close> and \<open>directory.rs\<close>) as a state
  machine: a stack of layers, of which the top one receives the input, the settings all
  closures share, and the files written so far. A layer keeps the contents of its fields;
  layout, colours and the comment shown for a selected row are left out. Pressing a button
  or choosing a page a layer does not offer changes nothing. Looking for binaries and
  directories are parameters, as in the straight course \<open>first_configuration\<close>, which the
  dialogs are shown to follow.
\<close>

section \<open>Layers\<close>

datatype layer =
    Welcome
  | Node_missing
  | Boost
  | Redis_config bool
  | Redis_missing
  | Redis_port string
  | Redis_remote view
  | Postgres_config bool
  | Postgres_missing
  | Postgres_remote view
  | Postgres_local view
  | Data_directory view
  | Popup string
  | Fxcm_config view
  | Config_done
  | Directory view
  | Save_dialog nat nat bool
  | Regenerated

text \<open>The forms: the label, the id and the first content of each field.\<close>

type_synonym form = "(string \<times> string \<times> string) list"

definition redis_remote_form :: form where
  "redis_remote_form = [(''Redis Host'', ''redis_host'', []), (''Redis Port'', ''redis_port'', ''6379'')]"

definition postgres_local_form :: form where
  "postgres_local_form = [(''Postgres User'', ''postgres_user'', []),
     (''Postgres Password'', ''postgres_password'', []), (''Postgres Port'', ''postgres_port'', ''5432''),
     (''Postgres Database'', ''postgres_db'', [])]"

definition postgres_remote_form :: form where
  "postgres_remote_form = (''Postgres Host'', ''postgres_host'', []) # postgres_local_form"

definition data_dir_form :: form where
  "data_dir_form = [(''Data Directory'', ''data_directory'', ''/var/tickgrinder_data/'')]"

definition fxcm_form :: form where
  "fxcm_form = [(''Demo Account Username'', ''fxcm_username'', ''D000000000000''),
     (''Demo Account Password'', ''fxcm_password'', ''1234'')]"

definition form_view :: "form \<Rightarrow> view" where
  "form_view f = map_of (map snd f)"

text \<open>What the user reads on a layer, and its buttons.\<close>

definition two_lines :: string where
  "two_lines = nl @ nl"

fun layer_text :: "layer \<Rightarrow> string" where
  "layer_text Welcome =
     ''Welcome to the TickGrinder Algorithmic Trading Platform!'' @ two_lines @
     ''This tool will set up the environment for the trading platform.  It will walk you through the process of '' @
     ''installing all prerequisite software and initializing all necessary configuration settings for the platform's '' @
     ''modules.''"
| "layer_text Node_missing =
     ''NodeJS is required in order to run the platform's Management+Monitoring (MM) Web GUI.'' @ two_lines @
     ''Please install NodeJS and add the `node` binary to the system path before installing the platform.''"
| "layer_text Boost =
     ''From what I can see, libboost is installed on this system.  Boost is required for this platform's C++ '' @
     ''FFI components.'' @ two_lines @
     ''If it's true that you have it installed (`sudo apt-get install libboost-all-dev`) then '' @
     ''you can proceed with the installation.  If not, please install it before continuing.''"
| "layer_text (Redis_config installed) =
     ''The first thing that needs to be configured is Redis.  Redis PubSub is used as a messaging service '' @
     ''that allows for communication between the platform's different modules.  It is recommended that you '' @
     ''use a local instance of Redis since it's easy to create a security vulnerability if it is not properly '' @
     ''configured.'' @ two_lines @
     (if installed
      then ''I detected that you currently have Redis installed.  To use this local Redis install for the platform, '' @
        ''select the '' @ quoted ''Local'' @ '' option below.''
      else ''I was unable to detect a local Redis installation.  If Redis is currently installed and you '' @
        ''want to use a local installation, please add the `redis-server` executable to the system PATH and '' @
        ''restart the configuration process.'')"
| "layer_text Redis_missing =
     ''You must install redis in order to use it locally.  Install Redis, add the `redis-server` '' @
     ''binary to to the system PATH, and select local again.''"
| "layer_text (Postgres_config installed) =
     ''The platform also relies on PostgreSQL to store historical Tick data, persistant platform '' @
     ''data, and other information for the platform.'' @ two_lines @
     (if \<not> installed
      then ''I was unable do detect an active PostgreSQL installation on this host.  In order to use this '' @
        ''host for the platform, you must first install PostgreSQL and add the `psql` binary to the system '' @
        ''path.  Once you've installed it, select '' @ quoted ''Local'' @ '' again. ''
      else ''I detected that you have PostgreSQL installed locally.  To configure the platform to use the '' @
        ''local PostgreSQL installation, select the '' @ quoted ''Local'' @ '' option below.'')"
| "layer_text Postgres_missing =
     ''You must install PostgreSQL in order to use it locally.  Install PostgreSQL, add the `psql` '' @
     ''binary to to the system PATH, and select local again.''"
| "layer_text (Data_directory view) =
     ''The data directory holds all persistant storage for the platform including historical price data, '' @
     ''database dumps, and platform configuration settings.  The entry below should be the absolute path of a '' @
     ''folder that exists and is writable by the user that the platform will be run as.'' @ two_lines"
| "layer_text (Popup err) = err"
| "layer_text (Fxcm_config view) =
     ''The platform has a shim to the native C++ FXCM ForexConnect API which allows for historical data '' @
     ''downloading and live price streaming of real FXCM data.  In order to use this broker, you must make a '' @
     ''FXCM Demo account.  You can do this for free in a couple seconds (no personal details necessary) here:'' @ two_lines @
     ''https://www.fxcm.com/forex-trading-demo/'' @ two_lines @
     ''Once you have credentials, you can enter them here.  ONLY USE DEMO CREDENTIALS, NOT REAL ACCOUNT '' @
     ''CREDENTIALS; the API isn't yet ready for live trading.'' @ two_lines @
     ''If you don't want to use the FXCM API, you can just leave these values at their defaults and select '' @
     ''continue to proceed with the rest of the configuration process.'' @ two_lines"
| "layer_text Config_done =
     ''The trading platform has been successfully configured.  Run `run.sh` and visit `localhost:8002` in '' @
     ''your web browser to start using the platform.'' @ two_lines @
     ''You will now be presented with the configuration directory containing all of the platform's settings.  '' @
     ''You can reach that menu at any time by running `make configure` in the project's root directory.  If you '' @
     ''want to reset all the settings and start the configuration process from scratch, just delete the '' @
     ''`settings.json` file in the `configurator` directory and run `make config` again from the project root.''"
| "layer_text (Save_dialog last_ix new_ix quit) =
     ''You have unsaved changes!  Do you want to preserve them?''"
| "layer_text Regenerated =
     ''Settings files have been regenerated.  However, the platform must be rebuilt (`make`) '' @
     ''in order for any changes to be reflected.'' @ two_lines @
     ''Edit `settings.json` in the `configurator` directory and run `make config` again to change settings.'' @ nl @
     ''Delete `settings.json` and re-run configurator to start from scratch.''"
| "layer_text _ = []"

fun layer_buttons :: "layer \<Rightarrow> string list" where
  "layer_buttons Welcome = [''Continue'']"
| "layer_buttons Boost = [''Proceed'', ''Exit'']"
| "layer_buttons (Redis_config installed) = [''Local'', ''Remote'', ''Exit'']"
| "layer_buttons (Redis_port port) = []"
| "layer_buttons (Postgres_config installed) = [''Local'', ''Remote'', ''Exit'']"
| "layer_buttons (Directory view) = [''Exit'']"
| "layer_buttons (Save_dialog last_ix new_ix quit) = [''Save'', ''Discard'']"
| "layer_buttons _ = [''Ok'']"

text \<open>The fields of a layer, and typing into one of them.\<close>

fun layer_fields :: "layer \<Rightarrow> view" where
  "layer_fields (Redis_remote view) = view"
| "layer_fields (Postgres_remote view) = view"
| "layer_fields (Postgres_local view) = view"
| "layer_fields (Data_directory view) = view"
| "layer_fields (Fxcm_config view) = view"
| "layer_fields (Directory view) = view"
| "layer_fields _ = Map.empty"

definition typed :: "string \<Rightarrow> string \<Rightarrow> view \<Rightarrow> view" where
  "typed i text view = (if view i = None then view else view(i \<mapsto> text))"

fun type_into :: "string \<Rightarrow> string \<Rightarrow> layer \<Rightarrow> layer" where
  "type_into i text (Redis_port port) = Redis_port text"
| "type_into i text (Redis_remote view) = Redis_remote (typed i text view)"
| "type_into i text (Postgres_remote view) = Postgres_remote (typed i text view)"
| "type_into i text (Postgres_local view) = Postgres_local (typed i text view)"
| "type_into i text (Data_directory view) = Data_directory (typed i text view)"
| "type_into i text (Fxcm_config view) = Fxcm_config (typed i text view)"
| "type_into i text (Directory view) = Directory (typed i text view)"
| "type_into i text l = l"

section \<open>The dialogs\<close>

record ui =
  ui_layers :: "layer list"
  ui_settings :: settings
  ui_files :: "(string \<times> string \<times> string) list"
  ui_quit :: bool

record ui_env =
  ue_which :: "string \<Rightarrow> string"
  ue_exists :: "string \<Rightarrow> bool"

definition add_layer :: "layer \<Rightarrow> ui \<Rightarrow> ui" where
  "add_layer l ui = ui\<lparr>ui_layers := l # ui_layers ui\<rparr>"

definition pop_layer :: "ui \<Rightarrow> ui" where
  "pop_layer ui = ui\<lparr>ui_layers := tl (ui_layers ui)\<rparr>"

definition change_settings :: "(settings \<Rightarrow> settings) \<Rightarrow> ui \<Rightarrow> ui" where
  "change_settings f ui = ui\<lparr>ui_settings := f (ui_settings ui)\<rparr>"

definition quit_ui :: "ui \<Rightarrow> ui" where
  "quit_ui ui = ui\<lparr>ui_quit := True\<rparr>"

text \<open>The content of the field with the id, on whatever layer it is.\<close>

fun field_in :: "layer list \<Rightarrow> view" where
  "field_in [] i = None"
| "field_in (l # ls) i = (case layer_fields l i of Some text \<Rightarrow> Some text | None \<Rightarrow> field_in ls i)"

definition get_by_id :: "ui \<Rightarrow> view" where
  "get_by_id ui = field_in (ui_layers ui)"

definition error_popup :: "string \<Rightarrow> ui \<Rightarrow> ui" where
  "error_popup err_str = add_layer (Popup err_str)"

definition boost_dialog :: "ui \<Rightarrow> ui" where
  "boost_dialog ui = add_layer Boost (pop_layer ui)"

definition welcome_continue :: "ui_env \<Rightarrow> ui \<Rightarrow> ui" where
  "welcome_continue e ui =
     (let ui = (if \<not> is_installed (ue_which e) ''node'' then add_layer Node_missing ui else ui);
          ui = change_settings (settings_set ''node_binary_path'' (ue_which e ''node'')) ui
      in boost_dialog ui)"

definition redis_dialog :: "ui_env \<Rightarrow> ui \<Rightarrow> ui" where
  "redis_dialog e ui = add_layer (Redis_config (is_installed (ue_which e) ''redis-server'')) (pop_layer ui)"

definition redis_local_dialog :: "ui_env \<Rightarrow> ui \<Rightarrow> ui" where
  "redis_local_dialog e ui =
     (if \<not> is_installed (ue_which e) ''redis-server'' then add_layer Redis_missing ui
      else add_layer (Redis_port ''6379'') (pop_layer ui))"

definition redis_remote_dialog :: "ui \<Rightarrow> ui" where
  "redis_remote_dialog ui = add_layer (Redis_remote (form_view redis_remote_form)) (pop_layer ui)"

definition postgres_dialog :: "ui_env \<Rightarrow> ui \<Rightarrow> ui" where
  "postgres_dialog e ui = add_layer (Postgres_config (is_installed (ue_which e) ''psql'')) (pop_layer ui)"

text \<open>The closures behind the two forms of Redis.\<close>

definition redis_port_submit :: "ui_env \<Rightarrow> string \<Rightarrow> ui \<Rightarrow> ui" where
  "redis_port_submit e port ui = postgres_dialog e (change_settings (redis_local (ue_which e) port) ui)"

definition redis_remote_ok :: "ui_env \<Rightarrow> ui \<Rightarrow> ui run" where
  "redis_remote_ok e ui = do {
     s \<leftarrow> redis_remote (get_by_id ui) (ui_settings ui);
     ret (postgres_dialog e (ui\<lparr>ui_settings := s\<rparr>))
   }"

definition postgres_remote_dialog :: "ui \<Rightarrow> ui" where
  "postgres_remote_dialog ui = add_layer (Postgres_remote (form_view postgres_remote_form)) (pop_layer ui)"

text \<open>The host is set before the check whether PostgreSQL is installed, and again on \<open>Ok\<close>.\<close>

definition postgres_local_dialog :: "ui_env \<Rightarrow> ui \<Rightarrow> ui" where
  "postgres_local_dialog e ui =
     (let ui = change_settings (settings_set ''postgres_host'' ''localhost'') ui
      in if \<not> is_installed (ue_which e) ''psql'' then add_layer Postgres_missing ui
         else add_layer (Postgres_local (form_view postgres_local_form)) (pop_layer ui))"

definition data_dir_dialog :: "ui \<Rightarrow> ui" where
  "data_dir_dialog ui = add_layer (Data_directory (form_view data_dir_form)) (pop_layer ui)"

definition postgres_remote_ok :: "ui \<Rightarrow> ui" where
  "postgres_remote_ok ui = data_dir_dialog (change_settings (postgres_remote (get_by_id ui)) ui)"

definition postgres_local_ok :: "ui \<Rightarrow> ui" where
  "postgres_local_ok ui = data_dir_dialog (change_settings (postgres_local (get_by_id ui)) ui)"

definition fxcm_dialog :: "ui \<Rightarrow> ui" where
  "fxcm_dialog ui = add_layer (Fxcm_config (form_view fxcm_form)) (pop_layer ui)"

definition data_dir_ok :: "ui_env \<Rightarrow> ui \<Rightarrow> ui run" where
  "data_dir_ok e ui = do {
     r \<leftarrow> set_data_dir (ue_exists e) (get_by_id ui) (ui_settings ui);
     ret (case r of
            Inr s \<Rightarrow> fxcm_dialog (ui\<lparr>ui_settings := s\<rparr>)
          | Inl err \<Rightarrow> error_popup err ui)
   }"

text \<open>The files are overwritten; the list keeps what was written, the oldest first.\<close>

definition write_files :: "ui \<Rightarrow> ui run" where
  "write_files ui = do {
     files \<leftarrow> write_settings (ui_settings ui);
     ret (ui\<lparr>ui_files := ui_files ui @ [files]\<rparr>)
   }"

definition initial_config_done :: "ui \<Rightarrow> ui run" where
  "initial_config_done ui = do {
     ui \<leftarrow> write_files (pop_layer ui);
     ret (add_layer Config_done ui)
   }"

definition fxcm_ok :: "ui \<Rightarrow> ui run" where
  "fxcm_ok ui = do {
     s \<leftarrow> fxcm_config (get_by_id ui) (ui_settings ui);
     initial_config_done (ui\<lparr>ui_settings := s\<rparr>)
   }"

section \<open>The directory\<close>

fun set_directory :: "view \<Rightarrow> layer \<Rightarrow> layer" where
  "set_directory view (Directory old) = Directory view"
| "set_directory view l = l"

fun is_directory :: "layer \<Rightarrow> bool" where
  "is_directory (Directory view) = True"
| "is_directory l = False"

text \<open>Without a directory among the layers, there is no list to fill: a panic.\<close>

definition switch_page :: "settings_page \<Rightarrow> ui \<Rightarrow> ui run" where
  "switch_page new_page ui =
     (if list_ex is_directory (ui_layers ui) then do {
        (view, s) \<leftarrow> switch_categories new_page (ui_settings ui);
        ret (ui\<lparr>ui_layers := map (set_directory view) (ui_layers ui), ui_settings := s\<rparr>)
      }
      else panic)"

definition open_directory :: "ui \<Rightarrow> ui run" where
  "open_directory ui = do {
     page \<leftarrow> vec_get page_list 0;
     let s = settings_set ''last-page'' ''0'' (ui_settings ui);
     ret (add_layer (Directory (populate_list_view page s)) (ui\<lparr>ui_settings := s\<rparr>))
   }"

text \<open>With the event loop running, the directory is switched to its first page at once.\<close>

definition show_directory :: "ui \<Rightarrow> ui run" where
  "show_directory ui = do {
     ui \<leftarrow> open_directory ui;
     switch_page postgres_settings ui
   }"

definition last_page_ix :: "ui \<Rightarrow> nat run" where
  "last_page_ix ui = do {
     last \<leftarrow> settings_get (ui_settings ui) ''last-page'';
     map_option unat (parse_u64 last)
   }"

definition page_changed :: "nat \<Rightarrow> ui \<Rightarrow> bool run" where
  "page_changed ix ui = do {
     page \<leftarrow> vec_get page_list ix;
     check_changes (get_by_id ui) page (ui_settings ui)
   }"

definition choose_page :: "settings_page \<Rightarrow> ui \<Rightarrow> ui run" where
  "choose_page new_page ui = do {
     last_ix \<leftarrow> last_page_ix ui;
     changed \<leftarrow> page_changed last_ix ui;
     if changed then do {
       ix \<leftarrow> get_page_index (sp_name new_page);
       ret (add_layer (Save_dialog last_ix ix False) ui)
     }
     else switch_page new_page ui
   }"

definition directory_exit :: "ui \<Rightarrow> ui run" where
  "directory_exit ui = do {
     ui \<leftarrow> write_files ui;
     ret (add_layer Regenerated ui)
   }"

definition exit_pressed :: "ui \<Rightarrow> ui run" where
  "exit_pressed ui = do {
     last_ix \<leftarrow> last_page_ix ui;
     changed \<leftarrow> page_changed last_ix ui;
     if changed then ret (add_layer (Save_dialog last_ix last_ix True) ui)
     else directory_exit ui
   }"

definition save_page :: "nat \<Rightarrow> ui \<Rightarrow> ui run" where
  "save_page ix ui = do {
     page \<leftarrow> vec_get page_list ix;
     (s, files) \<leftarrow> save_changes (get_by_id ui) page (ui_settings ui);
     ret (ui\<lparr>ui_settings := s, ui_files := ui_files ui @ [files]\<rparr>)
   }"

text \<open>Both buttons of the question; \<open>save\<close> is the answer.\<close>

definition save_answer :: "bool \<Rightarrow> nat \<Rightarrow> nat \<Rightarrow> bool \<Rightarrow> ui \<Rightarrow> ui run" where
  "save_answer save last_ix new_ix quit ui = do {
     ui \<leftarrow> (if save then save_page last_ix ui else ret ui);
     if quit then directory_exit ui
     else do {
       page \<leftarrow> vec_get page_list new_ix;
       ui \<leftarrow> switch_page page ui;
       ret (pop_layer ui)
     }
   }"

section \<open>Input\<close>

datatype input = Press string | Submit | Type string string | Choose settings_page

fun press :: "ui_env \<Rightarrow> string \<Rightarrow> layer \<Rightarrow> ui \<Rightarrow> ui run" where
  "press e b Welcome ui = ret (welcome_continue e ui)"
| "press e b Node_missing ui = ret (quit_ui ui)"
| "press e b Boost ui = ret (if b = ''Proceed'' then redis_dialog e ui else quit_ui ui)"
| "press e b (Redis_config installed) ui =
     ret (if b = ''Local'' then redis_local_dialog e ui
          else if b = ''Remote'' then redis_remote_dialog ui else quit_ui ui)"
| "press e b Redis_missing ui = ret (pop_layer ui)"
| "press e b (Redis_remote view) ui = redis_remote_ok e ui"
| "press e b (Postgres_config installed) ui =
     ret (if b = ''Local'' then postgres_local_dialog e ui
          else if b = ''Remote'' then postgres_remote_dialog ui else quit_ui ui)"
| "press e b Postgres_missing ui = ret (pop_layer ui)"
| "press e b (Postgres_remote view) ui = ret (postgres_remote_ok ui)"
| "press e b (Postgres_local view) ui = ret (postgres_local_ok ui)"
| "press e b (Data_directory view) ui = data_dir_ok e ui"
| "press e b (Popup err) ui = ret (pop_layer ui)"
| "press e b (Fxcm_config view) ui = fxcm_ok ui"
| "press e b Config_done ui = show_directory ui"
| "press e b (Directory view) ui = exit_pressed ui"
| "press e b (Save_dialog last_ix new_ix quit) ui = save_answer (b = ''Save'') last_ix new_ix quit ui"
| "press e b Regenerated ui = ret (quit_ui ui)"
| "press e b (Redis_port port) ui = ret ui"

definition ui_input :: "ui_env \<Rightarrow> input \<Rightarrow> ui \<Rightarrow> ui run" where
  "ui_input e inp ui =
     (case ui_layers ui of
        [] \<Rightarrow> ret ui
      | l # below \<Rightarrow>
          (if ui_quit ui then ret ui
           else case inp of
             Press b \<Rightarrow> if b \<in> set (layer_buttons l) then press e b l ui else ret ui
           | Submit \<Rightarrow> (case l of Redis_port port \<Rightarrow> ret (redis_port_submit e port ui) | _ \<Rightarrow> ret ui)
           | Type i text \<Rightarrow> ret (ui\<lparr>ui_layers := type_into i text l # below\<rparr>)
           | Choose page \<Rightarrow>
               (case l of Directory view \<Rightarrow> if page \<in> set page_list then choose_page page ui else ret ui | _ \<Rightarrow> ret ui)))"

fun ui_run :: "ui_env \<Rightarrow> input list \<Rightarrow> ui \<Rightarrow> ui run" where
  "ui_run e [] ui = ret ui"
| "ui_run e (inp # inps) ui = do { ui' \<leftarrow> ui_input e inp ui; ui_run e inps ui' }"

text \<open>
  The start: without a file of settings the first-time configuration, else the directory on
  the settings read.
\<close>

definition start_ui :: "(string \<Rightarrow> settings option) \<Rightarrow> string option \<Rightarrow> ui run" where
  "start_ui from_json file =
     (case file of
        None \<Rightarrow> ret \<lparr>ui_layers = [Welcome], ui_settings = settings_new, ui_files = [], ui_quit = False\<rparr>
      | Some content \<Rightarrow> do {
          s \<leftarrow> read_json from_json (Some content);
          open_directory \<lparr>ui_layers = [], ui_settings = s, ui_files = [], ui_quit = False\<rparr>
        })"

section \<open>The course of the first configuration\<close>

text \<open>What the settings are once a step of the configuration is over.\<close>

definition redis_done :: "ui_env \<Rightarrow> settings \<Rightarrow> bool" where
  "redis_done e s \<longleftrightarrow> (\<exists>port. s = redis_local (ue_which e) port (first_time (ue_which e))) \<or>
     (\<exists>v. redis_remote v (first_time (ue_which e)) = Some s)"

definition host_tried :: "settings \<Rightarrow> settings \<Rightarrow> bool" where
  "host_tried s1 s \<longleftrightarrow> s = s1 \<or> s = settings_set ''postgres_host'' ''localhost'' s1"

definition postgres_filled :: "view \<Rightarrow> bool" where
  "postgres_filled v \<longleftrightarrow> (\<forall>i\<in>{''postgres_user'', ''postgres_password'', ''postgres_db''}. v i \<noteq> None)"

definition postgres_done :: "ui_env \<Rightarrow> settings \<Rightarrow> bool" where
  "postgres_done e s \<longleftrightarrow>
     (\<exists>s1 v. redis_done e s1 \<and> postgres_filled v \<and> (s = postgres_local v s1 \<or> s = postgres_remote v s1))"

definition data_done :: "ui_env \<Rightarrow> settings \<Rightarrow> bool" where
  "data_done e s \<longleftrightarrow> (\<exists>s2 v. postgres_done e s2 \<and> set_data_dir (ue_exists e) v s2 = Some (Inr s))"

text \<open>
  The layers and the settings before the files are written for the first time. Below the
  dialog of the step there may still be the welcome.
\<close>

definition form_filled :: "form \<Rightarrow> view \<Rightarrow> bool" where
  "form_filled f v \<longleftrightarrow> (\<forall>x\<in>set f. v (fst (snd x)) \<noteq> None)"

inductive phase :: "ui_env \<Rightarrow> layer list \<Rightarrow> settings \<Rightarrow> bool" for e where
  ph_welcome: "phase e [Welcome] settings_new"
| ph_boost: "bs \<in> {[], [Welcome]} \<Longrightarrow> phase e (Boost # bs) (first_time (ue_which e))"
| ph_redis: "bs \<in> {[], [Welcome]} \<Longrightarrow> phase e (Redis_config b # bs) (first_time (ue_which e))"
| ph_redis_missing: "bs \<in> {[], [Welcome]} \<Longrightarrow> phase e (Redis_missing # Redis_config b # bs) (first_time (ue_which e))"
| ph_redis_port: "bs \<in> {[], [Welcome]} \<Longrightarrow> phase e (Redis_port p # bs) (first_time (ue_which e))"
| ph_redis_remote: "bs \<in> {[], [Welcome]} \<Longrightarrow> form_filled redis_remote_form v \<Longrightarrow> phase e (Redis_remote v # bs) (first_time (ue_which e))"
| ph_postgres: "bs \<in> {[], [Welcome]} \<Longrightarrow> redis_done e s1 \<Longrightarrow> host_tried s1 s \<Longrightarrow> phase e (Postgres_config b # bs) s"
| ph_postgres_missing: "bs \<in> {[], [Welcome]} \<Longrightarrow> redis_done e s1 \<Longrightarrow> host_tried s1 s \<Longrightarrow>
    phase e (Postgres_missing # Postgres_config b # bs) s"
| ph_postgres_remote: "bs \<in> {[], [Welcome]} \<Longrightarrow> redis_done e s1 \<Longrightarrow> host_tried s1 s \<Longrightarrow>
    form_filled postgres_remote_form v \<Longrightarrow> phase e (Postgres_remote v # bs) s"
| ph_postgres_local: "bs \<in> {[], [Welcome]} \<Longrightarrow> redis_done e s1 \<Longrightarrow> host_tried s1 s \<Longrightarrow>
    form_filled postgres_local_form v \<Longrightarrow> phase e (Postgres_local v # bs) s"
| ph_data_dir: "bs \<in> {[], [Welcome]} \<Longrightarrow> postgres_done e s \<Longrightarrow> form_filled data_dir_form v \<Longrightarrow> phase e (Data_directory v # bs) s"
| ph_popup: "bs \<in> {[], [Welcome]} \<Longrightarrow> postgres_done e s \<Longrightarrow> form_filled data_dir_form v \<Longrightarrow> phase e (Popup err # Data_directory v # bs) s"
| ph_fxcm: "bs \<in> {[], [Welcome]} \<Longrightarrow> data_done e s \<Longrightarrow> form_filled fxcm_form v \<Longrightarrow> phase e (Fxcm_config v # bs) s"

lemma field_in_step: "bs \<in> {[], [Welcome]} \<Longrightarrow> field_in (l # bs) = layer_fields l"
  by (rule ext) (auto split: option.splits)

lemma settings_set_twice [simp]: "settings_set i y (settings_set i x s) = settings_set i y s"
  by (simp add: settings_set_def)

lemma save_settings_absorbs:
  "i \<in> set ids \<Longrightarrow> v i \<noteq> None \<Longrightarrow> save_settings v ids (settings_set i x s) = save_settings v ids s"
proof (induction ids arbitrary: s)
  case (Cons j ids)
  show ?case
  proof (cases "j = i")
    case True
    then show ?thesis using Cons.prems by auto
  next
    case False
    then have "settings_set j y (settings_set i x s) = settings_set i x (settings_set j y s)" for y
      by (simp add: settings_set_def fun_upd_twist)
    with Cons False show ?thesis by (auto split: option.splits)
  qed
qed simp

lemma host_in_ids: "''postgres_host'' \<in> set postgres_ids"
  by (simp add: postgres_ids_def)

lemma host_tried_remote:
  "host_tried s1 s \<Longrightarrow> v ''postgres_host'' \<noteq> None \<Longrightarrow> postgres_remote v s = postgres_remote v s1"
  using save_settings_absorbs [of "''postgres_host''" postgres_ids v "''localhost''" s1]
  by (auto simp: host_tried_def postgres_remote_def host_in_ids)

lemma host_tried_local: "host_tried s1 s \<Longrightarrow> postgres_local v s = postgres_local v s1"
  by (auto simp: host_tried_def postgres_local_def)

lemma host_tried_again: "host_tried s1 s \<Longrightarrow> host_tried s1 (settings_set ''postgres_host'' ''localhost'' s)"
  by (auto simp: host_tried_def)

text \<open>The file the configuration writes first is that of a straight course through the forms.\<close>

definition configured :: "ui_env \<Rightarrow> string \<times> string \<times> string \<Rightarrow> bool" where
  "configured e files \<longleftrightarrow> (\<exists>w s. first_configuration w = Some s \<and> wz_which w = ue_which e \<and>
     wz_exists w = ue_exists e \<and> postgres_filled (wz_postgres_view w) \<and> write_settings s = Some files)"

lemma data_done_course:
  assumes "data_done e s" and "fxcm_config v s = Some s'"
  shows "\<exists>w. first_configuration w = Some s' \<and> wz_which w = ue_which e \<and> wz_exists w = ue_exists e \<and>
    postgres_filled (wz_postgres_view w)"
proof -
  from assms(1) obtain s1 s2 pv dv where r: "redis_done e s1" and pv: "postgres_filled pv"
    and p: "s2 = postgres_local pv s1 \<or> s2 = postgres_remote pv s1"
    and d: "set_data_dir (ue_exists e) dv s2 = Some (Inr s)"
    unfolding data_done_def postgres_done_def by blast
  obtain here port rv where s1: "(if here then ret (redis_local (ue_which e) port (first_time (ue_which e)))
      else redis_remote rv (first_time (ue_which e))) = Some s1"
  proof (cases "\<exists>port. s1 = redis_local (ue_which e) port (first_time (ue_which e))")
    case True
    then obtain port where "s1 = redis_local (ue_which e) port (first_time (ue_which e))" ..
    then show ?thesis using that [of True port Map.empty] by simp
  next
    case False
    then obtain rv where "redis_remote rv (first_time (ue_which e)) = Some s1" using r by (auto simp: redis_done_def)
    then show ?thesis using that [of False "[]" rv] by simp
  qed
  obtain local where s2: "s2 = (if local then postgres_local pv s1 else postgres_remote pv s1)"
    using p by (metis (full_types))
  define w where "w = \<lparr>wz_which = ue_which e, wz_exists = ue_exists e, wz_redis_here = here, wz_redis_port = port,
    wz_redis_view = rv, wz_postgres_here = local, wz_postgres_view = pv, wz_data_view = dv, wz_fxcm_view = v\<rparr>"
  have w: "wz_which w = ue_which e" "wz_exists w = ue_exists e" "wz_redis_here w = here" "wz_redis_port w = port"
    "wz_redis_view w = rv" "wz_postgres_here w = local" "wz_postgres_view w = pv" "wz_data_view w = dv" "wz_fxcm_view w = v"
    by (simp_all add: w_def)
  have "first_configuration w = Some s'"
    unfolding first_configuration_def Let_def w s1 Option.bind.bind_lunit s2 [symmetric] d
    using assms(2) by simp
  then show ?thesis using pv w by blast
qed

text \<open>Each input keeps the phase, or writes the files.\<close>

definition course :: "ui_env \<Rightarrow> ui \<Rightarrow> bool" where
  "course e ui \<longleftrightarrow> (case ui_files ui of
     [] \<Rightarrow> phase e (ui_layers ui) (ui_settings ui)
   | files # later \<Rightarrow> configured e files)"

lemmas ui_defs = add_layer_def pop_layer_def change_settings_def quit_ui_def error_popup_def write_files_def
  get_by_id_def

lemmas dialog_defs = boost_dialog_def welcome_continue_def redis_dialog_def redis_local_dialog_def
  redis_remote_dialog_def postgres_dialog_def redis_port_submit_def redis_remote_ok_def
  postgres_remote_dialog_def postgres_local_dialog_def data_dir_dialog_def postgres_remote_ok_def
  postgres_local_ok_def fxcm_dialog_def data_dir_ok_def initial_config_done_def fxcm_ok_def

lemmas directory_defs = switch_page_def open_directory_def show_directory_def choose_page_def directory_exit_def
  exit_pressed_def save_page_def save_answer_def

text \<open>What has been written stays first.\<close>

lemma press_files:
  assumes "press e b l ui = Some ui'"
  shows "\<exists>fs. ui_files ui' = ui_files ui @ fs"
proof (cases l)
  case (Data_directory view)
  with assms obtain r where "ui' = (case r of Inr s \<Rightarrow> fxcm_dialog (ui\<lparr>ui_settings := s\<rparr>) | Inl err \<Rightarrow> error_popup err ui)"
    by (auto simp: data_dir_ok_def bind_Some_iff)
  then show ?thesis by (cases r) (simp_all add: fxcm_dialog_def ui_defs)
qed (use assms in \<open>auto simp: dialog_defs directory_defs ui_defs Let_def bind_Some_iff split: if_splits prod.splits\<close>)

lemma ui_input_files:
  assumes "ui_input e inp ui = Some ui'"
  shows "\<exists>fs. ui_files ui' = ui_files ui @ fs"
proof (cases inp)
  case (Choose page)
  with assms show ?thesis
    by (auto simp: ui_input_def choose_page_def switch_page_def ui_defs bind_Some_iff
        split: list.splits if_splits layer.splits)
qed (use assms press_files in \<open>auto simp: ui_input_def redis_port_submit_def postgres_dialog_def ui_defs
    split: list.splits if_splits layer.splits\<close>)

lemma typed_None [simp]: "typed i text v j = None \<longleftrightarrow> v j = None"
  by (simp add: typed_def)

lemma form_filled_typed [simp]: "form_filled f (typed i str v) = form_filled f v"
  by (simp add: form_filled_def)

lemma form_filled_view: "form_filled f (form_view f)"
proof -
  have "map_of (map snd f) i \<noteq> None" if "x \<in> set f" "i = fst (snd x)" for x i
    using that by (auto simp: map_of_eq_None_iff)
  then show ?thesis by (simp add: form_filled_def form_view_def)
qed

lemma postgres_form_filled:
  "form_filled postgres_local_form v \<Longrightarrow> postgres_filled v"
  "form_filled postgres_remote_form v \<Longrightarrow> postgres_filled v \<and> v ''postgres_host'' \<noteq> None"
  by (simp_all add: form_filled_def postgres_remote_form_def postgres_local_form_def postgres_filled_def)

lemma phase_type: "phase e (l # ls) s \<Longrightarrow> phase e (type_into i str l # ls) s"
  by (erule phase.cases) (auto intro: phase.intros)

lemma phase_redis: "bs \<in> {[], [Welcome]} \<Longrightarrow> redis_done e s \<Longrightarrow> phase e (Postgres_config b # bs) s"
  by (rule ph_postgres [of _ _ s]) (simp_all add: host_tried_def)

lemma phase_press:
  assumes "phase e (l # ls) (ui_settings ui)" and "ui_layers ui = l # ls" and "ui_files ui = []"
    and "b \<in> set (layer_buttons l)" and "press e b l ui = Some ui'"
  shows "course e ui'"
  using assms(1)
proof cases
  case ph_welcome
  with assms(2,3,5) show ?thesis
    using ph_boost [of "[]" e, unfolded first_time_def] ph_boost [of "[Welcome]" e, unfolded first_time_def]
    by (auto simp: course_def dialog_defs ui_defs)
next
  case ph_boost
  with assms(2,3,5) show ?thesis
    by (auto simp: course_def dialog_defs ui_defs intro: phase.intros)
next
  case (ph_redis installed)
  note next_phase = ph_redis_missing [OF ph_redis(3), of e installed] phase.ph_redis [OF ph_redis(3), of e installed]
    phase.ph_redis_port [OF ph_redis(3)] phase.ph_redis_remote [OF ph_redis(3) form_filled_view]
  from ph_redis(1,2) assms(2,3,5) show ?thesis
    by (auto simp: course_def dialog_defs ui_defs next_phase)
next
  case (ph_redis_missing bs b)
  with assms(2,3,5) show ?thesis
    by (auto simp: course_def dialog_defs ui_defs intro: phase.intros)
next
  case (ph_redis_port p)
  with assms(4) show ?thesis by simp
next
  case (ph_redis_remote v)
  with assms(2,3,5) show ?thesis
    by (auto simp: course_def dialog_defs ui_defs field_in_step redis_done_def bind_Some_iff intro!: phase_redis)
next
  case (ph_postgres s1 installed)
  note tried = host_tried_again [OF ph_postgres(4)]
  note next_phase = ph_postgres_missing [OF ph_postgres(2,3) tried, of installed]
    ph_postgres_local [OF ph_postgres(2,3) tried form_filled_view]
    ph_postgres_remote [OF ph_postgres(2,3,4) form_filled_view]
    phase.ph_postgres [OF ph_postgres(2,3,4), of installed]
  from ph_postgres(1) assms(2,3,5) show ?thesis
    by (auto simp: course_def dialog_defs ui_defs Let_def next_phase)
next
  case (ph_postgres_missing bs s1 b)
  with assms(2,3,5) show ?thesis
    by (auto simp: course_def dialog_defs ui_defs intro: phase.intros)
next
  case (ph_postgres_remote s1 v)
  then have "postgres_done e (postgres_remote v (ui_settings ui))"
    using host_tried_remote [of s1 "ui_settings ui" v] postgres_form_filled(2) [of v] by (auto simp: postgres_done_def)
  from phase.ph_data_dir [OF ph_postgres_remote(2) this form_filled_view] ph_postgres_remote(1,2) assms(2,3,5)
  show ?thesis by (auto simp: course_def dialog_defs ui_defs field_in_step)
next
  case (ph_postgres_local s1 v)
  then have "postgres_done e (postgres_local v (ui_settings ui))"
    using host_tried_local [of s1 "ui_settings ui" v] postgres_form_filled(1) [of v] by (auto simp: postgres_done_def)
  from phase.ph_data_dir [OF ph_postgres_local(2) this form_filled_view] ph_postgres_local(1,2) assms(2,3,5)
  show ?thesis by (auto simp: course_def dialog_defs ui_defs field_in_step)
next
  case (ph_data_dir v)
  with assms(2,5) obtain r where r: "set_data_dir (ue_exists e) v (ui_settings ui) = Some r"
    "ui' = (case r of Inr s \<Rightarrow> fxcm_dialog (ui\<lparr>ui_settings := s\<rparr>) | Inl err \<Rightarrow> error_popup err ui)"
    by (auto simp: data_dir_ok_def get_by_id_def field_in_step bind_Some_iff)
  have "data_done e s" if "r = Inr s" for s
    using ph_data_dir(3) r(1) that by (auto simp: data_done_def)
  with ph_data_dir assms(2,3) r(2) show ?thesis
    by (cases r) (auto simp: course_def fxcm_dialog_def ui_defs intro: phase.intros form_filled_view)
next
  case (ph_popup bs err v)
  with assms(2,3,5) show ?thesis
    by (auto simp: course_def dialog_defs ui_defs intro: phase.intros)
next
  case (ph_fxcm v)
  with assms(2,5) obtain s' files where s': "fxcm_config v (ui_settings ui) = Some s'" "write_settings s' = Some files"
    and ui': "ui_files ui' = ui_files ui @ [files]"
    by (auto simp: fxcm_ok_def initial_config_done_def ui_defs field_in_step bind_Some_iff)
  from data_done_course [OF ph_fxcm(3) s'(1)] s'(2) have "configured e files" by (auto simp: configured_def)
  with ui' assms(3) show ?thesis by (simp add: course_def)
qed

lemma course_input:
  assumes "course e ui" and "ui_input e inp ui = Some ui'"
  shows "course e ui'"
proof (cases "ui_files ui")
  case (Cons files later)
  with ui_input_files [OF assms(2)] assms(1) show ?thesis by (auto simp: course_def)
next
  case Nil
  with assms(1) have ph: "phase e (ui_layers ui) (ui_settings ui)" by (simp add: course_def)
  show ?thesis
  proof (cases "ui_layers ui")
    case (Cons l ls)
    note ph = ph [unfolded Cons]
    have keep: "course e ui" by (rule assms(1))
    show ?thesis
    proof (cases "ui_quit ui")
      case False
      show ?thesis
      proof (cases inp)
        case (Press b)
        with assms(2) Cons False keep phase_press [OF ph Cons Nil, of b ui'] show ?thesis
          by (auto simp: ui_input_def split: if_splits)
      next
        case Submit
        show ?thesis
        proof (cases "\<exists>p. l = Redis_port p")
          case True
          then obtain p where l: "l = Redis_port p" ..
          from ph l have bs: "ls \<in> {[], [Welcome]}" and s: "ui_settings ui = first_time (ue_which e)"
            by (auto elim: phase.cases)
          have "redis_done e (redis_local (ue_which e) p (ui_settings ui))" by (auto simp: redis_done_def s)
          with assms(2) Cons False Submit l Nil bs show ?thesis
            by (auto simp: ui_input_def course_def redis_port_submit_def postgres_dialog_def ui_defs
                intro!: phase_redis)
        qed (use assms(2) Cons False Submit keep in \<open>auto simp: ui_input_def split: layer.splits\<close>)
      next
        case (Type i str)
        with assms(2) Cons False Nil phase_type [OF ph, of i str] show ?thesis
          by (auto simp: ui_input_def course_def)
      next
        case (Choose page)
        have "\<nexists>v. l = Directory v" using ph by (auto elim: phase.cases)
        with assms(2) Cons False Choose keep show ?thesis by (auto simp: ui_input_def split: layer.splits)
      qed
    qed (use assms(2) keep Cons in \<open>simp add: ui_input_def\<close>)
  qed (use assms in \<open>simp add: ui_input_def\<close>)
qed

lemma course_run: "ui_run e inps ui = Some ui' \<Longrightarrow> course e ui \<Longrightarrow> course e ui'"
  by (induction inps arbitrary: ui) (auto simp: bind_Some_iff dest: course_input)

lemma course_start: "start_ui from_json None = Some ui \<Longrightarrow> course e ui"
  by (auto simp: start_ui_def course_def intro: ph_welcome)

end
