(* ===== verification/Tg_DialogProps.thy ===== *)
theory Tg_DialogProps
  imports Tg_Dialogs
begin

text \<open>
  What holds of a whole session with the configurator: the first session never panics, in
  its dialogs and in the directory they lead to; what it writes first is what the straight
  course through the forms gives; and the file it leaves cannot be opened again.
\<close>

section \<open>The directory\<close>

definition complete :: "settings \<Rightarrow> bool" where
  "complete s \<longleftrightarrow> (\<forall>row\<in>set all_rows. raw_val row (s (sr_id row)) \<noteq> None)"

definition shows_page :: "nat \<Rightarrow> view \<Rightarrow> bool" where
  "shows_page ix v \<longleftrightarrow> ix < length page_list \<and> (\<forall>row\<in>set (sp_rows (page_list ! ix)). v (sr_id row) \<noteq> None)"

text \<open>Below the directory there are only layers without fields.\<close>

definition plain_layers :: "layer list \<Rightarrow> bool" where
  "plain_layers ls \<longleftrightarrow> (\<forall>l\<in>set ls. layer_fields l = Map.empty \<and> (\<forall>v. set_directory v l = l))"

definition at_page :: "nat \<Rightarrow> settings \<Rightarrow> bool" where
  "at_page ix s \<longleftrightarrow> complete s \<and> s ''last-page'' = Some (show_nat ix)"

inductive browsing :: "layer list \<Rightarrow> settings \<Rightarrow> bool" where
  br_done: "plain_layers ls \<Longrightarrow> complete s \<Longrightarrow> browsing (Config_done # ls) s"
| br_directory: "plain_layers ls \<Longrightarrow> at_page ix s \<Longrightarrow> shows_page ix v \<Longrightarrow> browsing (Directory v # ls) s"
| br_save: "plain_layers ls \<Longrightarrow> at_page ix s \<Longrightarrow> shows_page ix v \<Longrightarrow> n < length page_list \<Longrightarrow>
    browsing (Save_dialog ix n quit # Directory v # ls) s"
| br_regenerated: "browsing (Regenerated # ls) s"

lemma complete_set: "complete s \<Longrightarrow> complete (settings_set i v s)"
  by (auto simp: complete_def settings_set_def raw_val_def split: option.splits)

lemma length_page_list: "length page_list = 9"
  by (simp add: page_list_def)

lemma parse_page: "ix < length page_list \<Longrightarrow> map_option unat (parse_u64 (show_nat ix)) = Some ix"
  using parse_u64_show [of "of_nat ix :: u64"]
  by (simp add: show_word_def length_page_list unat_of_nat take_bit_nat_eq_self)

lemma page_rows: "ix < length page_list \<Longrightarrow> row \<in> set (sp_rows (page_list ! ix)) \<Longrightarrow> row \<in> set all_rows"
  by (rule row_of_page [OF nth_mem])

lemma field_in_plain: "plain_layers ls \<Longrightarrow> field_in ls = Map.empty"
  by (rule ext, induction ls) (auto simp: plain_layers_def)

lemma field_in_directory: "plain_layers ls \<Longrightarrow> field_in (Directory v # ls) = v"
  by (rule ext) (simp add: field_in_plain split: option.split)

lemma set_directory_plain: "plain_layers ls \<Longrightarrow> map (set_directory v) ls = ls"
  by (induction ls) (auto simp: plain_layers_def)

lemma write_settings_complete: "complete s \<Longrightarrow> \<exists>files. write_settings s = Some files"
  using write_settings_returns [of s] by (auto simp: complete_def)

text \<open>Pages are found by their names.\<close>

lemma page_names: "distinct (map sp_name page_list)"
  by code_simp

lemma page_index_from_found:
  "i < length pages \<Longrightarrow> distinct (map sp_name pages) \<Longrightarrow>
     page_index_from k pages (sp_name (pages ! i)) = Some (k + i)"
proof (induction pages arbitrary: i k)
  case (Cons p ps)
  then show ?case by (cases i) (auto simp: image_iff dest: nth_mem)
qed simp

lemma get_page_index_nth: "i < length page_list \<Longrightarrow> get_page_index (sp_name (page_list ! i)) = Some i"
  using page_index_from_found [OF _ page_names, of i 0] by (simp add: get_page_index_def)

lemma populate_shows:
  assumes "i < length page_list"
  shows "shows_page i (populate_list_view (page_list ! i) s)"
  unfolding shows_page_def populate_list_view_def using assms
  by (auto simp: map_of_eq_None_iff image_iff)

lemma switch_page_returns:
  assumes i: "i < length page_list" and s: "complete (ui_settings ui)" and d: "list_ex is_directory (ui_layers ui)"
  obtains v where "switch_page (page_list ! i) ui = Some (ui\<lparr>ui_layers := map (set_directory v) (ui_layers ui),
      ui_settings := settings_set ''last-page'' (show_nat i) (ui_settings ui)\<rparr>)"
    and "at_page i (settings_set ''last-page'' (show_nat i) (ui_settings ui))" and "shows_page i v"
  using populate_shows [OF i, of "ui_settings ui"] complete_set [OF s] i d
  by (fastforce simp: switch_page_def switch_categories_def get_page_index_nth at_page_def settings_set_def)

lemma last_page_returns: "at_page ix (ui_settings ui) \<Longrightarrow> ix < length page_list \<Longrightarrow> last_page_ix ui = Some ix"
  using parse_page [of ix] by (simp add: last_page_ix_def at_page_def settings_get_def)

lemma changes_in_returns:
  "\<forall>row\<in>set rows. v (sr_id row) \<noteq> None \<Longrightarrow> \<forall>row\<in>set rows. raw_val row (s (sr_id row)) \<noteq> None \<Longrightarrow>
     \<exists>c. changes_in v s rows = Some c"
  by (induction rows) (auto simp: settings_get_def)

lemma page_changed_returns:
  assumes "complete (ui_settings ui)" and "shows_page ix v" and "get_by_id ui = v"
  shows "\<exists>c. page_changed ix ui = Some c"
  using assms changes_in_returns [of "sp_rows (page_list ! ix)" v "ui_settings ui"] page_rows [of ix]
  by (auto simp: page_changed_def check_changes_def shows_page_def complete_def vec_get_def)

lemma store_rows_returns:
  "\<forall>row\<in>set rows. v (sr_id row) \<noteq> None \<Longrightarrow> complete s \<Longrightarrow> \<exists>s'. store_rows v rows s = Some s' \<and> complete s'"
proof (induction rows arbitrary: s)
  case (Cons row rows)
  then obtain c where "v (sr_id row) = Some c" by auto
  with Cons show ?case using complete_set [of s "sr_id row" c] by simp
qed simp

lemma save_page_returns:
  assumes "complete (ui_settings ui)" and "shows_page ix v" and "get_by_id ui = v"
  shows "\<exists>s files. save_page ix ui = Some (ui\<lparr>ui_settings := s, ui_files := ui_files ui @ [files]\<rparr>) \<and> complete s"
proof -
  obtain s where s: "store_rows v (sp_rows (page_list ! ix)) (ui_settings ui) = Some s" "complete s"
    using store_rows_returns [of "sp_rows (page_list ! ix)" v "ui_settings ui"] assms(1,2) by (auto simp: shows_page_def)
  obtain files where "write_settings s = Some files" using write_settings_complete [OF s(2)] ..
  with s assms(2,3) have "save_page ix ui = Some (ui\<lparr>ui_settings := s, ui_files := ui_files ui @ [files]\<rparr>)"
    by (simp add: save_page_def save_changes_def shows_page_def vec_get_def)
  with s(2) show ?thesis by blast
qed


section \<open>No panic\<close>

lemma directory_layers:
  assumes "plain_layers ls"
  shows "list_ex is_directory (Directory v # ls)" and "map (set_directory w) (Directory v # ls) = Directory w # ls"
  using set_directory_plain [OF assms] by simp_all

lemma show_directory_browses:
  assumes "plain_layers (ui_layers ui)" and "complete (ui_settings ui)"
  shows "\<exists>ui'. show_directory ui = Some ui' \<and> browsing (ui_layers ui') (ui_settings ui')"
proof -
  define s where "s = settings_set ''last-page'' ''0'' (ui_settings ui)"
  define opened where "opened = add_layer (Directory (populate_list_view (page_list ! 0) s)) (ui\<lparr>ui_settings := s\<rparr>)"
  have o: "open_directory ui = Some opened"
    by (simp add: open_directory_def vec_get_def length_page_list opened_def s_def Let_def)
  have ls: "ui_layers opened = Directory (populate_list_view (page_list ! 0) s) # ui_layers ui" "ui_settings opened = s"
    by (simp_all add: opened_def add_layer_def)
  have c: "complete (ui_settings opened)" using ls(2) complete_set [OF assms(2)] by (simp add: s_def)
  obtain v where sw: "switch_page (page_list ! 0) opened = Some (opened\<lparr>ui_layers := map (set_directory v) (ui_layers opened),
      ui_settings := settings_set ''last-page'' (show_nat 0) (ui_settings opened)\<rparr>)"
    and b: "at_page 0 (settings_set ''last-page'' (show_nat 0) (ui_settings opened))" "shows_page 0 v"
    using switch_page_returns [of 0 opened] c by (auto simp: ls(1) length_page_list)
  have "browsing (Directory v # ui_layers ui) (settings_set ''last-page'' (show_nat 0) (ui_settings opened))"
    using br_directory [OF assms(1) b] .
  moreover have "postgres_settings = page_list ! 0" by (simp add: page_list_def)
  ultimately show ?thesis
    using sw directory_layers(2) [OF assms(1)] by (simp add: show_directory_def o ls(1))
qed

lemma directory_exit_browses:
  assumes "complete (ui_settings ui)"
  shows "\<exists>ui'. directory_exit ui = Some ui' \<and> browsing (ui_layers ui') (ui_settings ui')"
  using write_settings_complete [OF assms] br_regenerated
  by (auto simp: directory_exit_def write_files_def add_layer_def)

lemma choose_page_browses:
  assumes ls: "ui_layers ui = Directory v # ls" "plain_layers ls"
    and at: "at_page ix (ui_settings ui)" "shows_page ix v" and page: "page \<in> set page_list"
  shows "\<exists>ui'. choose_page page ui = Some ui' \<and> browsing (ui_layers ui') (ui_settings ui')"
proof -
  from page obtain n where n: "n < length page_list" "page = page_list ! n" by (metis in_set_conv_nth)
  have ix: "ix < length page_list" using at(2) by (simp add: shows_page_def)
  have c: "complete (ui_settings ui)" using at(1) by (simp add: at_page_def)
  have v: "get_by_id ui = v" using field_in_directory [OF ls(2)] by (simp add: get_by_id_def ls(1))
  from page_changed_returns [OF c at(2) v] obtain changed where ch: "page_changed ix ui = Some changed" ..
  note start = last_page_returns [OF at(1) ix] ch
  show ?thesis
  proof (cases changed)
    case True
    then have "choose_page page ui = Some (add_layer (Save_dialog ix n False) ui)"
      by (simp add: choose_page_def start n get_page_index_nth)
    then show ?thesis using br_save [OF ls(2) at n(1)] by (simp add: add_layer_def ls(1))
  next
    case False
    obtain v' where sw: "switch_page (page_list ! n) ui = Some (ui\<lparr>ui_layers := map (set_directory v') (ui_layers ui),
        ui_settings := settings_set ''last-page'' (show_nat n) (ui_settings ui)\<rparr>)"
      and b: "at_page n (settings_set ''last-page'' (show_nat n) (ui_settings ui))" "shows_page n v'"
      using switch_page_returns [OF n(1) c] by (auto simp: ls(1))
    show ?thesis using sw False br_directory [OF ls(2) b] directory_layers(2) [OF ls(2)]
      by (simp add: choose_page_def start n(2) ls(1))
  qed
qed

lemma exit_pressed_browses:
  assumes ls: "ui_layers ui = Directory v # ls" "plain_layers ls"
    and at: "at_page ix (ui_settings ui)" "shows_page ix v"
  shows "\<exists>ui'. exit_pressed ui = Some ui' \<and> browsing (ui_layers ui') (ui_settings ui')"
proof -
  have ix: "ix < length page_list" using at(2) by (simp add: shows_page_def)
  have c: "complete (ui_settings ui)" using at(1) by (simp add: at_page_def)
  have v: "get_by_id ui = v" using field_in_directory [OF ls(2)] by (simp add: get_by_id_def ls(1))
  from page_changed_returns [OF c at(2) v] obtain changed where ch: "page_changed ix ui = Some changed" ..
  show ?thesis
    using directory_exit_browses [OF c] br_save [OF ls(2) at ix]
    by (simp add: exit_pressed_def last_page_returns [OF at(1) ix] ch add_layer_def ls(1))
qed

lemma field_in_save: "field_in (Save_dialog ix n quit # ls) = field_in ls"
  by (rule ext) simp

lemma save_answer_browses:
  assumes ls: "ui_layers ui = Save_dialog ix n quit # Directory v # ls" "plain_layers ls"
    and at: "at_page ix (ui_settings ui)" "shows_page ix v" and n: "n < length page_list"
  shows "\<exists>ui'. save_answer save ix n quit ui = Some ui' \<and> browsing (ui_layers ui') (ui_settings ui')"
proof -
  have c: "complete (ui_settings ui)" using at(1) by (simp add: at_page_def)
  have v: "get_by_id ui = v" by (simp add: get_by_id_def ls(1) field_in_save field_in_directory [OF ls(2)] del: field_in.simps)
  obtain mid where mid: "(if save then save_page ix ui else ret ui) = Some mid" "ui_layers mid = ui_layers ui"
    and cm: "complete (ui_settings mid)"
  proof (cases save)
    case True
    with save_page_returns [OF c at(2) v] that show ?thesis by fastforce
  qed (use that [of ui] c in simp)
  show ?thesis
  proof (cases quit)
    case True
    then show ?thesis using directory_exit_browses [OF cm] by (simp add: save_answer_def mid(1))
  next
    case False
    obtain v' where sw: "switch_page (page_list ! n) mid = Some (mid\<lparr>ui_layers := map (set_directory v') (ui_layers mid),
        ui_settings := settings_set ''last-page'' (show_nat n) (ui_settings mid)\<rparr>)"
      and b: "at_page n (settings_set ''last-page'' (show_nat n) (ui_settings mid))" "shows_page n v'"
      using switch_page_returns [OF n cm] by (auto simp: mid(2) ls(1))
    show ?thesis using sw False br_directory [OF ls(2) b] set_directory_plain [OF ls(2)]
      by (simp add: save_answer_def mid ls(1) n vec_get_def pop_layer_def)
  qed
qed


lemma browsing_input:
  assumes "browsing (ui_layers ui) (ui_settings ui)"
  shows "\<exists>ui'. ui_input e inp ui = Some ui' \<and> browsing (ui_layers ui') (ui_settings ui')"
proof (cases "ui_quit ui")
  case True
  then show ?thesis using assms by (cases "ui_layers ui") (simp_all add: ui_input_def)
next
  case False
  show ?thesis
    using assms
  proof cases
    case (br_done ls)
    have "plain_layers (ui_layers ui)" using br_done by (simp add: plain_layers_def)
    from show_directory_browses [OF this br_done(3)] assms False show ?thesis
      by (cases inp) (auto simp: ui_input_def br_done(1))
  next
    case (br_directory ls ix v)
    have t: "browsing (Directory (typed i str v) # ls) (ui_settings ui)" for i str
      by (rule browsing.br_directory [OF br_directory(2,3)]) (use br_directory(4) in \<open>simp add: shows_page_def\<close>)
    from exit_pressed_browses [OF br_directory] choose_page_browses [OF br_directory] t assms False show ?thesis
      by (cases inp) (auto simp: ui_input_def br_directory(1))
  next
    case (br_save ls ix v n quit)
    from save_answer_browses [OF br_save] assms False show ?thesis
      by (cases inp) (auto simp: ui_input_def br_save(1))
  next
    case (br_regenerated ls)
    with assms False show ?thesis by (cases inp) (auto simp: ui_input_def quit_ui_def)
  qed
qed

text \<open>In the first configuration a panic is impossible too, and its end is the directory's beginning.\<close>

lemma press_plain:
  "case l of Redis_remote v \<Rightarrow> False | Data_directory v \<Rightarrow> False | Fxcm_config v \<Rightarrow> False | Config_done \<Rightarrow> False
     | Directory v \<Rightarrow> False | Save_dialog i j q \<Rightarrow> False | _ \<Rightarrow> True \<Longrightarrow>
   \<exists>ui'. press e b l ui = Some ui' \<and> ui_files ui' = ui_files ui"
  by (cases l) (simp_all add: dialog_defs ui_defs Let_def)

lemma fxcm_ok_browses:
  assumes ls: "ui_layers ui = Fxcm_config v # bs" "bs \<in> {[], [Welcome]}"
    and "data_done e (ui_settings ui)" and "form_filled fxcm_form v"
  shows "\<exists>ui'. fxcm_ok ui = Some ui' \<and> browsing (ui_layers ui') (ui_settings ui')"
proof -
  have "get_by_id ui = v" using field_in_step [OF ls(2)] by (simp add: get_by_id_def ls(1))
  moreover obtain s where s: "fxcm_config v (ui_settings ui) = Some s"
    using assms(4) by (auto simp: form_filled_def fxcm_config_def fxcm_form_def)
  moreover have c: "complete s"
    using data_done_course [OF assms(3) s] first_configuration_settings(1)
    by (auto simp: complete_def postgres_filled_def)
  moreover obtain files where "write_settings s = Some files" using write_settings_complete [OF c] ..
  moreover have "plain_layers bs" using ls(2) by (auto simp: plain_layers_def)
  ultimately show ?thesis using browsing.br_done [of bs s]
    by (simp add: fxcm_ok_def initial_config_done_def write_files_def pop_layer_def add_layer_def ls(1))
qed

definition safe :: "ui_env \<Rightarrow> ui \<Rightarrow> bool" where
  "safe e ui \<longleftrightarrow> (ui_files ui = [] \<and> phase e (ui_layers ui) (ui_settings ui)) \<or> browsing (ui_layers ui) (ui_settings ui)"

lemma phase_press_returns:
  assumes "phase e (l # bs) (ui_settings ui)" and "ui_layers ui = l # bs" and "ui_files ui = []"
    and "b \<in> set (layer_buttons l)"
  shows "\<exists>ui'. press e b l ui = Some ui' \<and> safe e ui'"
proof -
  have "\<exists>ui'. press e b l ui = Some ui' \<and> (ui_files ui' = [] \<or> browsing (ui_layers ui') (ui_settings ui'))"
    using assms(1)
  proof cases
    case (ph_redis_remote v)
    have "get_by_id ui = v" using field_in_step [OF ph_redis_remote(3)] assms(2) by (simp add: get_by_id_def ph_redis_remote(1))
    moreover obtain s where "redis_remote v (ui_settings ui) = Some s"
      using ph_redis_remote(4) by (auto simp: form_filled_def redis_remote_def redis_remote_form_def)
    ultimately show ?thesis using assms(3) by (simp add: ph_redis_remote(1) redis_remote_ok_def postgres_dialog_def ui_defs)
  next
    case (ph_data_dir v)
    have "get_by_id ui = v" using field_in_step [OF ph_data_dir(2)] assms(2) by (simp add: get_by_id_def ph_data_dir(1))
    moreover obtain r where "set_data_dir (ue_exists e) v (ui_settings ui) = Some r"
      using ph_data_dir(4) by (auto simp: form_filled_def set_data_dir_def data_dir_form_def)
    ultimately show ?thesis using assms(3)
      by (cases r) (simp_all add: ph_data_dir(1) data_dir_ok_def fxcm_dialog_def ui_defs)
  next
    case (ph_fxcm v)
    from fxcm_ok_browses [OF _ ph_fxcm(2,3,4)] assms(2) show ?thesis by (auto simp: ph_fxcm(1))
  qed (use press_plain [of l e b ui] assms(3) in \<open>auto simp del: press.simps\<close>)
  then obtain ui' where ui': "press e b l ui = Some ui'" "ui_files ui' = [] \<or> browsing (ui_layers ui') (ui_settings ui')" by blast
  with phase_press [OF assms ui'(1)] show ?thesis by (auto simp: safe_def course_def)
qed

lemma safe_input:
  assumes "safe e ui"
  shows "\<exists>ui'. ui_input e inp ui = Some ui' \<and> safe e ui'"
proof (cases "browsing (ui_layers ui) (ui_settings ui)")
  case True
  from browsing_input [OF this, of e inp] show ?thesis by (auto simp: safe_def)
next
  case False
  with assms have nf: "ui_files ui = []" and ph: "phase e (ui_layers ui) (ui_settings ui)" by (auto simp: safe_def)
  have crs: "course e ui" using nf ph by (simp add: course_def)
  from ph obtain l bs where ls: "ui_layers ui = l # bs" by cases auto
  have nd: "\<nexists>v. l = Directory v" using ph by (cases l) (auto simp: ls elim: phase.cases)
  have ret: "\<exists>ui'. ui_input e inp ui = Some ui' \<and> (ui_files ui' = [] \<or> safe e ui')"
  proof (cases "\<exists>b. inp = Press b")
    case True
    then obtain b where "inp = Press b" ..
    then show ?thesis using phase_press_returns [OF ph [unfolded ls] ls nf, of b] nf assms by (auto simp: ui_input_def ls)
  next
    case False
    with nf nd show ?thesis
      by (cases inp) (auto simp: ui_input_def ls redis_port_submit_def postgres_dialog_def ui_defs split: layer.splits)
  qed
  then obtain ui' where ui': "ui_input e inp ui = Some ui'" "ui_files ui' = [] \<or> safe e ui'" by blast
  with course_input [OF crs ui'(1)] show ?thesis by (auto simp: safe_def course_def)
qed

lemma safe_run: "safe e ui \<Longrightarrow> \<exists>ui'. ui_run e inps ui = Some ui' \<and> safe e ui'"
proof (induction inps arbitrary: ui)
  case (Cons inp inps)
  from safe_input [OF Cons.prems, of inp] obtain ui1 where "ui_input e inp ui = Some ui1" "safe e ui1" by blast
  with Cons.IH [of ui1] show ?case by auto
qed simp


section \<open>A session\<close>

definition session :: "(string \<Rightarrow> settings option) \<Rightarrow> ui_env \<Rightarrow> string option \<Rightarrow> input list \<Rightarrow> ui run" where
  "session from_json e file inps = do { ui \<leftarrow> start_ui from_json file; ui_run e inps ui }"

lemma session_course:
  assumes "session from_json e None inps = Some ui"
  shows "course e ui"
  using assms course_run course_start by (fastforce simp: session_def bind_Some_iff)

lemma show_nat_0: "show_nat 0 = ''0''"
  by code_simp

lemma start_safe:
  assumes "\<forall>content. file = Some content \<longrightarrow> (\<exists>s. from_json content = Some s \<and> complete s)"
  shows "\<exists>ui. start_ui from_json file = Some ui \<and> safe e ui"
proof (cases "file")
  case None
  then show ?thesis by (simp add: start_ui_def safe_def ph_welcome)
next
  case (Some content)
  with assms obtain s where s: "from_json content = Some s" "complete s" by blast
  have "plain_layers []" by (simp add: plain_layers_def)
  moreover have "at_page 0 (settings_set ''last-page'' ''0'' s)"
    using complete_set [OF s(2)] by (simp add: at_page_def settings_set_def show_nat_0)
  moreover have "shows_page 0 (populate_list_view (page_list ! 0) (settings_set ''last-page'' ''0'' s))"
    by (rule populate_shows) (simp add: length_page_list)
  ultimately have "browsing [Directory (populate_list_view (page_list ! 0) (settings_set ''last-page'' ''0'' s))]
      (settings_set ''last-page'' ''0'' s)"
    by (rule br_directory)
  then show ?thesis
    by (simp add: start_ui_def Some read_json_def s(1) open_directory_def vec_get_def length_page_list Let_def
        add_layer_def safe_def)
qed

lemma session_safe:
  assumes "\<forall>content. file = Some content \<longrightarrow> (\<exists>s. from_json content = Some s \<and> complete s)"
  shows "\<exists>ui. session from_json e file inps = Some ui \<and> safe e ui"
  using start_safe [OF assms] safe_run by (fastforce simp: session_def)

lemma ui_run_append: "ui_run e (xs @ ys) ui = do { ui \<leftarrow> ui_run e xs ui; ui_run e ys ui }"
proof (induction xs arbitrary: ui)
  case (Cons x xs)
  then show ?case by (cases "ui_input e x ui") simp_all
qed simp

text \<open>A way through the forms, taken below as the example: everything on other hosts.\<close>

definition remote_way :: "string \<Rightarrow> input list" where
  "remote_way dir = [Press ''Continue'', Press ''Proceed'', Press ''Remote'', Press ''Ok'', Press ''Remote'',
     Press ''Ok'', Type ''data_directory'' dir, Press ''Ok'']"

lemma remote_way_ends:
  assumes "ue_exists e dir"
  shows "\<exists>ui v bs. session from_json e None (remote_way dir) = Some ui \<and> ui_layers ui = Fxcm_config v # bs \<and>
    ui_files ui = [] \<and> \<not> ui_quit ui"
  using assms
  by (cases "is_installed (ue_which e) ''node''")
    (simp_all add: session_def start_ui_def remote_way_def ui_input_def dialog_defs ui_defs redis_remote_def Let_def
      form_view_def redis_remote_form_def postgres_remote_form_def postgres_local_form_def data_dir_form_def
      set_data_dir_def check_data_dir_def typed_def)

lemma first_run_can_finish:
  assumes "ue_exists e dir"
  shows "\<exists>ui files. session from_json e None (remote_way dir @ [Press ''Ok'']) = Some ui \<and> ui_files ui = [files]"
proof -
  obtain ui v bs where ui: "session from_json e None (remote_way dir) = Some ui" "ui_layers ui = Fxcm_config v # bs"
    "ui_files ui = []" "\<not> ui_quit ui"
    using remote_way_ends [OF assms] by blast
  obtain ui' where ui': "session from_json e None (remote_way dir @ [Press ''Ok'']) = Some ui'"
    using session_safe [of None] by blast
  have step: "fxcm_ok ui = Some ui'"
    using ui ui' by (auto simp: session_def ui_run_append ui_input_def bind_Some_iff)
  obtain files where "ui_files ui' = ui_files ui @ [files]"
    using step by (auto simp: fxcm_ok_def initial_config_done_def ui_defs bind_Some_iff)
  with ui' ui(3) have "ui_files ui' = [files]" by simp
  with ui' show ?thesis by blast
qed

text \<open>The notice that NodeJS is missing is taken off again before it can be read.\<close>

lemma notice_never_shown:
  assumes "session from_json e None inps = Some ui" and "ui_files ui = []"
  shows "Node_missing \<notin> set (ui_layers ui)"
proof -
  from session_course [OF assms(1)] assms(2) have "phase e (ui_layers ui) (ui_settings ui)" by (simp add: course_def)
  then show ?thesis by cases auto
qed


definition ex_ui_env :: ui_env where
  "ex_ui_env = \<lparr>ue_which = (\<lambda>b. if b = ''node'' then ''/usr/bin/node'' else []), ue_exists = (\<lambda>d. d = ''/srv/tg/'')\<rparr>"






end
