(* ===== verification/Spec2Isabelle.thy ===== *)
theory Spec2Isabelle
  imports Tg_SimProps Tg_SimLimits Tg_SimClient Tg_FuzzProps Tg_Textlog Tg_Sma Tg_Strategies
    Tg_CommandServer Tg_Tickstream Tg_Data Tg_Backtester Tg_Spawner Tg_Proxy Tg_Configurator
    Tg_Logger Tg_Poloniex Tg_CInterface Tg_Downloaders Tg_Modules Tg_Platform Tg_Pipelines
    Tg_Startup Tg_CommandThreads Tg_Redis Tg_DialogProps
begin

text \<open>
  TickGrinder is an algorithmic trading platform: independent modules, most of them written
  in Rust, that exchange commands and responses over Redis. This library is a shallow
  embedding of that code with the theorems that make it correct, or that show where it is
  not. Every definition follows a function, type or loop of \<open>src/\<close>; the texts before the
  definitions say what is abstracted.

  \<^bold>\<open>The parts of the program and how they interact.\<close>
  The spawner starts the modules (logger, optimizer, tick processors, backtester, data
  downloaders) as processes, keeps the list of those alive by a heartbeat, and owns the
  document store. Modules send commands through a command server, which registers a uuid
  for each command, waits for the response with that uuid and sends the command again after
  a timeout. A backtester plays stored ticks through a tickstream (generator, map, sink),
  or lets a simulated broker pull them. The simulated broker has accounts with ledgers, a
  cache of positions by symbol and a priority queue of timed work; a client executes actions
  through it and forks its stream of messages. Strategies receive ticks and messages and
  return actions; the fuzzer is the one that is implemented. Downloaders and the transfer
  functions move historical ticks between files, Redis and PostgreSQL. The configurator
  writes the settings as JSON, Rust and JavaScript.

  \<^bold>\<open>Theories and sources\<close> (paths under \<open>src/\<close>; \<open>sim\<close> is \<open>broker_shims/simbroker/src\<close>).
  \<^item> \<open>Tg_Prelude\<close>: machine words, panics as \<^term>\<open>None\<close>, results as sums, vectors by index,
    hash maps; the locales \<open>hash_map_laws\<close>, \<open>step_invariant\<close> and \<open>clocked\<close>. \<open>Tg_Text\<close>: printing
    and parsing of numbers, splitting of strings. \<open>Tg_Heap\<close>: Rust's \<open>BinaryHeap\<close> on its array,
    as an instance of the locale \<open>event_queue\<close>.
  \<^item> \<open>Tg_Objects\<close> (\<open>util/src/trading/objects.rs\<close>, \<open>trading_condition.rs\<close>), \<open>Tg_Ticks\<close>
    (\<open>trading/tick.rs\<close>).
  \<^item> \<open>Tg_SimHelpers\<close> (\<open>sim/helpers.rs\<close>), \<open>Tg_SimBroker\<close> and \<open>Tg_SimLoop\<close> (\<open>sim/lib.rs\<close>: the actions;
    the event loop), \<open>Tg_SimClient\<close> (\<open>sim/client.rs\<close>). Their proofs: \<open>Tg_SimCache\<close> (the cache
    agrees with the ledgers), \<open>Tg_SimInvariant\<close> (outcomes and invariant of every action),
    \<open>Tg_SimTick\<close> (a price tick against a specification on ledgers), \<open>Tg_SimTime\<close> (order of
    events), \<open>Tg_SimProps\<close> (the properties), \<open>Tg_SimLimits\<close> (corner cases).
  \<^item> \<open>Tg_Sma\<close> (\<open>private/src/indicators/sma.rs\<close>), \<open>Tg_Strategies\<close> (\<open>util/src/strategies.rs\<close>,
    \<open>trading/datafield.rs\<close>; the locale \<open>registry\<close>), \<open>Tg_Fuzzer\<close> and \<open>Tg_FuzzProps\<close>
    (\<open>private/src/strategies/fuzzer/mod.rs\<close>, \<open>scripts/fuzz/src/main.rs\<close>).
  \<^item> \<open>Tg_Commands\<close> (\<open>util/src/transport/commands.rs\<close>, \<open>util/src/instance.rs\<close>; the locale
    \<open>platform_module\<close>), \<open>Tg_CommandServer\<close> (\<open>transport/command_server.rs\<close>, \<open>query_server.rs\<close>),
    \<open>Tg_CommandThreads\<close> (its threads: responses, workers and their sleepers), \<open>Tg_Redis\<close>
    (\<open>transport/redis.rs\<close>, the text of commands and responses, and \<open>PlatformInstance::listen\<close> over both),
    \<open>Tg_Tickstream\<close> (\<open>transport/tickstream\<close>), \<open>Tg_Data\<close> (\<open>transport/data.rs\<close>), \<open>Tg_Textlog\<close>
    (\<open>transport/textlog.rs\<close>, \<open>sim/superlog.rs\<close>), \<open>Tg_CInterface\<close> (\<open>transport/ffi/mod.rs\<close>),
    \<open>Tg_Poloniex\<close> (\<open>transport/ffi/poloniex.rs\<close>, \<open>tickstream/maps/poloniex.rs\<close>).
  \<^item> \<open>Tg_Backtester\<close> (\<open>backtester/src\<close>), \<open>Tg_Documents\<close>, \<open>Tg_Spawner\<close> and \<open>Tg_Proxy\<close> (\<open>spawner/src\<close>),
    \<open>Tg_Logger\<close> (\<open>logger/src/main.rs\<close>), \<open>Tg_Configurator\<close> (\<open>configurator/src\<close>: settings, files, forms),
    \<open>Tg_Dialogs\<close> and \<open>Tg_DialogProps\<close> (its dialogs as a stack of layers, and whole sessions), \<open>Tg_Downloaders\<close>
    (\<open>data_downloaders/fxcm_flatfile\<close>, \<open>fxcm_native\<close>), \<open>Tg_Modules\<close> (\<open>optimizer\<close>, \<open>tick_parser\<close>,
    \<open>transport/postgres.rs\<close>, \<open>broker_shims/FXCM/native/src\<close>).
  \<^item> \<open>Tg_Platform\<close>: all modules behind one handler, the heartbeat over them and commands that are
    sent again. \<open>Tg_Startup\<close>: the \<open>main\<close> functions, from the spawner's command to the entry in its list.
    \<open>Tg_Pipelines\<close>: from a C string to the log table, from a download to a backtest.

  \<^bold>\<open>How state and operations are written.\<close>
  A struct is a record, an enum a datatype with the source's constructors (prefixed where
  two enums share one), an operation a function that returns the new state. A result of
  type \<open>'a run\<close> is \<^term>\<open>None\<close> when the code panics or waits for ever. Words wrap, as in the
  release profile; indices of vectors and counts of elements are natural numbers. A
  \<open>HashMap\<close> that is iterated is an association list, one that is only looked up a function.
  Threads are interleavings: the pool of workers, a worker with its sleeper, the mailbox of a
  generator and the simulation loop are step relations, and what arrives before a timeout is
  an argument. The dialogs are a stack of layers that inputs act on.
  Uuids and random numbers that are drawn are arguments. Serde, Redis, PostgreSQL, the
  search engine, HTTP, the native libraries and the printing of floating point numbers are
  parameters; where a theorem needs a property of one, it is a hypothesis of the theorem.

  \<^bold>\<open>What the theorems show.\<close>
  \<^item> Simulated broker: two phases on ledgers are what a price tick does; every action but
    a market close keeps ledgers and cache consistent and returns; time never runs backwards;
    the exact effect of each action, and the closes and changes that panic or lose money.
  \<^item> Fuzzer: its copy of the ledger follows the broker as long as messages arrive in the order
    of the events, and diverges when a fill overtakes its order; its draws return.
  \<^item> Platform: every module keeps the contract of a module, so the heartbeat drops only
    modules that do not run; a command that times out is executed once per attempt; no request
    and no worker of a pool is lost, though a request can wait while all workers are idle; a
    module the spawner starts registers under its uuid, but for the optimizer, which refuses
    its arguments; a command published over Redis is answered once and heard if its listener
    was registered in time; there are no more timeouts than run-out timers and answered
    attempts, and a stale token can use one up.
  \<^item> Data: what was downloaded into a file is what a backtest reads, what was logged is what
    SQL reads; buffered destinations deliver whole batches only and lose the rest; readers send
    a prefix of their source whatever commands arrive.
  \<^item> Indicators, tables, configuration: the moving average is the time-weighted mean; the table of
    handlers is a map; the generated configuration is well typed; the configurator never panics
    in a session, its dialogs end with the settings of a straight course through the forms, and
    it cannot be started again on the file they leave.

  \<^bold>\<open>Interfaces.\<close> \<open>event_queue\<close> (interpreted on the heap), \<open>hash_map_laws\<close> (association lists),
  \<open>step_invariant\<close> (pools, generators) and its extension \<open>clocked\<close> (the simulation loop),
  \<open>registry\<close> (handlers), \<open>platform_module\<close> (each of the seven modules, and their union).

  \<^bold>\<open>Loops and bounds.\<close> Loops over cache entries recurse on the entries left, with a measure.
  The draw of an action, the search for a log file and the loops over weekly archives are
  \<^theory_text>\<open>partial_function\<close>s whose result is \<^term>\<open>None\<close> when they do not end; when they end is a
  theorem each. The loops of a transfer take the number of ticks or queries as an argument,
  and the theorems hold for every number. Constants are the code's: 5000 ticks in a buffer of a
  destination, batches of 500 from a file, 32 actions in the channel of a client, 10000 messages
  in the record of the proxy, 50 lines in a chunk of a log.

  \<^bold>\<open>Not modelled.\<close> Drawing and the dispatch of keys in the configurator, and the comment shown for a
  selected row; the two websocket servers of the proxy around its message handlers; traits
  without code; strategies and conditions whose bodies are \<open>unimplemented!\<close>; the C++ server
  behind the FXCM shim; tests and benchmarks, but for the series of the moving average's
  tests; \<open>Debug\<close> printing; the JavaScript, Java and C++ parts. What is logged in passing is
  left out of the operations.
\<close>

end
